theory Spec2Isabelle
  imports Main "HOL-Library.Word"
begin

section \<open>Strings and JSON values\<close>

text \<open>
  A string of the program is a sequence of UTF-16 code units: \<open>length\<close>, \<open>slice\<close> and a
  regular expression without the \<open>u\<close> flag all count code units. A literal of the source is
  written \<open>js ''...''\<close>.
\<close>

type_synonym js_string = "16 word list"

definition js :: "string \<Rightarrow> js_string" where
  "js s = map of_char s"

text \<open>Truthiness of a value of type \<open>string | undefined | null\<close>: absent and empty are falsy.\<close>

definition truthy :: "js_string option \<Rightarrow> bool" where
  "truthy v = (case v of None \<Rightarrow> False | Some s \<Rightarrow> s \<noteq> [])"

text \<open>A template literal \<open>`${v}`\<close> of an optional string prints an absent one as \<open>undefined\<close>.\<close>

definition template :: "js_string option \<Rightarrow> js_string" where
  "template v = (case v of None \<Rightarrow> js ''undefined'' | Some s \<Rightarrow> s)"

text \<open>
  Values the program types as \<open>unknown\<close> (a response's \<open>result\<close>, a tool's raw input and
  content) are JSON values. Numbers are the integers: the only numbers the program inspects are
  request ids.
\<close>

datatype json =
    JNull
  | JBool bool
  | JNum int
  | JStr js_string
  | JArr "json list"
  | JObj "(js_string \<times> json) list"

section \<open>The name sanitizer of \<open>createWorkstream\<close>\<close>

text \<open>
  \<open>name.toLowerCase().replace(/[^a-z0-9-]/g, '-').slice(0, 50)\<close>.
  \<open>String.prototype.toLowerCase\<close> is a built-in of the platform that follows the Unicode case
  tables; the sanitizer takes it as the parameter \<open>lower\<close>. On ASCII strings it is
  \<open>toLowerCase_ascii\<close>.
\<close>

definition name_char :: "16 word \<Rightarrow> bool" where
  "name_char c \<longleftrightarrow>
     (of_char CHR ''a'' \<le> c \<and> c \<le> of_char CHR ''z'')
   \<or> (of_char CHR ''0'' \<le> c \<and> c \<le> of_char CHR ''9'')
   \<or> c = of_char CHR ''-''"

definition replace_other :: "js_string \<Rightarrow> js_string" where
  "replace_other s = map (\<lambda>c. if name_char c then c else of_char CHR ''-'') s"

definition slice0 :: "nat \<Rightarrow> js_string \<Rightarrow> js_string" where
  "slice0 n s = take n s"

definition sanitizeName :: "(js_string \<Rightarrow> js_string) \<Rightarrow> js_string \<Rightarrow> js_string" where
  "sanitizeName lower name = slice0 50 (replace_other (lower name))"

definition toLowerCase_ascii :: "js_string \<Rightarrow> js_string" where
  "toLowerCase_ascii s =
     map (\<lambda>c. if of_char CHR ''A'' \<le> c \<and> c \<le> of_char CHR ''Z'' then c + 32 else c) s"

section \<open>Envelopes\<close>

text \<open>
  \<open>AcpMessage\<close>: every field but \<open>jsonrpc\<close> is optional. An inbound envelope's \<open>params\<close> is
  read through the interfaces \<open>SessionNotificationParams\<close> and \<open>PermissionRequestParams\<close>;
  the record \<open>Params\<close> has the fields of both. A field is optional where the interface says so
  or where the code guards its absence with \<open>?.\<close>; \<open>None\<close> is an absent field. The fields
  of an inbound \<open>error\<close> are optional too: the envelope comes from \<open>JSON.parse\<close> unchecked,
  and \<open>handleMessage\<close> reads \<open>error.message\<close> whatever the object holds. An outbound
  envelope carries JSON values.
\<close>

datatype msg_id = IdNum int | IdStr js_string

record RpcError =
  err_code :: "int option"
  err_message :: "js_string option"
  err_data :: "json option"

record Content =
  c_type :: "js_string option"
  c_text :: "js_string option"

record Fields =
  f_status :: "js_string option"
  f_content :: "json list option"
  f_title :: "js_string option"
  f_rawInput :: "json option"

record Update =
  sessionUpdate :: "js_string option"
  u_content :: "Content option"
  u_id :: "js_string option"
  u_title :: "js_string option"
  u_status :: "js_string option"
  u_fields :: "Fields option"

record ToolCallUpdate =
  tcu_id :: "js_string option"
  tcu_fields :: "Fields option"

record PermissionOption =
  o_id :: js_string
  o_label :: js_string
  o_kind :: js_string

record Params =
  p_sessionId :: "js_string option"
  p_update :: "Update option"
  p_toolCallUpdate :: "ToolCallUpdate option"
  p_options :: "PermissionOption list option"

record 'p AcpMessage =
  jsonrpc :: js_string
  m_id :: "msg_id option"
  m_method :: "js_string option"
  m_params :: "'p option"
  m_result :: "json option"
  m_error :: "RpcError option"

text \<open>What a function throws: a \<open>TypeError\<close> of the runtime, or \<open>new Error(message)\<close>.\<close>

datatype error = TypeError | Error js_string

section \<open>The protocol parser (\<open>parseSessionUpdate\<close>, client.ts)\<close>

datatype tag = Text | Thought | Tool_call | Tool_update | Permission_request | Unknown

datatype payload =
    Chunk js_string
  | ToolCallData "js_string option" "js_string option" "js_string option"
  | ToolUpdateData "js_string option" "js_string option" "json list option"
  | PermissionData Params

record Parsed =
  p_type :: tag
  sessionId :: "js_string option"
  data :: "payload option"

text \<open>\<open>content?.text || ''\<close>\<close>

definition chunk_text :: "Content option \<Rightarrow> js_string" where
  "chunk_text c =
     (let text = (case c of None \<Rightarrow> None | Some c' \<Rightarrow> c_text c')
      in if truthy text then the text else [])"

text \<open>
  Reading a property of an absent \<open>params\<close> throws a \<open>TypeError\<close>; \<open>params.update?.\<close>
  guards an absent \<open>update\<close> only. A \<open>switch\<close> that matches no case falls through to the
  second \<open>if\<close>.
\<close>

definition parseSessionUpdate :: "Params AcpMessage \<Rightarrow> error + Parsed" where
  "parseSessionUpdate message =
     (let rest =
        (if m_method message = Some (js ''request_permission'') then
           (case m_params message of
              None \<Rightarrow> Inl TypeError
            | Some params \<Rightarrow>
                Inr \<lparr>p_type = Permission_request, sessionId = p_sessionId params,
                     data = Some (PermissionData params)\<rparr>)
         else Inr \<lparr>p_type = Unknown, sessionId = None, data = None\<rparr>)
      in
      if m_method message = Some (js ''session/update'') then
        (case m_params message of
           None \<Rightarrow> Inl TypeError
         | Some params \<Rightarrow>
             (case p_update params of
                None \<Rightarrow> rest
              | Some update \<Rightarrow>
                  if sessionUpdate update = Some (js ''agent_message_chunk'') then
                    Inr \<lparr>p_type = Text, sessionId = p_sessionId params,
                         data = Some (Chunk (chunk_text (u_content update)))\<rparr>
                  else if sessionUpdate update = Some (js ''agent_thought_chunk'') then
                    Inr \<lparr>p_type = Thought, sessionId = p_sessionId params,
                         data = Some (Chunk (chunk_text (u_content update)))\<rparr>
                  else if sessionUpdate update = Some (js ''tool_call'') then
                    Inr \<lparr>p_type = Tool_call, sessionId = p_sessionId params,
                         data = Some (ToolCallData (u_id update) (u_title update) (u_status update))\<rparr>
                  else if sessionUpdate update = Some (js ''tool_call_update'') then
                    Inr \<lparr>p_type = Tool_update, sessionId = p_sessionId params,
                         data = Some (ToolUpdateData (u_id update)
                           (case u_fields update of None \<Rightarrow> None | Some f \<Rightarrow> f_status f)
                           (case u_fields update of None \<Rightarrow> None | Some f \<Rightarrow> f_content f))\<rparr>
                  else rest))
      else rest)"

section \<open>The transport client (\<open>AcpClient\<close>, client.ts)\<close>

text \<open>
  Callbacks registered by the owner are handles. The promises that \<open>sendRequest\<close> creates
  are numbered 1, 2, ... in the order of their creation (\<open>promises\<close> counts them);
  \<open>pendingRequests\<close> maps an id to the promise its \<open>resolve\<close>/\<open>reject\<close> pair settles.
  What the client does to the outside is recorded in order: \<open>settled\<close> (the id of a
  response, the promise it settled and how), \<open>posted\<close> (an envelope sent by HTTP POST,
  with its URL), \<open>notified\<close> (a message handler called) and \<open>invoked\<close> (a request
  handler called).
\<close>

datatype outcome = Resolved "json option" | Rejected js_string

record AcpClient =
  baseUrl :: js_string
  c_sessionId :: "js_string option"
  eventSource :: "js_string option"
  messageHandlers :: "nat list"
  errorHandlers :: "nat list"
  requestHandlers :: "js_string \<rightharpoonup> nat"
  requestId :: int
  promises :: nat
  pendingRequests :: "msg_id \<rightharpoonup> nat"
  settled :: "(msg_id \<times> nat \<times> outcome) list"
  posted :: "(js_string \<times> json AcpMessage) list"
  notified :: "(nat \<times> Params AcpMessage) list"
  invoked :: "(nat \<times> Params AcpMessage) list"

text \<open>The outcome of a \<open>fetch\<close>: it rejects, or answers with a status and a body.\<close>

datatype fetch_result =
    FetchRejected error
  | Response bool js_string "error + js_string option"

text \<open>\<open>baseUrl.replace(/\/$/, '')\<close>\<close>

definition strip_slash :: "js_string \<Rightarrow> js_string" where
  "strip_slash s = (if s \<noteq> [] \<and> last s = of_char CHR ''/'' then butlast s else s)"

definition new_AcpClient :: "js_string \<Rightarrow> AcpClient" where
  "new_AcpClient url =
     \<lparr>baseUrl = strip_slash url, c_sessionId = None, eventSource = None,
      messageHandlers = [], errorHandlers = [], requestHandlers = Map.empty,
      requestId = 0, promises = 0, pendingRequests = Map.empty,
      settled = [], posted = [], notified = [], invoked = []\<rparr>"

text \<open>
  \<open>connect\<close>: the third field of the response is what \<open>response.json()\<close> gives: it throws, or
  it is the body's \<open>session_id\<close>.
\<close>

definition connect :: "fetch_result \<Rightarrow> AcpClient \<Rightarrow> (error + js_string option) \<times> AcpClient" where
  "connect r c =
     (case r of
        FetchRejected e \<Rightarrow> (Inl e, c)
      | Response ok statusText body \<Rightarrow>
          if \<not> ok then (Inl (Error (js ''Failed to create session: '' @ statusText)), c)
          else (case body of
                  Inl e \<Rightarrow> (Inl e, c)
                | Inr sid \<Rightarrow>
                    (Inr sid,
                     c\<lparr>c_sessionId := sid,
                       eventSource := Some (baseUrl c @ js ''/acp/session/'' @ template sid
                                            @ js ''/stream'')\<rparr>)))"

definition send :: "json AcpMessage \<Rightarrow> fetch_result \<Rightarrow> AcpClient \<Rightarrow> (error + unit) \<times> AcpClient" where
  "send message r c =
     (let url = baseUrl c @ js ''/acp/session/''
                @ (case c_sessionId c of None \<Rightarrow> js ''null'' | Some sid \<Rightarrow> sid)
                @ js ''/message'';
          c' = c\<lparr>posted := posted c @ [(url, message)]\<rparr>
      in case r of
           FetchRejected e \<Rightarrow> (Inl e, c')
         | Response ok statusText body \<Rightarrow>
             if \<not> ok then (Inl (Error (js ''Failed to send message: '' @ statusText)), c')
             else (Inr (), c'))"

text \<open>
  \<open>++this.requestId\<close>: the counter is a double. Up to \<open>2 ^ 53\<close> adding 1 is exact; at
  \<open>2 ^ 53\<close> the sum rounds back to \<open>2 ^ 53\<close>, and the counter stays there.
\<close>

definition id_limit :: int where
  "id_limit = 2 ^ 53"

definition increment :: "int \<Rightarrow> int" where
  "increment n = (if n < id_limit then n + 1 else n)"

text \<open>
  \<open>sendRequest\<close> returns the promise it created; the entry of an id that is pending
  already is overwritten.
\<close>

definition sendRequest ::
  "js_string \<Rightarrow> json option \<Rightarrow> fetch_result \<Rightarrow> AcpClient \<Rightarrow> (error + nat) \<times> AcpClient" where
  "sendRequest method params r c =
     (if \<not> truthy (c_sessionId c) then (Inl (Error (js ''Not connected'')), c)
      else
        let id = increment (requestId c);
            promise = promises c + 1;
            c1 = c\<lparr>requestId := id, promises := promise,
                   pendingRequests := (pendingRequests c)(IdNum id \<mapsto> promise)\<rparr>
        in case send \<lparr>jsonrpc = js ''2.0'', m_id = Some (IdNum id), m_method = Some method,
                       m_params = params, m_result = None, m_error = None\<rparr> r c1 of
             (Inl e, c2) \<Rightarrow> (Inl e, c2)
           | (Inr u, c2) \<Rightarrow> (Inr promise, c2))"

definition sendNotification ::
  "js_string \<Rightarrow> json option \<Rightarrow> fetch_result \<Rightarrow> AcpClient \<Rightarrow> (error + unit) \<times> AcpClient" where
  "sendNotification method params r c =
     (if \<not> truthy (c_sessionId c) then (Inl (Error (js ''Not connected'')), c)
      else send \<lparr>jsonrpc = js ''2.0'', m_id = None, m_method = Some method,
                 m_params = params, m_result = None, m_error = None\<rparr> r c)"

definition sendResponse ::
  "msg_id \<Rightarrow> json option \<Rightarrow> fetch_result \<Rightarrow> AcpClient \<Rightarrow> (error + unit) \<times> AcpClient" where
  "sendResponse rid result r c =
     send \<lparr>jsonrpc = js ''2.0'', m_id = Some rid, m_method = None,
           m_params = None, m_result = result, m_error = None\<rparr> r c"

definition sendErrorResponse ::
  "msg_id \<Rightarrow> js_string \<Rightarrow> fetch_result \<Rightarrow> AcpClient \<Rightarrow> (error + unit) \<times> AcpClient" where
  "sendErrorResponse rid msg r c =
     send \<lparr>jsonrpc = js ''2.0'', m_id = Some rid, m_method = None, m_params = None,
           m_result = None,
           m_error = Some \<lparr>err_code = Some (- 32000), err_message = Some msg,
                            err_data = None\<rparr>\<rparr> r c"

text \<open>
  \<open>handleMessage\<close>, up to its first \<open>await\<close>: a response settles the pending call and
  removes its entry; a request of the peer calls the registered handler (whose result is sent
  later by \<open>sendResponse\<close> or \<open>sendErrorResponse\<close>) or, with no handler, goes to the message
  handlers; anything else goes to the message handlers. The test is \<open>if (message.error)\<close>:
  an error object rejects the call also when it has no message, and the message of
  \<open>new Error(undefined)\<close> is the empty string.
\<close>

definition error_text :: "RpcError \<Rightarrow> js_string" where
  "error_text e = (case err_message e of None \<Rightarrow> [] | Some m \<Rightarrow> m)"

definition forward :: "Params AcpMessage \<Rightarrow> AcpClient \<Rightarrow> AcpClient" where
  "forward message c = c\<lparr>notified := notified c @ map (\<lambda>h. (h, message)) (messageHandlers c)\<rparr>"

definition is_pending :: "AcpClient \<Rightarrow> msg_id option \<Rightarrow> bool" where
  "is_pending c i = (case i of None \<Rightarrow> False | Some k \<Rightarrow> pendingRequests c k \<noteq> None)"

definition handleMessage :: "Params AcpMessage \<Rightarrow> AcpClient \<Rightarrow> AcpClient" where
  "handleMessage message c =
     (if is_pending c (m_id message) then
        let k = the (m_id message);
            pending = the (pendingRequests c k);
            c1 = c\<lparr>pendingRequests := (pendingRequests c)(k := None)\<rparr>
        in (case m_error message of
              Some e \<Rightarrow> c1\<lparr>settled := settled c1 @ [(k, pending, Rejected (error_text e))]\<rparr>
            | None \<Rightarrow>
                c1\<lparr>settled := settled c1 @ [(k, pending, Resolved (m_result message))]\<rparr>)
      else if truthy (m_method message) \<and> m_id message \<noteq> None then
        (case requestHandlers c (the (m_method message)) of
           Some handler \<Rightarrow> c\<lparr>invoked := invoked c @ [(handler, message)]\<rparr>
         | None \<Rightarrow> forward message c)
      else forward message c)"

definition disconnect :: "AcpClient \<Rightarrow> AcpClient" where
  "disconnect c =
     c\<lparr>eventSource := None, c_sessionId := None,
       pendingRequests := Map.empty, requestHandlers := Map.empty\<rparr>"

section \<open>The working-copy provider (\<open>GitWorktreeManager\<close>, worktree.ts)\<close>

text \<open>
  Git and the file system are outside the program. Each call of \<open>execSync\<close> (a command and
  its working directory) and of an \<open>fs\<close> function takes its outcome from an environment:
  \<open>Inl\<close> is the exception it throws, \<open>Inr\<close> its value. \<open>path.join\<close> is the platform's.
  An operation gives each command at most once, so the environment answers by command.
\<close>

record env =
  execSync :: "js_string \<Rightarrow> js_string \<Rightarrow> error + js_string"
  existsSync :: "js_string \<Rightarrow> bool"
  mkdirSync :: "js_string \<Rightarrow> error + unit"
  readFileSync :: "js_string \<Rightarrow> error + js_string"
  appendFileSync :: "js_string \<Rightarrow> js_string \<Rightarrow> error + unit"
  path_join :: "js_string \<Rightarrow> js_string \<Rightarrow> js_string"

record WorktreeInfo =
  wt_path :: js_string
  wt_branch :: js_string
  wt_commit :: js_string

record GitWorktreeManager =
  wm_repoPath :: js_string
  worktreesDir :: js_string

definition new_GitWorktreeManager :: "env \<Rightarrow> js_string \<Rightarrow> GitWorktreeManager" where
  "new_GitWorktreeManager E repoPath =
     \<lparr>wm_repoPath = repoPath, worktreesDir = path_join E repoPath (js ''.goose-worktrees'')\<rparr>"

subsection \<open>String functions of the platform\<close>

definition startsWith :: "js_string \<Rightarrow> js_string \<Rightarrow> bool" where
  "startsWith s p \<longleftrightarrow> take (length p) s = p"

fun includes_str :: "js_string \<Rightarrow> js_string \<Rightarrow> bool" where
  "includes_str [] p = (p = [])"
| "includes_str (c # cs) p = (startsWith (c # cs) p \<or> includes_str cs p)"

text \<open>\<open>s.replace(p, r)\<close> with a string pattern replaces the first occurrence.\<close>

fun replace_first :: "js_string \<Rightarrow> js_string \<Rightarrow> js_string \<Rightarrow> js_string" where
  "replace_first p r [] = (if p = [] then r else [])"
| "replace_first p r (c # cs) =
     (if startsWith (c # cs) p then r @ drop (length p) (c # cs)
      else c # replace_first p r cs)"

text \<open>\<open>s.split('\n')\<close> and \<open>s.split('\n\n')\<close>; the first argument collects the current piece.\<close>

fun split_nl :: "js_string \<Rightarrow> js_string \<Rightarrow> js_string list" where
  "split_nl acc [] = [rev acc]"
| "split_nl acc (c # cs) = (if c = 10 then rev acc # split_nl [] cs else split_nl (c # acc) cs)"

fun split_nlnl :: "js_string \<Rightarrow> js_string \<Rightarrow> js_string list" where
  "split_nlnl acc [] = [rev acc]"
| "split_nlnl acc [c] = [rev (c # acc)]"
| "split_nlnl acc (c # d # cs) =
     (if c = 10 \<and> d = 10 then rev acc # split_nlnl [] cs else split_nlnl (c # acc) (d # cs))"

text \<open>\<open>s.trim()\<close> removes white space and line terminators at both ends.\<close>

definition white_space :: "16 word \<Rightarrow> bool" where
  "white_space c \<longleftrightarrow>
     c \<in> {0x9, 0xA, 0xB, 0xC, 0xD, 0x20, 0xA0, 0x1680, 0x2028, 0x2029, 0x202F, 0x205F,
          0x3000, 0xFEFF} \<or> (0x2000 \<le> c \<and> c \<le> 0x200A)"

definition trim :: "js_string \<Rightarrow> js_string" where
  "trim s = rev (dropWhile white_space (rev (dropWhile white_space s)))"

subsection \<open>Operations\<close>

definition isGitRepo :: "env \<Rightarrow> GitWorktreeManager \<Rightarrow> bool" where
  "isGitRepo E wm =
     (case execSync E (js ''git rev-parse --git-dir'') (wm_repoPath wm) of
        Inl e \<Rightarrow> False | Inr out \<Rightarrow> True)"

definition ensureWorktreesDir :: "env \<Rightarrow> GitWorktreeManager \<Rightarrow> error + unit" where
  "ensureWorktreesDir E wm =
     (case (if \<not> existsSync E (worktreesDir wm) then mkdirSync E (worktreesDir wm) else Inr ()) of
        Inl e \<Rightarrow> Inl e
      | Inr u \<Rightarrow>
          let gitignorePath = path_join E (wm_repoPath wm) (js ''.gitignore'');
              ignoreEntry = js ''.goose-worktrees/''
          in if existsSync E gitignorePath then
               (case readFileSync E gitignorePath of
                  Inl e \<Rightarrow> Inl e
                | Inr content \<Rightarrow>
                    if \<not> includes_str content ignoreEntry
                    then appendFileSync E gitignorePath ([10] @ ignoreEntry @ [10])
                    else Inr ())
             else Inr ())"

definition getCurrentBranch :: "env \<Rightarrow> GitWorktreeManager \<Rightarrow> js_string" where
  "getCurrentBranch E wm =
     (case execSync E (js ''git rev-parse --abbrev-ref HEAD'') (wm_repoPath wm) of
        Inl e \<Rightarrow> js ''main'' | Inr out \<Rightarrow> trim out)"

definition getCommitHash :: "env \<Rightarrow> GitWorktreeManager \<Rightarrow> js_string option \<Rightarrow> js_string" where
  "getCommitHash E wm worktreePath =
     (case execSync E (js ''git rev-parse --short HEAD'')
             (if truthy worktreePath then the worktreePath else wm_repoPath wm) of
        Inl e \<Rightarrow> js ''unknown'' | Inr out \<Rightarrow> trim out)"

text \<open>
  \<open>removeWorktree\<close>: \<open>git worktree remove\<close> runs outside any \<open>try\<close>, so its failure is thrown;
  the failure of \<open>git branch -D\<close> is caught and ignored.
\<close>

definition removeWorktree :: "env \<Rightarrow> GitWorktreeManager \<Rightarrow> js_string \<Rightarrow> error + unit" where
  "removeWorktree E wm name =
     (let worktreePath = path_join E (worktreesDir wm) name;
          branchName = js ''goose/'' @ name;
          deleteBranch =
            (case execSync E (js ''git branch -D '' @ branchName) (wm_repoPath wm) of
               Inl e \<Rightarrow> Inr () | Inr out \<Rightarrow> Inr ())
      in if existsSync E worktreePath then
           (case execSync E (js ''git worktree remove \"'' @ worktreePath @ js ''\" --force'')
                   (wm_repoPath wm) of
              Inl e \<Rightarrow> Inl e
            | Inr out \<Rightarrow> deleteBranch)
         else deleteBranch)"

text \<open>
  \<open>createWorktree\<close>: the failure of \<open>git branch\<close> is caught and ignored;
  \<open>ensureWorktreesDir\<close>, \<open>removeWorktree\<close> and \<open>git worktree add\<close> run outside any \<open>try\<close>.
\<close>

definition createWorktree ::
  "env \<Rightarrow> GitWorktreeManager \<Rightarrow> js_string \<Rightarrow> js_string option \<Rightarrow> error + WorktreeInfo" where
  "createWorktree E wm name baseBranch =
     (case ensureWorktreesDir E wm of
        Inl e \<Rightarrow> Inl e
      | Inr u \<Rightarrow>
          (let branchName = js ''goose/'' @ name;
               worktreePath = path_join E (worktreesDir wm) name
           in (case (if existsSync E worktreePath then removeWorktree E wm name else Inr ()) of
                 Inl e \<Rightarrow> Inl e
               | Inr u' \<Rightarrow>
                   (let base = (if truthy baseBranch then the baseBranch
                                else getCurrentBranch E wm);
                        addWorktree =
                          (case execSync E (js ''git worktree add \"'' @ worktreePath
                                            @ js ''\" '' @ branchName) (wm_repoPath wm) of
                             Inl e \<Rightarrow> Inl e
                           | Inr out \<Rightarrow>
                               Inr \<lparr>wt_path = worktreePath, wt_branch = branchName,
                                    wt_commit = getCommitHash E wm (Some worktreePath)\<rparr>)
                    in (case execSync E (js ''git branch '' @ branchName @ js '' '' @ base)
                               (wm_repoPath wm) of
                          Inl e \<Rightarrow> addWorktree
                        | Inr out \<Rightarrow> addWorktree)))))"

text \<open>\<open>listWorktrees\<close>: the loop over the lines of one entry keeps the last value of each key.\<close>

fun entry_lines :: "js_string list \<Rightarrow> WorktreeInfo \<Rightarrow> WorktreeInfo" where
  "entry_lines [] w = w"
| "entry_lines (line # lines) w =
     entry_lines lines
       (if startsWith line (js ''worktree '') then w\<lparr>wt_path := drop 9 line\<rparr>
        else if startsWith line (js ''branch '')
          then w\<lparr>wt_branch := replace_first (js ''refs/heads/'') [] (drop 7 line)\<rparr>
        else if startsWith line (js ''HEAD '') then w\<lparr>wt_commit := drop 5 line\<rparr>
        else w)"

definition parse_entry :: "js_string \<Rightarrow> WorktreeInfo" where
  "parse_entry entry = entry_lines (split_nl [] entry) \<lparr>wt_path = [], wt_branch = [], wt_commit = []\<rparr>"

definition listWorktrees :: "env \<Rightarrow> GitWorktreeManager \<Rightarrow> WorktreeInfo list" where
  "listWorktrees E wm =
     (case execSync E (js ''git worktree list --porcelain'') (wm_repoPath wm) of
        Inl e \<Rightarrow> []
      | Inr output \<Rightarrow>
          filter (\<lambda>w. startsWith (wt_path w) (worktreesDir wm))
            (map parse_entry (filter (\<lambda>entry. entry \<noteq> []) (split_nlnl [] output))))"

definition getDiff :: "env \<Rightarrow> GitWorktreeManager \<Rightarrow> js_string \<Rightarrow> js_string" where
  "getDiff E wm worktreePath =
     (case execSync E (js ''git diff HEAD'') worktreePath of Inl e \<Rightarrow> [] | Inr out \<Rightarrow> out)"

definition getStatus :: "env \<Rightarrow> GitWorktreeManager \<Rightarrow> js_string \<Rightarrow> js_string" where
  "getStatus E wm worktreePath =
     (case execSync E (js ''git status --short'') worktreePath of Inl e \<Rightarrow> [] | Inr out \<Rightarrow> out)"

text \<open>\<open>message.replace(/"/g, '\\"')\<close> puts a backslash before every double quote.\<close>

definition escape_quotes :: "js_string \<Rightarrow> js_string" where
  "escape_quotes s = concat (map (\<lambda>c. if c = 0x22 then [0x5C, 0x22] else [c]) s)"

definition commitChanges :: "env \<Rightarrow> GitWorktreeManager \<Rightarrow> js_string \<Rightarrow> js_string \<Rightarrow> bool" where
  "commitChanges E wm worktreePath message =
     (case execSync E (js ''git add -A'') worktreePath of
        Inl e \<Rightarrow> False
      | Inr out \<Rightarrow>
          (case execSync E (js ''git commit -m \"'' @ escape_quotes message @ js ''\"'') worktreePath of
             Inl e \<Rightarrow> False
           | Inr out' \<Rightarrow> True))"

section \<open>The workstream coordinator (\<open>WorkstreamManager\<close>, workstream-manager.ts)\<close>

subsection \<open>Data (types.ts)\<close>

datatype WorkstreamStatus =
  Starting | Running | Waiting | Reviewing | Paused | Completed | ErrorStatus

datatype Role = User | Assistant | System

datatype NotificationType = Action_required | Review_ready | Error_type | Info

record Notification =
  n_id :: js_string
  n_type :: NotificationType
  n_title :: js_string
  n_message :: js_string
  n_timestamp :: nat
  n_read :: bool
  n_workstreamId :: js_string

record WorkstreamMessage =
  role :: Role
  content :: js_string
  timestamp :: nat

text \<open>
  A tool's fields are what \<open>parseSessionUpdate\<close> read from the envelope: each may be absent,
  and \<open>status\<close> is any string (the cast to \<open>'pending' | 'completed' | 'failed'\<close> checks
  nothing).
\<close>

record ToolCallInfo =
  tool_id :: "js_string option"
  tool_title :: "js_string option"
  tool_status :: "js_string option"

record Workstream =
  ws_id :: js_string
  ws_name :: js_string
  task :: js_string
  status :: WorkstreamStatus
  worktreePath :: "js_string option"
  branchName :: "js_string option"
  acpSessionId :: "js_string option"
  createdAt :: nat
  lastActivity :: nat
  currentActivity :: js_string
  notifications :: "Notification list"
  messageHistory :: "WorkstreamMessage list"

datatype WorkstreamEvent =
    Status_change WorkstreamStatus "js_string option"
  | Message_event WorkstreamMessage
  | Tool_call_event ToolCallInfo
  | Tool_update_event "js_string option" "js_string option"
  | Notification_event Notification
  | Permission_request_event "msg_id option" "payload option"
  | Error_event js_string

record PendingPermissionRequest =
  pp_requestId :: "msg_id option"
  pp_params :: Params
  pp_workstreamId :: js_string

subsection \<open>State\<close>

text \<open>
  The fields of the class, then what the coordinator does to the outside, in order:
  \<open>delivered\<close> (an observer called with a workstream id and an event; an observer is a
  handle, and its own code is taken to return), \<open>resolved\<close> (a permission resolver called with a value; a resolver is the handle of
  its promise), \<open>disconnected\<close> (a client after \<open>disconnect\<close> was called on it) and
  \<open>removals\<close> (the provider's \<open>removeWorktree\<close> called with a name).
  A time is a reading of the clock; an operation takes the readings of its \<open>new Date()\<close>
  calls as the function \<open>now\<close> of their order (0 for the first), and \<open>uuid\<close> is what
  \<open>uuidv4()\<close> returns.
\<close>

record WorkstreamManager =
  serverUrl :: js_string
  cfg_repoPath :: js_string
  useWorktrees :: bool
  workstreams :: "js_string \<rightharpoonup> Workstream"
  clients :: "js_string \<rightharpoonup> AcpClient"
  acpSessionIds :: "js_string \<rightharpoonup> js_string"
  eventHandlers :: "nat list"
  worktreeManager :: "GitWorktreeManager option"
  activeTools :: "js_string \<rightharpoonup> (js_string option \<rightharpoonup> ToolCallInfo)"
  pendingPermissions :: "js_string \<rightharpoonup> PendingPermissionRequest"
  permissionResolvers :: "js_string \<rightharpoonup> nat"
  delivered :: "(nat \<times> js_string \<times> WorkstreamEvent) list"
  resolved :: "(nat \<times> json) list"
  disconnected :: "AcpClient list"
  removals :: "js_string list"

definition new_WorkstreamManager :: "env \<Rightarrow> js_string \<Rightarrow> js_string \<Rightarrow> bool \<Rightarrow> WorkstreamManager" where
  "new_WorkstreamManager E url repo useWt =
     \<lparr>serverUrl = url, cfg_repoPath = repo, useWorktrees = useWt,
      workstreams = Map.empty, clients = Map.empty, acpSessionIds = Map.empty,
      eventHandlers = [],
      worktreeManager = (if useWt then Some (new_GitWorktreeManager E repo) else None),
      activeTools = Map.empty, pendingPermissions = Map.empty,
      permissionResolvers = Map.empty,
      delivered = [], resolved = [], disconnected = [], removals = []\<rparr>"

subsection \<open>Private helpers\<close>

definition onEvent :: "nat \<Rightarrow> WorkstreamManager \<Rightarrow> WorkstreamManager" where
  "onEvent handler s = s\<lparr>eventHandlers := eventHandlers s @ [handler]\<rparr>"

definition emit :: "js_string \<Rightarrow> WorkstreamEvent \<Rightarrow> WorkstreamManager \<Rightarrow> WorkstreamManager" where
  "emit workstreamId event s =
     s\<lparr>delivered := delivered s @ map (\<lambda>handler. (handler, workstreamId, event)) (eventHandlers s)\<rparr>"

text \<open>
  \<open>updateWorkstream(id, updates)\<close>: \<open>updates\<close> is the function that assigns the given
  fields; an absent workstream is left alone.
\<close>

definition updateWorkstream ::
  "js_string \<Rightarrow> (Workstream \<Rightarrow> Workstream) \<Rightarrow> nat \<Rightarrow> WorkstreamManager \<Rightarrow> WorkstreamManager" where
  "updateWorkstream wid updates t s =
     (case workstreams s wid of
        None \<Rightarrow> s
      | Some ws \<Rightarrow> s\<lparr>workstreams := (workstreams s)(wid \<mapsto> (updates ws)\<lparr>lastActivity := t\<rparr>)\<rparr>)"

definition addNotification ::
  "js_string \<Rightarrow> NotificationType \<Rightarrow> js_string \<Rightarrow> js_string \<Rightarrow> js_string \<Rightarrow> nat
   \<Rightarrow> WorkstreamManager \<Rightarrow> WorkstreamManager" where
  "addNotification workstreamId ty title message uuid t s =
     (let notification =
            \<lparr>n_id = uuid, n_type = ty, n_title = title, n_message = message,
             n_timestamp = t, n_read = False, n_workstreamId = workstreamId\<rparr>;
          s1 = (case workstreams s workstreamId of
                  None \<Rightarrow> s
                | Some ws \<Rightarrow>
                    s\<lparr>workstreams := (workstreams s)
                         (workstreamId \<mapsto> ws\<lparr>notifications := notifications ws @ [notification]\<rparr>)\<rparr>)
      in emit workstreamId (Notification_event notification) s1)"

subsection \<open>\<open>createWorkstream\<close>, up to its first \<open>await\<close>\<close>

definition createWorkstream_begin ::
  "(js_string \<Rightarrow> js_string) \<Rightarrow> js_string \<Rightarrow> (nat \<Rightarrow> nat) \<Rightarrow> js_string \<Rightarrow> js_string
   \<Rightarrow> WorkstreamManager \<Rightarrow> WorkstreamManager" where
  "createWorkstream_begin lower uuid now name tsk s =
     (let sanitizedName = sanitizeName lower name;
          workstream =
            \<lparr>ws_id = uuid, ws_name = sanitizedName, task = tsk, status = Starting,
             worktreePath = None, branchName = None, acpSessionId = None,
             createdAt = now 0, lastActivity = now 1,
             currentActivity = js ''Initializing...'',
             notifications = [], messageHistory = []\<rparr>
      in s\<lparr>workstreams := (workstreams s)(uuid \<mapsto> workstream),
           activeTools := (activeTools s)(uuid \<mapsto> Map.empty)\<rparr>)"

subsection \<open>\<open>handleAcpMessage\<close>\<close>

text \<open>The two emoji of the activity strings, in UTF-16, each followed by a space.\<close>

definition thought_prefix :: js_string where
  "thought_prefix = [0xD83D, 0xDCAD, 0x20]"

definition tool_prefix :: js_string where
  "tool_prefix = [0xD83D, 0xDD27, 0x20]"

text \<open>
  The \<open>text\<close> case. The last message is changed in place when it is the agent's; otherwise
  a new message is pushed and one \<open>message\<close> event emitted (it carries the message as it is
  then).
\<close>

definition handle_text ::
  "(nat \<Rightarrow> nat) \<Rightarrow> js_string \<Rightarrow> Workstream \<Rightarrow> js_string \<Rightarrow> WorkstreamManager \<Rightarrow> WorkstreamManager" where
  "handle_text now workstreamId workstream text s =
     (if text \<noteq> [] then
        (let history = messageHistory workstream
         in if history \<noteq> [] \<and> role (last history) = Assistant then
              updateWorkstream workstreamId (\<lambda>ws. ws\<lparr>currentActivity := slice0 100 text\<rparr>) (now 0)
                (s\<lparr>workstreams := (workstreams s)(workstreamId \<mapsto>
                     workstream\<lparr>messageHistory :=
                       butlast history @ [(last history)\<lparr>content := content (last history) @ text\<rparr>]\<rparr>)\<rparr>)
            else
              (let newMsg = \<lparr>role = Assistant, content = text, timestamp = now 0\<rparr>
               in updateWorkstream workstreamId (\<lambda>ws. ws\<lparr>currentActivity := slice0 100 text\<rparr>) (now 1)
                    (emit workstreamId (Message_event newMsg)
                      (s\<lparr>workstreams := (workstreams s)(workstreamId \<mapsto>
                           workstream\<lparr>messageHistory := history @ [newMsg]\<rparr>)\<rparr>))))
      else s)"

definition handle_thought ::
  "(nat \<Rightarrow> nat) \<Rightarrow> js_string \<Rightarrow> js_string \<Rightarrow> WorkstreamManager \<Rightarrow> WorkstreamManager" where
  "handle_thought now workstreamId thought s =
     (if thought \<noteq> [] then
        updateWorkstream workstreamId
          (\<lambda>ws. ws\<lparr>currentActivity := thought_prefix @ slice0 100 thought\<rparr>) (now 0) s
      else s)"

definition handle_tool_call ::
  "(nat \<Rightarrow> nat) \<Rightarrow> js_string \<Rightarrow> js_string option \<Rightarrow> js_string option \<Rightarrow> js_string option
   \<Rightarrow> WorkstreamManager \<Rightarrow> WorkstreamManager" where
  "handle_tool_call now workstreamId tid title st s =
     (let toolInfo = \<lparr>tool_id = tid, tool_title = title, tool_status = st\<rparr>;
          s1 = (case activeTools s workstreamId of
                  None \<Rightarrow> s
                | Some tools \<Rightarrow>
                    s\<lparr>activeTools := (activeTools s)(workstreamId \<mapsto> tools(tid \<mapsto> toolInfo))\<rparr>);
          s2 = updateWorkstream workstreamId
                 (\<lambda>ws. ws\<lparr>currentActivity := tool_prefix @ template title\<rparr>) (now 0) s1
      in emit workstreamId (Tool_call_event toolInfo) s2)"

definition handle_tool_update ::
  "js_string \<Rightarrow> js_string option \<Rightarrow> js_string option \<Rightarrow> WorkstreamManager \<Rightarrow> WorkstreamManager" where
  "handle_tool_update workstreamId tid st s =
     (let s1 =
        (case activeTools s workstreamId of
           None \<Rightarrow> s
         | Some tools \<Rightarrow>
             if truthy tid then
               (case tools tid of
                  None \<Rightarrow> s
                | Some tool \<Rightarrow>
                    if st = Some (js ''completed'') \<or> st = Some (js ''failed'') then
                      s\<lparr>activeTools := (activeTools s)(workstreamId \<mapsto> tools(tid := None))\<rparr>
                    else
                      s\<lparr>activeTools := (activeTools s)
                           (workstreamId \<mapsto> tools(tid \<mapsto> tool\<lparr>tool_status := st\<rparr>))\<rparr>)
             else s)
      in emit workstreamId (Tool_update_event tid st) s1)"

definition handle_permission_request ::
  "(nat \<Rightarrow> nat) \<Rightarrow> js_string \<Rightarrow> js_string \<Rightarrow> msg_id option \<Rightarrow> payload option
   \<Rightarrow> WorkstreamManager \<Rightarrow> WorkstreamManager" where
  "handle_permission_request now uuid workstreamId rid d s =
     emit workstreamId (Permission_request_event rid d)
       (addNotification workstreamId Action_required (js ''Permission Required'')
          (js ''The agent needs your approval to continue'') uuid (now 1)
          (updateWorkstream workstreamId
             (\<lambda>ws. ws\<lparr>status := Waiting, currentActivity := js ''Waiting for permission...''\<rparr>)
             (now 0) s))"

text \<open>
  \<open>handleAcpMessage\<close>: the parser runs first, so what it throws leaves the coordinator as it
  was; a message for a workstream that is not in the table is dropped. The payload of each
  tag is the one \<open>parseSessionUpdate\<close> builds for it.
\<close>

definition handleAcpMessage ::
  "(nat \<Rightarrow> nat) \<Rightarrow> js_string \<Rightarrow> js_string \<Rightarrow> Params AcpMessage \<Rightarrow> WorkstreamManager
   \<Rightarrow> error + WorkstreamManager" where
  "handleAcpMessage now uuid workstreamId message s =
     (case parseSessionUpdate message of
        Inl e \<Rightarrow> Inl e
      | Inr parsed \<Rightarrow>
          (case workstreams s workstreamId of
             None \<Rightarrow> Inr s
           | Some workstream \<Rightarrow>
               (case (p_type parsed, data parsed) of
                  (Text, Some (Chunk text)) \<Rightarrow>
                    Inr (handle_text now workstreamId workstream text s)
                | (Thought, Some (Chunk thought)) \<Rightarrow>
                    Inr (handle_thought now workstreamId thought s)
                | (Tool_call, Some (ToolCallData tid title st)) \<Rightarrow>
                    Inr (handle_tool_call now workstreamId tid title st s)
                | (Tool_update, Some (ToolUpdateData tid st c)) \<Rightarrow>
                    Inr (handle_tool_update workstreamId tid st s)
                | (Permission_request, d) \<Rightarrow>
                    Inr (handle_permission_request now uuid workstreamId (m_id message) d s)
                | _ \<Rightarrow> Inr s)))"

text \<open>
  An inbound event is the clock, the fresh identifier, the workstream and the envelope.
  What \<open>handleAcpMessage\<close> throws it throws before any change, so the coordinator after an
  event is the one before it when the handler threw, and the handler's result otherwise.
\<close>

type_synonym inbound = "(nat \<Rightarrow> nat) \<times> js_string \<times> js_string \<times> Params AcpMessage"

definition deliver :: "inbound \<Rightarrow> WorkstreamManager \<Rightarrow> WorkstreamManager" where
  "deliver ev s =
     (case ev of (now, uuid, workstreamId, message) \<Rightarrow>
        (case handleAcpMessage now uuid workstreamId message s of
           Inl e \<Rightarrow> s
         | Inr s' \<Rightarrow> s'))"

fun deliver_all :: "inbound list \<Rightarrow> WorkstreamManager \<Rightarrow> WorkstreamManager" where
  "deliver_all [] s = s"
| "deliver_all (ev # evs) s = deliver_all evs (deliver ev s)"

subsection \<open>The \<open>request_permission\<close> handler registered by \<open>connectWorkstream\<close>\<close>

text \<open>
  The handler reads \<open>params.toolCallUpdate?.fields?.title\<close> (of an absent \<open>params\<close>: a
  \<open>TypeError\<close>), sets the workstream waiting, adds a notification, stores the pending
  request, emits the event and returns a new promise, whose resolver it stores; \<open>resolver\<close>
  is the handle of that promise.
\<close>

definition permission_title :: "Params \<Rightarrow> js_string option" where
  "permission_title params =
     (case p_toolCallUpdate params of
        None \<Rightarrow> None
      | Some tcu \<Rightarrow> (case tcu_fields tcu of None \<Rightarrow> None | Some f \<Rightarrow> f_title f))"

definition request_permission_handler ::
  "(nat \<Rightarrow> nat) \<Rightarrow> js_string \<Rightarrow> nat \<Rightarrow> js_string \<Rightarrow> Params AcpMessage \<Rightarrow> WorkstreamManager
   \<Rightarrow> error + WorkstreamManager" where
  "request_permission_handler now uuid resolver workstreamId message s =
     (case m_params message of
        None \<Rightarrow> Inl TypeError
      | Some params \<Rightarrow>
          (let title = permission_title params;
               s1 = updateWorkstream workstreamId
                      (\<lambda>ws. ws\<lparr>status := Waiting,
                              currentActivity := js ''Permission needed: ''
                                @ (if truthy title then the title else js ''Tool execution'')\<rparr>)
                      (now 0) s;
               s2 = addNotification workstreamId Action_required (js ''Permission Required'')
                      (js ''Tool: '' @ (if truthy title then the title else js ''Unknown''))
                      uuid (now 1) s1;
               s3 = s2\<lparr>pendingPermissions := (pendingPermissions s2)(workstreamId \<mapsto>
                         \<lparr>pp_requestId = m_id message, pp_params = params,
                          pp_workstreamId = workstreamId\<rparr>)\<rparr>;
               s4 = emit workstreamId
                      (Permission_request_event (m_id message) (Some (PermissionData params))) s3
           in Inr (s4\<lparr>permissionResolvers := (permissionResolvers s4)(workstreamId \<mapsto> resolver)\<rparr>)))"

subsection \<open>Operator commands\<close>

text \<open>\<open>sendPrompt\<close>, up to its \<open>await\<close>: the prompt is pushed on the history.\<close>

definition sendPrompt_begin ::
  "(nat \<Rightarrow> nat) \<Rightarrow> js_string \<Rightarrow> js_string \<Rightarrow> WorkstreamManager \<Rightarrow> error + WorkstreamManager" where
  "sendPrompt_begin now workstreamId prompt s =
     (if clients s workstreamId = None \<or> \<not> truthy (acpSessionIds s workstreamId) then
        Inl (Error (js ''Workstream not connected''))
      else
        (let s1 = (case workstreams s workstreamId of
                     None \<Rightarrow> s
                   | Some ws \<Rightarrow>
                       s\<lparr>workstreams := (workstreams s)(workstreamId \<mapsto>
                            ws\<lparr>messageHistory := messageHistory ws
                                 @ [\<lparr>role = User, content = prompt, timestamp = now 0\<rparr>]\<rparr>)\<rparr>)
         in Inr (updateWorkstream workstreamId
                   (\<lambda>ws. ws\<lparr>status := Running, currentActivity := js ''Processing...''\<rparr>)
                   (now 1) s1)))"

text \<open>The value a permission resolver is called with: \<open>{outcome: {selected: {optionId}}}\<close>.\<close>

definition permission_response :: "js_string \<Rightarrow> json" where
  "permission_response optionId =
     JObj [(js ''outcome'', JObj [(js ''selected'', JObj [(js ''optionId'', JStr optionId)])])]"

definition respondToPermission ::
  "nat \<Rightarrow> js_string \<Rightarrow> js_string \<Rightarrow> WorkstreamManager \<Rightarrow> error + WorkstreamManager" where
  "respondToPermission t workstreamId optionId s =
     (case permissionResolvers s workstreamId of
        None \<Rightarrow> Inl (Error (js ''No pending permission request for this workstream''))
      | Some resolver \<Rightarrow>
          Inr (updateWorkstream workstreamId
                 (\<lambda>ws. ws\<lparr>status := Running, currentActivity := js ''Continuing...''\<rparr>) t
                 (s\<lparr>resolved := resolved s @ [(resolver, permission_response optionId)],
                    permissionResolvers := (permissionResolvers s)(workstreamId := None),
                    pendingPermissions := (pendingPermissions s)(workstreamId := None)\<rparr>)))"

definition pauseWorkstream :: "nat \<Rightarrow> js_string \<Rightarrow> WorkstreamManager \<Rightarrow> WorkstreamManager" where
  "pauseWorkstream t workstreamId s =
     emit workstreamId (Status_change Paused None)
       (updateWorkstream workstreamId
          (\<lambda>ws. ws\<lparr>status := Paused, currentActivity := js ''Paused by user''\<rparr>) t s)"

definition resumeWorkstream :: "nat \<Rightarrow> js_string \<Rightarrow> WorkstreamManager \<Rightarrow> WorkstreamManager" where
  "resumeWorkstream t workstreamId s =
     emit workstreamId (Status_change Running None)
       (updateWorkstream workstreamId
          (\<lambda>ws. ws\<lparr>status := Running, currentActivity := js ''Resumed''\<rparr>) t s)"

text \<open>
  \<open>stopWorkstream\<close>: the client, if any, is disconnected and dropped; with \<open>cleanup\<close>, a
  working copy and a provider, \<open>removeWorktree\<close> is called and what it throws is caught; the
  workstream, its session id and its tools are deleted. Nothing here throws. The pending
  permission and its resolver are not touched.
\<close>

definition stopWorkstream ::
  "env \<Rightarrow> js_string \<Rightarrow> bool \<Rightarrow> WorkstreamManager \<Rightarrow> WorkstreamManager" where
  "stopWorkstream E workstreamId cleanup s =
     (let workstream = workstreams s workstreamId;
          s1 = (case clients s workstreamId of
                  None \<Rightarrow> s
                | Some client \<Rightarrow>
                    s\<lparr>disconnected := disconnected s @ [disconnect client],
                      clients := (clients s)(workstreamId := None)\<rparr>);
          s2 = (case (workstream, worktreeManager s) of
                  (Some ws, Some wm) \<Rightarrow>
                    if cleanup \<and> truthy (worktreePath ws) then
                      (case removeWorktree E wm (ws_name ws) of
                         Inl e \<Rightarrow> s1\<lparr>removals := removals s1 @ [ws_name ws]\<rparr>
                       | Inr u \<Rightarrow> s1\<lparr>removals := removals s1 @ [ws_name ws]\<rparr>)
                    else s1
                | _ \<Rightarrow> s1)
      in s2\<lparr>workstreams := (workstreams s2)(workstreamId := None),
            acpSessionIds := (acpSessionIds s2)(workstreamId := None),
            activeTools := (activeTools s2)(workstreamId := None)\<rparr>)"

text \<open>Read access.\<close>

definition getWorkstream :: "WorkstreamManager \<Rightarrow> js_string \<Rightarrow> Workstream option" where
  "getWorkstream s wid = workstreams s wid"

definition getPendingPermission :: "WorkstreamManager \<Rightarrow> js_string \<Rightarrow> PendingPermissionRequest option" where
  "getPendingPermission s wid = pendingPermissions s wid"

section \<open>Histories\<close>

subsection \<open>Calls on one transport client\<close>

definition onMessage :: "nat \<Rightarrow> AcpClient \<Rightarrow> AcpClient" where
  "onMessage handler c = c\<lparr>messageHandlers := messageHandlers c @ [handler]\<rparr>"

definition onError :: "nat \<Rightarrow> AcpClient \<Rightarrow> AcpClient" where
  "onError handler c = c\<lparr>errorHandlers := errorHandlers c @ [handler]\<rparr>"

definition onRequest :: "js_string \<Rightarrow> nat \<Rightarrow> AcpClient \<Rightarrow> AcpClient" where
  "onRequest method handler c = c\<lparr>requestHandlers := (requestHandlers c)(method \<mapsto> handler)\<rparr>"

text \<open>
  What can happen to a client, one after the other: a call of its owner, or an envelope
  arriving on the event stream.
\<close>

datatype client_call =
    Connect fetch_result
  | OnMessage nat
  | OnError nat
  | OnRequest js_string nat
  | SendRequest js_string "json option" fetch_result
  | SendNotification js_string "json option" fetch_result
  | SendResponse msg_id "json option" fetch_result
  | SendErrorResponse msg_id js_string fetch_result
  | Inbound "Params AcpMessage"
  | Disconnect

fun client_step :: "client_call \<Rightarrow> AcpClient \<Rightarrow> AcpClient" where
  "client_step (Connect r) c = snd (connect r c)"
| "client_step (OnMessage h) c = onMessage h c"
| "client_step (OnError h) c = onError h c"
| "client_step (OnRequest m h) c = onRequest m h c"
| "client_step (SendRequest m p r) c = snd (sendRequest m p r c)"
| "client_step (SendNotification m p r) c = snd (sendNotification m p r c)"
| "client_step (SendResponse i v r) c = snd (sendResponse i v r c)"
| "client_step (SendErrorResponse i e r) c = snd (sendErrorResponse i e r c)"
| "client_step (Inbound message) c = handleMessage message c"
| "client_step Disconnect c = disconnect c"

fun client_run :: "client_call list \<Rightarrow> AcpClient \<Rightarrow> AcpClient" where
  "client_run [] c = c"
| "client_run (x # xs) c = client_run xs (client_step x c)"

subsection \<open>Properties of a coordinator state\<close>

text \<open>M1: no two adjacent messages of a history are both the agent's.\<close>

fun no_adjacent_agent :: "WorkstreamMessage list \<Rightarrow> bool" where
  "no_adjacent_agent (a # b # ms) =
     (\<not> (role a = Assistant \<and> role b = Assistant) \<and> no_adjacent_agent (b # ms))"
| "no_adjacent_agent ms = True"

definition M1 :: "WorkstreamManager \<Rightarrow> bool" where
  "M1 s \<longleftrightarrow> (\<forall>w ws. workstreams s w = Some ws \<longrightarrow> no_adjacent_agent (messageHistory ws))"

text \<open>T1: every tool of every tool table has status \<open>pending\<close>.\<close>

definition T1 :: "WorkstreamManager \<Rightarrow> bool" where
  "T1 s \<longleftrightarrow>
     (\<forall>w tools i tool. activeTools s w = Some tools \<longrightarrow> tools i = Some tool
        \<longrightarrow> tool_status tool = Some (js ''pending''))"

text \<open>
  An inbound event whose tool status is in range: a \<open>tool_call\<close> carries \<open>pending\<close>, a
  \<open>tool_update\<close> carries \<open>pending\<close>, \<open>completed\<close> or \<open>failed\<close>.
\<close>

definition status_in_range :: "inbound \<Rightarrow> bool" where
  "status_in_range ev =
     (case ev of (now, uuid, workstreamId, message) \<Rightarrow>
        (case parseSessionUpdate message of
           Inl e \<Rightarrow> True
         | Inr parsed \<Rightarrow>
             (case data parsed of
                Some (ToolCallData tid title st) \<Rightarrow> st = Some (js ''pending'')
              | Some (ToolUpdateData tid st c) \<Rightarrow>
                  st = Some (js ''pending'') \<or> st = Some (js ''completed'')
                  \<or> st = Some (js ''failed'')
              | _ \<Rightarrow> True)))"

subsection \<open>Envelopes of the scenarios\<close>

definition notification :: "Update \<Rightarrow> Params AcpMessage" where
  "notification u =
     \<lparr>jsonrpc = js ''2.0'', m_id = None, m_method = Some (js ''session/update''),
      m_params = Some \<lparr>p_sessionId = Some (js ''s1''), p_update = Some u,
                       p_toolCallUpdate = None, p_options = None\<rparr>,
      m_result = None, m_error = None\<rparr>"

definition agent_message_chunk :: "js_string option \<Rightarrow> Params AcpMessage" where
  "agent_message_chunk text =
     notification \<lparr>sessionUpdate = Some (js ''agent_message_chunk''),
       u_content = Some \<lparr>c_type = Some (js ''text''), c_text = text\<rparr>,
       u_id = None, u_title = None, u_status = None, u_fields = None\<rparr>"

definition tool_call :: "js_string option \<Rightarrow> js_string option \<Rightarrow> js_string option \<Rightarrow> Params AcpMessage" where
  "tool_call tid title st =
     notification \<lparr>sessionUpdate = Some (js ''tool_call''), u_content = None,
       u_id = tid, u_title = title, u_status = st, u_fields = None\<rparr>"

definition tool_call_update :: "js_string option \<Rightarrow> js_string option \<Rightarrow> Params AcpMessage" where
  "tool_call_update tid st =
     notification \<lparr>sessionUpdate = Some (js ''tool_call_update''), u_content = None,
       u_id = tid, u_title = None, u_status = None,
       u_fields = Some \<lparr>f_status = st, f_content = None, f_title = None, f_rawInput = None\<rparr>\<rparr>"

text \<open>An envelope \<open>{"jsonrpc": "2.0", "method": m}\<close>, with no \<open>params\<close>.\<close>

definition bare :: "js_string \<Rightarrow> Params AcpMessage" where
  "bare m = \<lparr>jsonrpc = js ''2.0'', m_id = None, m_method = Some m, m_params = None,
             m_result = None, m_error = None\<rparr>"

text \<open>
  A coordinator with one observer (handle 0) and one workstream \<open>w\<close>, as
  \<open>createWorkstream\<close> registers it; the clock stands still at 0.
\<close>

definition manager1 :: "env \<Rightarrow> WorkstreamManager" where
  "manager1 E =
     createWorkstream_begin toLowerCase_ascii (js ''w'') (\<lambda>k. 0) (js ''Fix X'') (js ''do it'')
       (onEvent 0 (new_WorkstreamManager E (js ''http://127.0.0.1:3284'') (js ''/repo'') True))"

text \<open>
  The request of scenario 3: \<open>request_permission\<close> with id 42 and the options \<open>a\<close> and
  \<open>r\<close>; and the coordinator after its handler ran on \<open>manager1\<close>, the new promise's
  resolver being 7.
\<close>

definition permission_request :: "Params AcpMessage" where
  "permission_request =
     \<lparr>jsonrpc = js ''2.0'', m_id = Some (IdNum 42), m_method = Some (js ''request_permission''),
      m_params = Some \<lparr>p_sessionId = Some (js ''s1''), p_update = None,
        p_toolCallUpdate = Some \<lparr>tcu_id = Some (js ''t1''),
          tcu_fields = Some \<lparr>f_status = None, f_content = None, f_title = Some (js ''run''),
                             f_rawInput = None\<rparr>\<rparr>,
        p_options = Some [\<lparr>o_id = js ''a'', o_label = js ''Allow'', o_kind = js ''allow_once''\<rparr>,
                          \<lparr>o_id = js ''r'', o_label = js ''Reject'', o_kind = js ''reject_once''\<rparr>]\<rparr>,
      m_result = None, m_error = None\<rparr>"

definition waiting1 :: "env \<Rightarrow> WorkstreamManager" where
  "waiting1 E =
     (case request_permission_handler (\<lambda>k. 0) (js ''n1'') 7 (js ''w'') permission_request
             (manager1 E) of
        Inl e \<Rightarrow> manager1 E
      | Inr s \<Rightarrow> s)"

text \<open>P1: a workstream has a pending permission exactly when it has a resolver.\<close>

definition P1 :: "WorkstreamManager \<Rightarrow> bool" where
  "P1 s \<longleftrightarrow> (\<forall>w. (pendingPermissions s w = None) = (permissionResolvers s w = None))"

text \<open>An environment in which every command and every write fails, and no path exists.\<close>

definition failing_env :: env where
  "failing_env =
     \<lparr>execSync = (\<lambda>command cwd. Inl (Error (js ''Command failed''))),
      existsSync = (\<lambda>p. False),
      mkdirSync = (\<lambda>p. Inr ()),
      readFileSync = (\<lambda>p. Inl (Error (js ''ENOENT''))),
      appendFileSync = (\<lambda>p d. Inl (Error (js ''ENOENT''))),
      path_join = (\<lambda>a b. a @ js ''/'' @ b)\<rparr>"

text \<open>The same, but every path exists.\<close>

definition failing_env_exists :: env where
  "failing_env_exists = failing_env\<lparr>existsSync := (\<lambda>p. True), readFileSync := (\<lambda>p. Inr [])\<rparr>"

text \<open>Every git command fails, every path exists, and \<open>.gitignore\<close> has the entry already.\<close>

definition failing_env_ignored :: env where
  "failing_env_ignored =
     failing_env_exists\<lparr>readFileSync := (\<lambda>p. Inr (js ''.goose-worktrees/'' @ [10]))\<rparr>"

text \<open>
  Only the \<open>git branch\<close> commands fail (the branch is there already, or is checked out
  elsewhere); every other command prints a commit hash and a line feed.
\<close>

definition branch_failing_env :: env where
  "branch_failing_env =
     \<lparr>execSync = (\<lambda>command cwd.
         if startsWith command (js ''git branch'') then Inl (Error (js ''Command failed''))
         else Inr (js ''0a1b2c3'' @ [10])),
      existsSync = (\<lambda>p. True),
      mkdirSync = (\<lambda>p. Inr ()),
      readFileSync = (\<lambda>p. Inr (js ''.goose-worktrees/'' @ [10])),
      appendFileSync = (\<lambda>p d. Inr ()),
      path_join = (\<lambda>a b. a @ js ''/'' @ b)\<rparr>"

subsection \<open>What an envelope carries\<close>

text \<open>The text of an envelope the parser classifies as \<open>text\<close>.\<close>

definition chunk_of :: "Params AcpMessage \<Rightarrow> js_string option" where
  "chunk_of message =
     (case parseSessionUpdate message of
        Inl e \<Rightarrow> None
      | Inr parsed \<Rightarrow>
          (case (p_type parsed, data parsed) of
             (Text, Some (Chunk text)) \<Rightarrow> Some text
           | _ \<Rightarrow> None))"

text \<open>The id, title and status of an envelope the parser classifies as \<open>tool_call\<close>.\<close>

definition tool_call_of ::
  "Params AcpMessage \<Rightarrow> (js_string option \<times> js_string option \<times> js_string option) option" where
  "tool_call_of message =
     (case parseSessionUpdate message of
        Inl e \<Rightarrow> None
      | Inr parsed \<Rightarrow>
          (case (p_type parsed, data parsed) of
             (Tool_call, Some (ToolCallData tid title st)) \<Rightarrow> Some (tid, title, st)
           | _ \<Rightarrow> None))"

text \<open>The id and status of an envelope the parser classifies as \<open>tool_update\<close>.\<close>

definition tool_update_of :: "Params AcpMessage \<Rightarrow> (js_string option \<times> js_string option) option" where
  "tool_update_of message =
     (case parseSessionUpdate message of
        Inl e \<Rightarrow> None
      | Inr parsed \<Rightarrow>
          (case (p_type parsed, data parsed) of
             (Tool_update, Some (ToolUpdateData tid st c)) \<Rightarrow> Some (tid, st)
           | _ \<Rightarrow> None))"

subsection \<open>An invariant of the transport client\<close>

text \<open>
  Of the promises: a pending promise has been created, no promise is pending under two ids,
  a settled promise has been created and is no longer pending, and no promise is settled
  twice.
\<close>

definition promise_of :: "msg_id \<times> nat \<times> outcome \<Rightarrow> nat" where
  "promise_of x = fst (snd x)"

definition promises_inv :: "AcpClient \<Rightarrow> bool" where
  "promises_inv c \<longleftrightarrow>
     (\<forall>k p. pendingRequests c k = Some p \<longrightarrow> p \<le> promises c)
   \<and> (\<forall>k k' p. pendingRequests c k = Some p \<longrightarrow> pendingRequests c k' = Some p \<longrightarrow> k = k')
   \<and> (\<forall>x \<in> set (settled c).
         promise_of x \<le> promises c \<and> (\<forall>k. pendingRequests c k \<noteq> Some (promise_of x)))
   \<and> distinct (map promise_of (settled c))"

text \<open>
  Of the ids: an id is issued when it is a number not above the counter; a pending id is
  issued, the id of a settled response is issued and no longer pending, and no id was
  settled twice.
\<close>

definition issued :: "AcpClient \<Rightarrow> msg_id \<Rightarrow> bool" where
  "issued c k = (case k of IdNum n \<Rightarrow> n \<le> requestId c | IdStr str \<Rightarrow> False)"

definition ids_inv :: "AcpClient \<Rightarrow> bool" where
  "ids_inv c \<longleftrightarrow>
     (\<forall>k p. pendingRequests c k = Some p \<longrightarrow> issued c k)
   \<and> (\<forall>x \<in> set (settled c). issued c (fst x) \<and> pendingRequests c (fst x) = None)
   \<and> distinct (map fst (settled c))"

subsection \<open>More scenarios\<close>

text \<open>A clock that stands still.\<close>

definition still :: "nat \<Rightarrow> nat" where
  "still k = 0"

text \<open>A response of the server whose status is 200, and one whose status is 503.\<close>

definition ok_response :: "js_string option \<Rightarrow> fetch_result" where
  "ok_response sid = Response True (js ''OK'') (Inr sid)"

definition unavailable :: fetch_result where
  "unavailable = Response False (js ''Service Unavailable'') (Inr None)"

text \<open>A client that connected and sent \<open>initialize\<close>, and the server's answer to it.\<close>

definition handshake :: "client_call list" where
  "handshake = [Connect (ok_response (Some (js ''sess''))),
                SendRequest (js ''initialize'') None (ok_response None)]"

definition client1 :: AcpClient where
  "client1 = client_run handshake (new_AcpClient (js ''http://127.0.0.1:3284/''))"

definition response1 :: "Params AcpMessage" where
  "response1 = \<lparr>jsonrpc = js ''2.0'', m_id = Some (IdNum 1), m_method = None, m_params = None,
                 m_result = Some (JStr (js ''ok'')), m_error = None\<rparr>"

text \<open>
  A response to request 1 whose error has a code and no message:
  \<open>{"jsonrpc": "2.0", "id": 1, "result": "ok", "error": {"code": -32000}}\<close>.
\<close>

definition response_no_message :: "Params AcpMessage" where
  "response_no_message =
     response1\<lparr>m_error := Some \<lparr>err_code = Some (- 32000), err_message = None,
                                   err_data = None\<rparr>\<rparr>"

text \<open>
  The history in which the counter reaches its limit: after the handshake, \<open>2 ^ 53\<close>
  more requests; the server answers the last one; one more request; the server answers that
  one.
\<close>

definition ping :: client_call where
  "ping = SendRequest (js ''ping'') None (ok_response None)"

definition flood :: "nat \<Rightarrow> client_call list" where
  "flood n = replicate n ping"

definition answer_limit :: "Params AcpMessage" where
  "answer_limit = \<lparr>jsonrpc = js ''2.0'', m_id = Some (IdNum id_limit), m_method = None,
                    m_params = None, m_result = Some (JStr (js ''pong'')), m_error = None\<rparr>"

definition past_limit :: "client_call list" where
  "past_limit = handshake @ flood (nat id_limit) @ [Inbound answer_limit, ping, Inbound answer_limit]"

text \<open>
  The coordinator \<open>manager1\<close> once its workstream has a working copy, a client and a
  session.
\<close>

definition running1 :: "env \<Rightarrow> WorkstreamManager" where
  "running1 E =
     (updateWorkstream (js ''w'')
        (\<lambda>ws. ws\<lparr>worktreePath := Some (js ''/repo/.goose-worktrees/fix-x''),
                branchName := Some (js ''goose/fix-x''),
                acpSessionId := Some (js ''a1''), status := Running\<rparr>) 0 (manager1 E))
       \<lparr>clients := [js ''w'' \<mapsto> client1], acpSessionIds := [js ''w'' \<mapsto> js ''a1'']\<rparr>"

text \<open>The provider of the repository \<open>/repo\<close>.\<close>

definition repo1 :: "env \<Rightarrow> GitWorktreeManager" where
  "repo1 E = new_GitWorktreeManager E (js ''/repo'')"

section \<open>Facts about strings\<close>

lemma unat_of_char16: "unat (of_char c :: 16 word) = of_char c"
proof -
  have "(of_char c :: 16 word) = of_nat (of_char c)" by (simp only: of_nat_of_char)
  moreover have "(of_char c :: nat) < 2 ^ 16"
  proof -
    have "(of_char c :: nat) < 256" by (rule nat_of_char_less_256)
    moreover have "(256 :: nat) < 2 ^ 16" by simp
    ultimately show ?thesis by (rule less_trans)
  qed
  ultimately show ?thesis by (simp add: unat_of_nat take_bit_nat_eq_self)
qed

lemma of_char16_eq_iff: "((of_char c :: 16 word) = of_char d) \<longleftrightarrow> c = d"
  by (metis unat_of_char16 of_char_eq_iff)

lemma js_inject: "js a = js b \<longleftrightarrow> a = b"
  unfolding js_def by (simp add: inj_def of_char16_eq_iff)

lemma js_Nil: "js s = [] \<longleftrightarrow> s = []"
  by (simp add: js_def)

lemma replace_other_chars: "list_all name_char (replace_other s)"
  by (induction s) (simp_all add: replace_other_def name_char_def)

lemma list_all_take: "list_all P xs \<Longrightarrow> list_all P (take n xs)"
  by (auto simp: list_all_iff dest: in_set_takeD)

section \<open>The name sanitizer\<close>

text \<open>
  Claim C7. For every input name, and whatever the platform's lower-casing does to it, the
  sanitized name has only characters of \<open>[a-z0-9-]\<close> and at most 50 of them; it is the name
  \<open>createWorkstream\<close> stores in the new workstream; and \<open>Hello, World! 123\<close> becomes
  \<open>hello--world--123\<close>.
\<close>

theorem sanitizeName_chars_length:
  "list_all name_char (sanitizeName lower name)
   \<and> length (sanitizeName lower name) \<le> 50
   \<and> sanitizeName toLowerCase_ascii (js ''Hello, World! 123'') = js ''hello--world--123''
   \<and> map_option ws_name (workstreams (createWorkstream_begin lower uuid now name tsk s) uuid)
       = Some (sanitizeName lower name)"
proof -
  have 1: "list_all name_char (sanitizeName lower name)"
    unfolding sanitizeName_def slice0_def by (rule list_all_take) (rule replace_other_chars)
  have 2: "length (sanitizeName lower name) \<le> 50"
    by (simp add: sanitizeName_def slice0_def)
  have 3: "sanitizeName toLowerCase_ascii (js ''Hello, World! 123'') = js ''hello--world--123''"
    by (simp add: sanitizeName_def slice0_def replace_other_def toLowerCase_ascii_def js_def
        name_char_def)
  have 4: "map_option ws_name (workstreams (createWorkstream_begin lower uuid now name tsk s) uuid)
       = Some (sanitizeName lower name)"
    by (simp add: createWorkstream_begin_def Let_def)
  from 1 2 3 4 show ?thesis by blast
qed

theorem sanitizeName_chars_length_witness:
  "sanitizeName toLowerCase_ascii (js ''A_b C'') = js ''a-b-c''
   \<and> list_all name_char (js ''a-b-c'') \<and> length (js ''a-b-c'') \<le> 50"
proof -
  have e: "sanitizeName toLowerCase_ascii (js ''A_b C'') = js ''a-b-c''"
    by (simp add: sanitizeName_def slice0_def replace_other_def toLowerCase_ascii_def js_def
        name_char_def)
  from sanitizeName_chars_length [of toLowerCase_ascii "js ''A_b C''"] show ?thesis
    unfolding e by simp
qed

section \<open>The protocol parser\<close>

text \<open>
  With \<open>params\<close> present the parser returns a classification, and a chunk with no text has
  the empty string as payload.
\<close>

lemma parseSessionUpdate_with_params:
  "m_params message \<noteq> None \<Longrightarrow> \<exists>parsed. parseSessionUpdate message = Inr parsed"
  by (auto simp: parseSessionUpdate_def Let_def split: option.splits)

lemma parseSessionUpdate_absent_text:
  "parseSessionUpdate (agent_message_chunk None)
     = Inr \<lparr>p_type = Text, sessionId = Some (js ''s1''), data = Some (Chunk [])\<rparr>"
  by (simp add: parseSessionUpdate_def agent_message_chunk_def notification_def chunk_text_def
      truthy_def js_inject)

text \<open>
  Claim C6. The claim is that the parser returns a tag for every envelope, also one with no
  \<open>params\<close>. On the envelope \<open>{"jsonrpc": "2.0", "method": "session/update"}\<close> the code reads
  \<open>params.update\<close> of an absent \<open>params\<close> and throws a \<open>TypeError\<close>; so it does on
  \<open>{"jsonrpc": "2.0", "method": "request_permission"}\<close>, reading \<open>params.sessionId\<close>.
\<close>

theorem parseSessionUpdate_missing_params:
  "parseSessionUpdate (bare (js ''session/update'')) = Inl TypeError
   \<and> parseSessionUpdate (bare (js ''request_permission'')) = Inl TypeError"
  by (simp add: parseSessionUpdate_def bare_def js_inject)

section \<open>The transport client: responses\<close>

lemma id_limit_pos: "0 < id_limit"
  by (simp add: id_limit_def)

lemma increment_ge: "n \<le> increment n"
  by (simp add: increment_def)

lemma increment_below: "n < id_limit \<Longrightarrow> increment n = n + 1"
  by (simp add: increment_def)

lemma increment_min: "n \<le> id_limit \<Longrightarrow> increment n = min (n + 1) id_limit"
  by (simp add: increment_def min_def)

lemma send_fields:
  "pendingRequests (snd (send msg r c)) = pendingRequests c"
  "settled (snd (send msg r c)) = settled c"
  "requestId (snd (send msg r c)) = requestId c"
  "promises (snd (send msg r c)) = promises c"
  "c_sessionId (snd (send msg r c)) = c_sessionId c"
  by (simp_all add: send_def Let_def split: fetch_result.splits)

lemma sendRequest_not_connected:
  "\<not> truthy (c_sessionId c) \<Longrightarrow> snd (sendRequest m p r c) = c"
  by (simp add: sendRequest_def)

lemma sendRequest_fields:
  assumes "truthy (c_sessionId c)"
  shows "pendingRequests (snd (sendRequest m p r c))
           = (pendingRequests c)(IdNum (increment (requestId c)) \<mapsto> promises c + 1)"
    and "settled (snd (sendRequest m p r c)) = settled c"
    and "requestId (snd (sendRequest m p r c)) = increment (requestId c)"
    and "promises (snd (sendRequest m p r c)) = promises c + 1"
    and "c_sessionId (snd (sendRequest m p r c)) = c_sessionId c"
proof -
  let ?c1 = "c\<lparr>requestId := increment (requestId c), promises := promises c + 1,
      pendingRequests := (pendingRequests c)(IdNum (increment (requestId c)) \<mapsto> promises c + 1)\<rparr>"
  have e: "snd (sendRequest m p r c) = snd (send \<lparr>jsonrpc = js ''2.0'',
      m_id = Some (IdNum (increment (requestId c))),
      m_method = Some m, m_params = p, m_result = None, m_error = None\<rparr> r ?c1)"
    using assms by (auto simp: sendRequest_def Let_def split: prod.splits sum.splits)
  show "pendingRequests (snd (sendRequest m p r c))
           = (pendingRequests c)(IdNum (increment (requestId c)) \<mapsto> promises c + 1)"
    and "settled (snd (sendRequest m p r c)) = settled c"
    and "requestId (snd (sendRequest m p r c)) = increment (requestId c)"
    and "promises (snd (sendRequest m p r c)) = promises c + 1"
    and "c_sessionId (snd (sendRequest m p r c)) = c_sessionId c"
    by (simp_all add: e send_fields)
qed

lemma handleMessage_pending:
  assumes "m_id message = Some k" "pendingRequests c k = Some p"
  shows "handleMessage message c =
     c\<lparr>pendingRequests := (pendingRequests c)(k := None),
       settled := settled c @ [(k, p, case m_error message of
                                        Some e \<Rightarrow> Rejected (error_text e)
                                      | None \<Rightarrow> Resolved (m_result message))]\<rparr>"
  using assms by (simp add: handleMessage_def is_pending_def Let_def split: option.splits)

lemma handleMessage_not_pending:
  assumes "\<not> is_pending c (m_id message)"
  shows "pendingRequests (handleMessage message c) = pendingRequests c"
    and "settled (handleMessage message c) = settled c"
    and "requestId (handleMessage message c) = requestId c"
    and "promises (handleMessage message c) = promises c"
  using assms by (simp_all add: handleMessage_def forward_def split: option.splits)

lemma handleMessage_keeps:
  "requestId (handleMessage message c) = requestId c"
  "promises (handleMessage message c) = promises c"
  "c_sessionId (handleMessage message c) = c_sessionId c"
  by (simp_all add: handleMessage_def forward_def Let_def split: option.splits)

text \<open>The invariant of the promises is kept by every call and every inbound envelope.\<close>

lemma pinv_parts:
  assumes "promises_inv c"
  shows "\<forall>k p. pendingRequests c k = Some p \<longrightarrow> p \<le> promises c"
    and "\<forall>k k' p. pendingRequests c k = Some p \<longrightarrow> pendingRequests c k' = Some p \<longrightarrow> k = k'"
    and "\<forall>x \<in> set (settled c).
           promise_of x \<le> promises c \<and> (\<forall>k. pendingRequests c k \<noteq> Some (promise_of x))"
    and "distinct (map promise_of (settled c))"
proof -
  note u = assms [unfolded promises_inv_def]
  show "\<forall>k p. pendingRequests c k = Some p \<longrightarrow> p \<le> promises c"
    by (rule u [THEN conjunct1])
  show "\<forall>k k' p. pendingRequests c k = Some p \<longrightarrow> pendingRequests c k' = Some p \<longrightarrow> k = k'"
    by (rule u [THEN conjunct2, THEN conjunct1])
  show "\<forall>x \<in> set (settled c).
           promise_of x \<le> promises c \<and> (\<forall>k. pendingRequests c k \<noteq> Some (promise_of x))"
    by (rule u [THEN conjunct2, THEN conjunct2, THEN conjunct1])
  show "distinct (map promise_of (settled c))"
    by (rule u [THEN conjunct2, THEN conjunct2, THEN conjunct2])
qed

lemma pinvI:
  assumes "\<And>k p. pendingRequests c k = Some p \<Longrightarrow> p \<le> promises c"
    and "\<And>k k' p. pendingRequests c k = Some p \<Longrightarrow> pendingRequests c k' = Some p \<Longrightarrow> k = k'"
    and "\<And>x. x \<in> set (settled c) \<Longrightarrow> promise_of x \<le> promises c"
    and "\<And>x k. x \<in> set (settled c) \<Longrightarrow> pendingRequests c k \<noteq> Some (promise_of x)"
    and "distinct (map promise_of (settled c))"
  shows "promises_inv c"
  unfolding promises_inv_def
proof (intro conjI allI impI ballI)
  fix k p assume "pendingRequests c k = Some p"
  then show "p \<le> promises c" by (rule assms(1))
next
  fix k k' p assume "pendingRequests c k = Some p" "pendingRequests c k' = Some p"
  then show "k = k'" by (rule assms(2))
next
  fix x assume "x \<in> set (settled c)"
  then show "promise_of x \<le> promises c" by (rule assms(3))
next
  fix x k assume "x \<in> set (settled c)"
  then show "pendingRequests c k \<noteq> Some (promise_of x)" by (rule assms(4))
next
  show "distinct (map promise_of (settled c))" by (rule assms(5))
qed

lemma pinv_created:
  "promises_inv c \<Longrightarrow> pendingRequests c k = Some p \<Longrightarrow> p \<le> promises c"
  by (rule pinv_parts(1) [rule_format])

lemma pinv_one_id:
  "promises_inv c \<Longrightarrow> pendingRequests c k = Some p \<Longrightarrow> pendingRequests c k' = Some p \<Longrightarrow> k = k'"
  by (rule pinv_parts(2) [rule_format])

lemma pinv_settled_created:
  "promises_inv c \<Longrightarrow> x \<in> set (settled c) \<Longrightarrow> promise_of x \<le> promises c"
  using pinv_parts(3) [THEN bspec, THEN conjunct1] .

lemma pinv_settled_gone:
  "promises_inv c \<Longrightarrow> x \<in> set (settled c) \<Longrightarrow> pendingRequests c k \<noteq> Some (promise_of x)"
  using pinv_parts(3) [THEN bspec, THEN conjunct2, THEN spec] .

lemma pinv_cong:
  assumes "pendingRequests c' = pendingRequests c" "settled c' = settled c"
    "promises c' = promises c"
  shows "promises_inv c' = promises_inv c"
  by (simp only: promises_inv_def assms)

lemma pinv_new: "promises_inv (new_AcpClient url)"
  by (rule pinvI) (simp_all add: new_AcpClient_def)

lemma pinv_disconnect:
  assumes "promises_inv c" shows "promises_inv (disconnect c)"
proof (rule pinvI)
  fix x assume "x \<in> set (settled (disconnect c))"
  then have "x \<in> set (settled c)" by (simp add: disconnect_def)
  from pinv_settled_created [OF assms this]
  show "promise_of x \<le> promises (disconnect c)" by (simp add: disconnect_def)
next
  from pinv_parts(4) [OF assms]
  show "distinct (map promise_of (settled (disconnect c)))" by (simp add: disconnect_def)
qed (simp_all add: disconnect_def)

lemma pinv_sendRequest:
  assumes "promises_inv c" shows "promises_inv (snd (sendRequest m p r c))"
proof (cases "truthy (c_sessionId c)")
  case False
  with assms show ?thesis by (simp add: sendRequest_not_connected)
next
  case True
  note f = sendRequest_fields [OF True, of m p r]
  let ?k = "IdNum (increment (requestId c))"
  show ?thesis
  proof (rule pinvI)
    fix k q assume "pendingRequests (snd (sendRequest m p r c)) k = Some q"
    then have "q = promises c + 1 \<or> pendingRequests c k = Some q"
      by (simp add: f(1) split: if_splits)
    then show "q \<le> promises (snd (sendRequest m p r c))"
      using pinv_created [OF assms, of k q] by (auto simp: f(4))
  next
    fix k k' q
    assume a: "pendingRequests (snd (sendRequest m p r c)) k = Some q"
      and b: "pendingRequests (snd (sendRequest m p r c)) k' = Some q"
    have fresh: "pendingRequests c j \<noteq> Some (promises c + 1)" for j
      using pinv_created [OF assms, of j "promises c + 1"] by auto
    show "k = k'"
    proof (cases "k = ?k")
      case True
      with a have q: "q = promises c + 1" by (simp add: f(1))
      show ?thesis
      proof (cases "k' = ?k")
        case True with \<open>k = ?k\<close> show ?thesis by simp
      next
        case False
        with b have "pendingRequests c k' = Some q" by (simp add: f(1))
        with q fresh show ?thesis by simp
      qed
    next
      case False
      with a have a': "pendingRequests c k = Some q" by (simp add: f(1))
      show ?thesis
      proof (cases "k' = ?k")
        case True
        with b have "q = promises c + 1" by (simp add: f(1))
        with a' fresh show ?thesis by simp
      next
        case F2: False
        with b have "pendingRequests c k' = Some q" by (simp add: f(1))
        from pinv_one_id [OF assms a' this] show ?thesis .
      qed
    qed
  next
    fix x assume "x \<in> set (settled (snd (sendRequest m p r c)))"
    then have "x \<in> set (settled c)" by (simp add: f(2))
    from pinv_settled_created [OF assms this]
    show "promise_of x \<le> promises (snd (sendRequest m p r c))" by (simp add: f(4))
  next
    fix x k assume "x \<in> set (settled (snd (sendRequest m p r c)))"
    then have x: "x \<in> set (settled c)" by (simp add: f(2))
    from pinv_settled_created [OF assms x] have "promise_of x \<noteq> promises c + 1" by simp
    with pinv_settled_gone [OF assms x, of k]
    show "pendingRequests (snd (sendRequest m p r c)) k \<noteq> Some (promise_of x)"
      by (simp add: f(1))
  next
    from pinv_parts(4) [OF assms]
    show "distinct (map promise_of (settled (snd (sendRequest m p r c))))" by (simp add: f(2))
  qed
qed

lemma pinv_handleMessage:
  assumes "promises_inv c" shows "promises_inv (handleMessage message c)"
proof (cases "is_pending c (m_id message)")
  case False
  then have "promises_inv (handleMessage message c) = promises_inv c"
    by (intro pinv_cong handleMessage_not_pending)
  with assms show ?thesis by simp
next
  case True
  then obtain k p where k: "m_id message = Some k" "pendingRequests c k = Some p"
    by (auto simp: is_pending_def split: option.splits)
  define out where "out = (case m_error message of
                             Some e \<Rightarrow> Rejected (error_text e)
                           | None \<Rightarrow> Resolved (m_result message))"
  define c' where "c' = c\<lparr>pendingRequests := (pendingRequests c)(k := None),
                          settled := settled c @ [(k, p, out)]\<rparr>"
  have eq: "handleMessage message c = c'"
    unfolding c'_def out_def by (rule handleMessage_pending [OF k])
  have sel: "pendingRequests c' = (pendingRequests c)(k := None)"
    "settled c' = settled c @ [(k, p, out)]" "promises c' = promises c"
    by (simp_all add: c'_def)
  have fresh: "p \<notin> promise_of ` set (settled c)"
  proof
    assume "p \<in> promise_of ` set (settled c)"
    then obtain x where x: "x \<in> set (settled c)" "promise_of x = p" by blast
    from pinv_settled_gone [OF assms x(1), of k] x(2) k(2) show False by simp
  qed
  have "promises_inv c'"
  proof (rule pinvI)
    fix j q assume "pendingRequests c' j = Some q"
    then have "pendingRequests c j = Some q" by (simp add: sel split: if_splits)
    from pinv_created [OF assms this] show "q \<le> promises c'" by (simp add: sel)
  next
    fix j j' q assume "pendingRequests c' j = Some q" "pendingRequests c' j' = Some q"
    then have "pendingRequests c j = Some q" "pendingRequests c j' = Some q"
      by (simp_all add: sel split: if_splits)
    then show "j = j'" by (rule pinv_one_id [OF assms])
  next
    fix x assume "x \<in> set (settled c')"
    then have "x \<in> set (settled c) \<or> x = (k, p, out)" by (auto simp: sel)
    then show "promise_of x \<le> promises c'"
    proof
      assume "x \<in> set (settled c)"
      from pinv_settled_created [OF assms this] show ?thesis by (simp add: sel)
    next
      assume "x = (k, p, out)"
      with pinv_created [OF assms k(2)] show ?thesis by (simp add: sel promise_of_def)
    qed
  next
    fix x j assume "x \<in> set (settled c')"
    then have "x \<in> set (settled c) \<or> x = (k, p, out)" by (auto simp: sel)
    then show "pendingRequests c' j \<noteq> Some (promise_of x)"
    proof
      assume "x \<in> set (settled c)"
      from pinv_settled_gone [OF assms this, of j] show ?thesis by (simp add: sel)
    next
      assume x: "x = (k, p, out)"
      show ?thesis
      proof
        assume "pendingRequests c' j = Some (promise_of x)"
        then have j: "j \<noteq> k" "pendingRequests c j = Some p"
          by (simp_all add: sel x promise_of_def split: if_splits)
        from pinv_one_id [OF assms j(2) k(2)] j(1) show False by simp
      qed
    qed
  next
    from pinv_parts(4) [OF assms] fresh
    show "distinct (map promise_of (settled c'))" by (simp add: sel promise_of_def)
  qed
  then show ?thesis by (simp only: eq)
qed

lemma pinv_step: "promises_inv c \<Longrightarrow> promises_inv (client_step x c)"
proof (cases x)
  case (Connect r)
  have "promises_inv (snd (connect r c)) = promises_inv c"
    by (rule pinv_cong) (simp_all add: connect_def split: fetch_result.splits sum.splits)
  then show "promises_inv c \<Longrightarrow> ?thesis" using Connect by simp
next
  case (OnMessage h)
  have "promises_inv (onMessage h c) = promises_inv c"
    by (rule pinv_cong) (simp_all add: onMessage_def)
  then show "promises_inv c \<Longrightarrow> ?thesis" using OnMessage by simp
next
  case (OnError h)
  have "promises_inv (onError h c) = promises_inv c"
    by (rule pinv_cong) (simp_all add: onError_def)
  then show "promises_inv c \<Longrightarrow> ?thesis" using OnError by simp
next
  case (OnRequest m h)
  have "promises_inv (onRequest m h c) = promises_inv c"
    by (rule pinv_cong) (simp_all add: onRequest_def)
  then show "promises_inv c \<Longrightarrow> ?thesis" using OnRequest by simp
next
  case (SendRequest m p r)
  then show "promises_inv c \<Longrightarrow> ?thesis" by (simp add: pinv_sendRequest)
next
  case (SendNotification m p r)
  have "promises_inv (snd (sendNotification m p r c)) = promises_inv c"
    by (rule pinv_cong) (simp_all add: sendNotification_def send_fields)
  then show "promises_inv c \<Longrightarrow> ?thesis" using SendNotification by simp
next
  case (SendResponse i v r)
  have "promises_inv (snd (sendResponse i v r c)) = promises_inv c"
    by (rule pinv_cong) (simp_all add: sendResponse_def send_fields)
  then show "promises_inv c \<Longrightarrow> ?thesis" using SendResponse by simp
next
  case (SendErrorResponse i e r)
  have "promises_inv (snd (sendErrorResponse i e r c)) = promises_inv c"
    by (rule pinv_cong) (simp_all add: sendErrorResponse_def send_fields)
  then show "promises_inv c \<Longrightarrow> ?thesis" using SendErrorResponse by simp
next
  case (Inbound message)
  then show "promises_inv c \<Longrightarrow> ?thesis" by (simp add: pinv_handleMessage)
next
  case Disconnect
  then show "promises_inv c \<Longrightarrow> ?thesis" by (simp add: pinv_disconnect)
qed

lemma pinv_run: "promises_inv c \<Longrightarrow> promises_inv (client_run xs c)"
  by (induction xs arbitrary: c) (simp_all add: pinv_step)

text \<open>The invariant of the ids is kept as long as the counter is below its limit.\<close>

lemma issued_mono: "issued c k \<Longrightarrow> requestId c \<le> requestId c' \<Longrightarrow> issued c' k"
  by (cases k) (simp_all add: issued_def)

lemma iinv_parts:
  assumes "ids_inv c"
  shows "\<forall>k p. pendingRequests c k = Some p \<longrightarrow> issued c k"
    and "\<forall>x \<in> set (settled c). issued c (fst x) \<and> pendingRequests c (fst x) = None"
    and "distinct (map fst (settled c))"
proof -
  note u = assms [unfolded ids_inv_def]
  show "\<forall>k p. pendingRequests c k = Some p \<longrightarrow> issued c k"
    by (rule u [THEN conjunct1])
  show "\<forall>x \<in> set (settled c). issued c (fst x) \<and> pendingRequests c (fst x) = None"
    by (rule u [THEN conjunct2, THEN conjunct1])
  show "distinct (map fst (settled c))"
    by (rule u [THEN conjunct2, THEN conjunct2])
qed

lemma iinvI:
  assumes "\<And>k p. pendingRequests c k = Some p \<Longrightarrow> issued c k"
    and "\<And>x. x \<in> set (settled c) \<Longrightarrow> issued c (fst x)"
    and "\<And>x. x \<in> set (settled c) \<Longrightarrow> pendingRequests c (fst x) = None"
    and "distinct (map fst (settled c))"
  shows "ids_inv c"
  unfolding ids_inv_def
proof (intro conjI allI impI ballI)
  fix k p assume "pendingRequests c k = Some p"
  then show "issued c k" by (rule assms(1))
next
  fix x assume "x \<in> set (settled c)"
  then show "issued c (fst x)" by (rule assms(2))
next
  fix x assume "x \<in> set (settled c)"
  then show "pendingRequests c (fst x) = None" by (rule assms(3))
next
  show "distinct (map fst (settled c))" by (rule assms(4))
qed

lemma iinv_pending: "ids_inv c \<Longrightarrow> pendingRequests c k = Some p \<Longrightarrow> issued c k"
  by (rule iinv_parts(1) [rule_format])

lemma iinv_settled_issued: "ids_inv c \<Longrightarrow> x \<in> set (settled c) \<Longrightarrow> issued c (fst x)"
  using iinv_parts(2) [THEN bspec, THEN conjunct1] .

lemma iinv_settled_gone:
  "ids_inv c \<Longrightarrow> x \<in> set (settled c) \<Longrightarrow> pendingRequests c (fst x) = None"
  using iinv_parts(2) [THEN bspec, THEN conjunct2] .

lemma iinv_cong:
  assumes "pendingRequests c' = pendingRequests c" "settled c' = settled c"
    "requestId c' = requestId c"
  shows "ids_inv c' = ids_inv c"
  by (simp only: ids_inv_def issued_def assms)

lemma iinv_new: "ids_inv (new_AcpClient url)"
  by (rule iinvI) (simp_all add: new_AcpClient_def)

lemma iinv_disconnect:
  assumes "ids_inv c" shows "ids_inv (disconnect c)"
proof (rule iinvI)
  fix x assume "x \<in> set (settled (disconnect c))"
  then have "x \<in> set (settled c)" by (simp add: disconnect_def)
  from iinv_settled_issued [OF assms this]
  show "issued (disconnect c) (fst x)" by (rule issued_mono) (simp add: disconnect_def)
next
  from iinv_parts(3) [OF assms]
  show "distinct (map fst (settled (disconnect c)))" by (simp add: disconnect_def)
qed (simp_all add: disconnect_def)

lemma iinv_sendRequest:
  assumes "ids_inv c" "requestId c < id_limit"
  shows "ids_inv (snd (sendRequest m p r c))"
proof (cases "truthy (c_sessionId c)")
  case False
  with assms show ?thesis by (simp add: sendRequest_not_connected)
next
  case True
  note f = sendRequest_fields [OF True, of m p r]
  have inc: "increment (requestId c) = requestId c + 1"
    by (rule increment_below [OF assms(2)])
  have up: "requestId c \<le> requestId (snd (sendRequest m p r c))" by (simp add: f(3) inc)
  have old: "issued c k \<Longrightarrow> k \<noteq> IdNum (requestId c + 1)" for k
    by (cases k) (simp_all add: issued_def)
  show ?thesis
  proof (rule iinvI)
    fix k q assume a: "pendingRequests (snd (sendRequest m p r c)) k = Some q"
    show "issued (snd (sendRequest m p r c)) k"
    proof (cases "k = IdNum (requestId c + 1)")
      case True then show ?thesis by (simp add: issued_def f(3) inc)
    next
      case False
      with a have "pendingRequests c k = Some q" by (simp add: f(1) inc)
      from iinv_pending [OF assms(1) this] up show ?thesis by (rule issued_mono)
    qed
  next
    fix x assume "x \<in> set (settled (snd (sendRequest m p r c)))"
    then have "x \<in> set (settled c)" by (simp add: f(2))
    from iinv_settled_issued [OF assms(1) this] up
    show "issued (snd (sendRequest m p r c)) (fst x)" by (rule issued_mono)
  next
    fix x assume "x \<in> set (settled (snd (sendRequest m p r c)))"
    then have x: "x \<in> set (settled c)" by (simp add: f(2))
    from old [OF iinv_settled_issued [OF assms(1) x]] iinv_settled_gone [OF assms(1) x]
    show "pendingRequests (snd (sendRequest m p r c)) (fst x) = None" by (simp add: f(1) inc)
  next
    from iinv_parts(3) [OF assms(1)]
    show "distinct (map fst (settled (snd (sendRequest m p r c))))" by (simp add: f(2))
  qed
qed

lemma iinv_handleMessage:
  assumes "ids_inv c" shows "ids_inv (handleMessage message c)"
proof (cases "is_pending c (m_id message)")
  case False
  then have "ids_inv (handleMessage message c) = ids_inv c"
    by (intro iinv_cong handleMessage_not_pending)
  with assms show ?thesis by simp
next
  case True
  then obtain k p where k: "m_id message = Some k" "pendingRequests c k = Some p"
    by (auto simp: is_pending_def split: option.splits)
  define out where "out = (case m_error message of
                             Some e \<Rightarrow> Rejected (error_text e)
                           | None \<Rightarrow> Resolved (m_result message))"
  define c' where "c' = c\<lparr>pendingRequests := (pendingRequests c)(k := None),
                          settled := settled c @ [(k, p, out)]\<rparr>"
  have eq: "handleMessage message c = c'"
    unfolding c'_def out_def by (rule handleMessage_pending [OF k])
  have sel: "pendingRequests c' = (pendingRequests c)(k := None)"
    "settled c' = settled c @ [(k, p, out)]" "requestId c' = requestId c"
    by (simp_all add: c'_def)
  have same: "issued c' j = issued c j" for j by (cases j) (simp_all add: issued_def sel)
  have fresh: "k \<notin> fst ` set (settled c)"
  proof
    assume "k \<in> fst ` set (settled c)"
    then obtain x where x: "x \<in> set (settled c)" "fst x = k" by blast
    from iinv_settled_gone [OF assms x(1)] x(2) k(2) show False by simp
  qed
  have "ids_inv c'"
  proof (rule iinvI)
    fix j q assume "pendingRequests c' j = Some q"
    then have "pendingRequests c j = Some q" by (simp add: sel split: if_splits)
    from iinv_pending [OF assms this] show "issued c' j" by (simp add: same)
  next
    fix x assume "x \<in> set (settled c')"
    then have "x \<in> set (settled c) \<or> x = (k, p, out)" by (auto simp: sel)
    then show "issued c' (fst x)"
    proof
      assume "x \<in> set (settled c)"
      from iinv_settled_issued [OF assms this] show ?thesis by (simp add: same)
    next
      assume "x = (k, p, out)"
      with iinv_pending [OF assms k(2)] show ?thesis by (simp add: same)
    qed
  next
    fix x assume "x \<in> set (settled c')"
    then have "x \<in> set (settled c) \<or> x = (k, p, out)" by (auto simp: sel)
    then show "pendingRequests c' (fst x) = None"
    proof
      assume "x \<in> set (settled c)"
      from iinv_settled_gone [OF assms this] show ?thesis by (simp add: sel)
    next
      assume "x = (k, p, out)"
      then show ?thesis by (simp add: sel)
    qed
  next
    from iinv_parts(3) [OF assms] fresh
    show "distinct (map fst (settled c'))" by (simp add: sel)
  qed
  then show ?thesis by (simp only: eq)
qed

lemma requestId_step: "requestId c \<le> requestId (client_step x c)"
proof (cases x)
  case (SendRequest m p r)
  show ?thesis
  proof (cases "truthy (c_sessionId c)")
    case True
    then show ?thesis
      using SendRequest increment_ge [of "requestId c"] by (simp add: sendRequest_fields)
  next
    case False
    then show ?thesis using SendRequest by (simp add: sendRequest_not_connected)
  qed
qed (simp_all add: connect_def onMessage_def onError_def onRequest_def sendNotification_def
       sendResponse_def sendErrorResponse_def send_fields handleMessage_keeps disconnect_def
       split: fetch_result.splits sum.splits)

lemma requestId_run: "requestId c \<le> requestId (client_run xs c)"
proof (induction xs arbitrary: c)
  case Nil show ?case by simp
next
  case (Cons x xs)
  have "requestId c \<le> requestId (client_step x c)" by (rule requestId_step)
  also have "\<dots> \<le> requestId (client_run xs (client_step x c))" by (rule Cons.IH)
  finally show ?case by simp
qed

lemma iinv_step:
  assumes "ids_inv c" "requestId c < id_limit"
  shows "ids_inv (client_step x c)"
proof (cases x)
  case (Connect r)
  have "ids_inv (snd (connect r c)) = ids_inv c"
    by (rule iinv_cong) (simp_all add: connect_def split: fetch_result.splits sum.splits)
  then show ?thesis using Connect assms(1) by simp
next
  case (OnMessage h)
  have "ids_inv (onMessage h c) = ids_inv c"
    by (rule iinv_cong) (simp_all add: onMessage_def)
  then show ?thesis using OnMessage assms(1) by simp
next
  case (OnError h)
  have "ids_inv (onError h c) = ids_inv c"
    by (rule iinv_cong) (simp_all add: onError_def)
  then show ?thesis using OnError assms(1) by simp
next
  case (OnRequest m h)
  have "ids_inv (onRequest m h c) = ids_inv c"
    by (rule iinv_cong) (simp_all add: onRequest_def)
  then show ?thesis using OnRequest assms(1) by simp
next
  case (SendRequest m p r)
  then show ?thesis using assms by (simp add: iinv_sendRequest)
next
  case (SendNotification m p r)
  have "ids_inv (snd (sendNotification m p r c)) = ids_inv c"
    by (rule iinv_cong) (simp_all add: sendNotification_def send_fields)
  then show ?thesis using SendNotification assms(1) by simp
next
  case (SendResponse i v r)
  have "ids_inv (snd (sendResponse i v r c)) = ids_inv c"
    by (rule iinv_cong) (simp_all add: sendResponse_def send_fields)
  then show ?thesis using SendResponse assms(1) by simp
next
  case (SendErrorResponse i e r)
  have "ids_inv (snd (sendErrorResponse i e r c)) = ids_inv c"
    by (rule iinv_cong) (simp_all add: sendErrorResponse_def send_fields)
  then show ?thesis using SendErrorResponse assms(1) by simp
next
  case (Inbound message)
  then show ?thesis using assms(1) by (simp add: iinv_handleMessage)
next
  case Disconnect
  then show ?thesis using assms(1) by (simp add: iinv_disconnect)
qed

lemma iinv_run:
  "ids_inv c \<Longrightarrow> requestId (client_run xs c) < id_limit \<Longrightarrow> ids_inv (client_run xs c)"
proof (induction xs arbitrary: c)
  case Nil then show ?case by simp
next
  case (Cons x xs)
  have "requestId c \<le> requestId (client_step x c)" by (rule requestId_step)
  also have "\<dots> \<le> requestId (client_run xs (client_step x c))" by (rule requestId_run)
  also have "\<dots> < id_limit" using Cons.prems(2) by simp
  finally have "requestId c < id_limit" .
  from iinv_step [OF Cons.prems(1) this]
  have "ids_inv (client_step x c)" .
  from Cons.IH [OF this] Cons.prems(2) show ?case by simp
qed

text \<open>A second response with the same id finds no pending entry.\<close>

lemma second_response_settles_nothing:
  assumes "m_id m1 = Some k" "pendingRequests c k \<noteq> None" "m_id m2 = Some k"
  shows "settled (handleMessage m2 (handleMessage m1 c)) = settled (handleMessage m1 c)"
proof -
  from assms(2) obtain p where p: "pendingRequests c k = Some p" by blast
  have "pendingRequests (handleMessage m1 c) k = None"
    by (simp add: handleMessage_pending [OF assms(1) p])
  then have "\<not> is_pending (handleMessage m1 c) (m_id m2)"
    by (simp add: is_pending_def assms(3))
  then show ?thesis by (rule handleMessage_not_pending(2))
qed

lemma client_run_append: "client_run (xs @ ys) c = client_run ys (client_run xs c)"
  by (induction xs arbitrary: c) simp_all

lemma client1_eval:
  "client1 = \<lparr>baseUrl = js ''http://127.0.0.1:3284'', c_sessionId = Some (js ''sess''),
      eventSource = Some (js ''http://127.0.0.1:3284/acp/session/sess/stream''),
      messageHandlers = [], errorHandlers = [], requestHandlers = Map.empty,
      requestId = 1, promises = 1, pendingRequests = [IdNum 1 \<mapsto> 1], settled = [],
      posted = [(js ''http://127.0.0.1:3284/acp/session/sess/message'',
                 \<lparr>jsonrpc = js ''2.0'', m_id = Some (IdNum 1), m_method = Some (js ''initialize''),
                  m_params = None, m_result = None, m_error = None\<rparr>)],
      notified = [], invoked = []\<rparr>"
  by (simp add: client1_def handshake_def new_AcpClient_def connect_def sendRequest_def send_def
      ok_response_def strip_slash_def truthy_def template_def js_def Let_def increment_def
      id_limit_def)

text \<open>The history that takes the counter to its limit.\<close>

lemma ping_fields:
  assumes "truthy (c_sessionId c)"
  shows "pendingRequests (client_step ping c)
           = (pendingRequests c)(IdNum (increment (requestId c)) \<mapsto> promises c + 1)"
    and "settled (client_step ping c) = settled c"
    and "requestId (client_step ping c) = increment (requestId c)"
    and "promises (client_step ping c) = promises c + 1"
    and "c_sessionId (client_step ping c) = c_sessionId c"
  by (simp_all add: ping_def sendRequest_fields [OF assms])

lemma flood_run:
  assumes "truthy (c_sessionId c)" "requestId c \<le> id_limit"
  shows "requestId (client_run (flood n) c) = min (requestId c + int n) id_limit
       \<and> promises (client_run (flood n) c) = promises c + n
       \<and> settled (client_run (flood n) c) = settled c
       \<and> c_sessionId (client_run (flood n) c) = c_sessionId c
       \<and> (0 < n \<longrightarrow> pendingRequests (client_run (flood n) c)
                       (IdNum (min (requestId c + int n) id_limit)) = Some (promises c + n))"
  using assms
proof (induction n arbitrary: c)
  case 0
  then show ?case by (simp add: flood_def)
next
  case (Suc n)
  let ?c1 = "client_step ping c"
  note f = ping_fields [OF Suc.prems(1)]
  have r1: "requestId ?c1 = min (requestId c + 1) id_limit"
    by (simp add: f(3) increment_min [OF Suc.prems(2)])
  have t1: "truthy (c_sessionId ?c1)" using Suc.prems(1) by (simp add: f(5))
  have l1: "requestId ?c1 \<le> id_limit" by (simp add: r1)
  note ih = Suc.IH [OF t1 l1]
  have run: "client_run (flood (Suc n)) c = client_run (flood n) ?c1"
    by (simp add: flood_def)
  have m: "min (requestId ?c1 + int n) id_limit = min (requestId c + int (Suc n)) id_limit"
    using Suc.prems(2) by (simp add: r1 min_def)
  have last: "pendingRequests (client_run (flood n) ?c1)
      (IdNum (min (requestId c + int (Suc n)) id_limit)) = Some (promises c + Suc n)"
  proof (cases n)
    case 0
    then show ?thesis using Suc.prems(2) by (simp add: flood_def f(1) increment_min)
  next
    case (Suc k)
    then have "0 < n" by simp
    with ih have "pendingRequests (client_run (flood n) ?c1)
        (IdNum (min (requestId ?c1 + int n) id_limit)) = Some (promises ?c1 + n)" by blast
    then show ?thesis by (simp only: m f(4)) simp
  qed
  from ih have i1: "requestId (client_run (flood n) ?c1) = min (requestId ?c1 + int n) id_limit"
    by (rule conjunct1)
  from ih have i2: "promises (client_run (flood n) ?c1) = promises ?c1 + n"
    by (rule conjunct1 [OF conjunct2])
  from ih have i3: "settled (client_run (flood n) ?c1) = settled ?c1"
    by (rule conjunct1 [OF conjunct2 [OF conjunct2]])
  from ih have i4: "c_sessionId (client_run (flood n) ?c1) = c_sessionId ?c1"
    by (rule conjunct1 [OF conjunct2 [OF conjunct2 [OF conjunct2]]])
  have g1: "requestId (client_run (flood (Suc n)) c) = min (requestId c + int (Suc n)) id_limit"
    unfolding run i1 by (rule m)
  have g2: "promises (client_run (flood (Suc n)) c) = promises c + Suc n"
    unfolding run i2 by (simp add: f(4))
  have g3: "settled (client_run (flood (Suc n)) c) = settled c"
    unfolding run i3 by (rule f(2))
  have g4: "c_sessionId (client_run (flood (Suc n)) c) = c_sessionId c"
    unfolding run i4 by (rule f(5))
  have g5: "pendingRequests (client_run (flood (Suc n)) c)
      (IdNum (min (requestId c + int (Suc n)) id_limit)) = Some (promises c + Suc n)"
    unfolding run by (rule last)
  from g1 g2 g3 g4 g5 show ?case by blast
qed

lemma past_limit_settled:
  "settled (client_run past_limit (new_AcpClient (js ''http://127.0.0.1:3284/'')))
     = [(IdNum id_limit, nat id_limit + 1, Resolved (Some (JStr (js ''pong'')))),
        (IdNum id_limit, nat id_limit + 2, Resolved (Some (JStr (js ''pong''))))]"
proof -
  let ?N = "nat id_limit"
  define cF where "cF = client_run (flood ?N) client1"
  define cA where "cA = handleMessage answer_limit cF"
  define cB where "cB = client_step ping cA"
  define cC where "cC = handleMessage answer_limit cB"
  have run: "client_run past_limit (new_AcpClient (js ''http://127.0.0.1:3284/'')) = cC"
    by (simp add: past_limit_def client_run_append client1_def [symmetric] cF_def cA_def cB_def
        cC_def)
  have N: "int ?N = id_limit" "0 < ?N" using id_limit_pos by simp_all
  have c1: "truthy (c_sessionId client1)" "requestId client1 \<le> id_limit"
    "requestId client1 = 1" "promises client1 = 1" "settled client1 = []"
    using id_limit_pos by (simp_all add: client1_eval truthy_def js_Nil)
  have mn: "min (requestId client1 + int ?N) id_limit = id_limit"
    by (simp add: c1(3) N(1))
  from flood_run [OF c1(1,2), of ?N] N(2)
  have F: "requestId cF = id_limit" "promises cF = ?N + 1" "settled cF = []"
    "c_sessionId cF = c_sessionId client1"
    "pendingRequests cF (IdNum id_limit) = Some (?N + 1)"
    by (simp_all add: cF_def mn c1)
  have idA: "m_id answer_limit = Some (IdNum id_limit)" by (simp add: answer_limit_def)
  have outA: "(case m_error answer_limit of Some e \<Rightarrow> Rejected (error_text e)
                | None \<Rightarrow> Resolved (m_result answer_limit)) = Resolved (Some (JStr (js ''pong'')))"
    by (simp add: answer_limit_def)
  have A: "settled cA = [(IdNum id_limit, ?N + 1, Resolved (Some (JStr (js ''pong''))))]"
    unfolding cA_def handleMessage_pending [OF idA F(5)] outA by (simp add: F(3))
  have A2: "requestId cA = id_limit" "promises cA = ?N + 1" "truthy (c_sessionId cA)"
    by (simp_all add: cA_def handleMessage_keeps F c1(1))
  note p = ping_fields [OF A2(3)]
  have lim: "increment id_limit = id_limit" by (simp add: increment_def)
  have B: "pendingRequests cB (IdNum id_limit) = Some (?N + 2)" "settled cB = settled cA"
    by (simp_all add: cB_def p A2 lim)
  have C: "settled cC = settled cB @ [(IdNum id_limit, ?N + 2, Resolved (Some (JStr (js ''pong''))))]"
    unfolding cC_def handleMessage_pending [OF idA B(1)] outA by simp
  show ?thesis by (simp only: run C B(2) A) simp
qed

text \<open>
  Claim C5, as the code has it. An inbound envelope whose id is in the pending map settles
  exactly the promise stored under that id and removes the entry: rejected when the envelope
  has an error, with the error's message, which is empty when the error has none, and
  resolved with \<open>result\<close> otherwise. Whatever the client is called with and whatever
  arrives, from its creation on, no promise is settled twice; and as long as the counter of
  request ids is below \<open>2 ^ 53\<close>, no two responses settle the same request id.
\<close>

theorem response_settles_pending_once:
  "(m_id message = Some k \<and> pendingRequests c k = Some p \<longrightarrow>
      handleMessage message c =
        c\<lparr>pendingRequests := (pendingRequests c)(k := None),
          settled := settled c @ [(k, p, case m_error message of
                                           Some e \<Rightarrow> Rejected (case err_message e of
                                                                  None \<Rightarrow> []
                                                                | Some msg \<Rightarrow> msg)
                                         | None \<Rightarrow> Resolved (m_result message))]\<rparr>)
   \<and> distinct (map (\<lambda>x. fst (snd x)) (settled (client_run calls (new_AcpClient url))))
   \<and> (requestId (client_run calls (new_AcpClient url)) < 2 ^ 53 \<longrightarrow>
        distinct (map fst (settled (client_run calls (new_AcpClient url)))))"
proof (intro conjI impI)
  assume "m_id message = Some k \<and> pendingRequests c k = Some p"
  then have a: "m_id message = Some k" "pendingRequests c k = Some p" by simp_all
  from handleMessage_pending [OF a]
  show "handleMessage message c =
        c\<lparr>pendingRequests := (pendingRequests c)(k := None),
          settled := settled c @ [(k, p, case m_error message of
                                           Some e \<Rightarrow> Rejected (case err_message e of
                                                                  None \<Rightarrow> []
                                                                | Some msg \<Rightarrow> msg)
                                         | None \<Rightarrow> Resolved (m_result message))]\<rparr>"
    by (simp add: error_text_def split: option.splits)
next
  have "promises_inv (client_run calls (new_AcpClient url))"
    by (rule pinv_run [OF pinv_new])
  from pinv_parts(4) [OF this]
  show "distinct (map (\<lambda>x. fst (snd x)) (settled (client_run calls (new_AcpClient url))))"
    by (simp add: promise_of_def [abs_def])
next
  assume "requestId (client_run calls (new_AcpClient url)) < 2 ^ 53"
  then have "requestId (client_run calls (new_AcpClient url)) < id_limit"
    by (simp only: id_limit_def)
  from iinv_run [OF iinv_new this]
  show "distinct (map fst (settled (client_run calls (new_AcpClient url))))"
    by (rule iinv_parts(3))
qed

theorem response_settles_pending_once_witness:
  "m_id response1 = Some (IdNum 1)
   \<and> pendingRequests client1 (IdNum 1) = Some 1
   \<and> settled (handleMessage response1 client1)
       = [(IdNum 1, 1, Resolved (Some (JStr (js ''ok''))))]
   \<and> pendingRequests (handleMessage response1 client1) (IdNum 1) = None
   \<and> requestId (client_run (handshake @ [Inbound response1, Inbound response1])
                   (new_AcpClient (js ''http://127.0.0.1:3284/''))) < 2 ^ 53
   \<and> distinct (map fst (settled (client_run (handshake @ [Inbound response1, Inbound response1])
                                   (new_AcpClient (js ''http://127.0.0.1:3284/'')))))
   \<and> distinct (map (\<lambda>x. fst (snd x))
                 (settled (client_run (handshake @ [Inbound response1, Inbound response1])
                                   (new_AcpClient (js ''http://127.0.0.1:3284/'')))))"
proof -
  have a: "m_id response1 = Some (IdNum 1)" by (simp add: response1_def)
  have b: "pendingRequests client1 (IdNum 1) = Some 1" by (simp add: client1_eval)
  note t = response_settles_pending_once [of response1 "IdNum 1" client1 1
      "handshake @ [Inbound response1, Inbound response1]" "js ''http://127.0.0.1:3284/''"]
  from t a b have c: "handleMessage response1 client1 =
        client1\<lparr>pendingRequests := (pendingRequests client1)(IdNum 1 := None),
          settled := settled client1 @ [(IdNum 1, 1, case m_error response1 of
                                           Some e \<Rightarrow> Rejected (case err_message e of
                                                                  None \<Rightarrow> []
                                                                | Some msg \<Rightarrow> msg)
                                         | None \<Rightarrow> Resolved (m_result response1))]\<rparr>"
    by blast
  have d: "settled (handleMessage response1 client1) = [(IdNum 1, 1, Resolved (Some (JStr (js ''ok''))))]"
    "pendingRequests (handleMessage response1 client1) (IdNum 1) = None"
    unfolding c by (simp_all add: client1_eval response1_def)
  have r: "requestId (client_run (handshake @ [Inbound response1, Inbound response1])
                   (new_AcpClient (js ''http://127.0.0.1:3284/''))) < 2 ^ 53"
    by (simp add: client_run_append client1_def [symmetric] handleMessage_keeps client1_eval)
  from t a b d r show ?thesis by blast
qed

text \<open>
  The claim as it was stated fails on a response whose error has no message: the call is
  rejected, not resolved with \<open>result\<close>. And past \<open>2 ^ 53\<close> requests the counter stands
  still, so two responses settle the same request id.
\<close>

theorem error_without_message_rejects:
  "pendingRequests client1 (IdNum 1) = Some 1
   \<and> m_id response_no_message = Some (IdNum 1)
   \<and> m_result response_no_message = Some (JStr (js ''ok''))
   \<and> map_option err_message (m_error response_no_message) = Some None
   \<and> settled (handleMessage response_no_message client1) = [(IdNum 1, 1, Rejected [])]
   \<and> map fst (settled (client_run past_limit (new_AcpClient (js ''http://127.0.0.1:3284/''))))
       = [IdNum id_limit, IdNum id_limit]"
proof -
  have a: "m_id response_no_message = Some (IdNum 1)"
    by (simp add: response_no_message_def response1_def)
  have b: "pendingRequests client1 (IdNum 1) = Some 1" by (simp add: client1_eval)
  have "settled (handleMessage response_no_message client1) = [(IdNum 1, 1, Rejected [])]"
    unfolding handleMessage_pending [OF a b]
    by (simp add: response_no_message_def response1_def error_text_def client1_eval)
  then show ?thesis
    by (simp add: a b past_limit_settled response_no_message_def response1_def)
qed

section \<open>The transport client: no session\<close>

text \<open>
  Claim C8. With no session id (a new client has none; a failed \<open>connect\<close> leaves the
  client as it was; \<open>disconnect\<close> clears it) \<open>sendRequest\<close> and \<open>sendNotification\<close>
  throw \<open>Not connected\<close> and change nothing. \<open>disconnect\<close> settles no promise: it empties
  the pending map.
\<close>

theorem not_connected_without_session:
  "(\<not> truthy (c_sessionId c) \<longrightarrow>
      sendRequest m p r c = (Inl (Error (js ''Not connected'')), c)
      \<and> sendNotification m p r c = (Inl (Error (js ''Not connected'')), c))
   \<and> \<not> truthy (c_sessionId (new_AcpClient url))
   \<and> (\<forall>e. fst (connect r c) = Inl e \<longrightarrow> snd (connect r c) = c)
   \<and> \<not> truthy (c_sessionId (disconnect c))
   \<and> settled (disconnect c) = settled c
   \<and> pendingRequests (disconnect c) = Map.empty"
  by (auto simp: sendRequest_def sendNotification_def new_AcpClient_def truthy_def disconnect_def connect_def
       split: fetch_result.splits sum.splits if_splits)

section \<open>The coordinator: operator commands\<close>

lemma manager1_workstreams:
  "workstreams (manager1 E) w' = (if w' = js ''w'' then
     Some \<lparr>ws_id = js ''w'', ws_name = js ''fix-x'', task = js ''do it'', status = Starting,
       worktreePath = None, branchName = None, acpSessionId = None, createdAt = 0, lastActivity = 0,
       currentActivity = js ''Initializing...'', notifications = [], messageHistory = []\<rparr> else None)"
  by (simp add: manager1_def createWorkstream_begin_def new_WorkstreamManager_def onEvent_def
      Let_def sanitizeName_def slice0_def replace_other_def toLowerCase_ascii_def js_def
      name_char_def)

lemma manager1_fields:
  "delivered (manager1 E) = []" "eventHandlers (manager1 E) = [0]"
  "activeTools (manager1 E) = [js ''w'' \<mapsto> Map.empty]"
  "permissionResolvers (manager1 E) = Map.empty" "pendingPermissions (manager1 E) = Map.empty"
  "resolved (manager1 E) = []" "removals (manager1 E) = []" "clients (manager1 E) = Map.empty"
  "disconnected (manager1 E) = []" "acpSessionIds (manager1 E) = Map.empty"
  "worktreeManager (manager1 E) = Some (new_GitWorktreeManager E (js ''/repo''))"
  by (simp_all add: manager1_def createWorkstream_begin_def new_WorkstreamManager_def
        onEvent_def Let_def)

text \<open>
  Claim C9. A second \<open>stopWorkstream\<close> of the same id, whatever its \<open>cleanup\<close> flag and
  whatever git does, leaves the whole coordinator (the four tables, and also what it has
  emitted, disconnected and removed) as the first call left it. The operation has no
  failing outcome.
\<close>

theorem stopWorkstream_idempotent:
  "stopWorkstream E2 w c2 (stopWorkstream E1 w c1 s) = stopWorkstream E1 w c1 s"
  by (simp add: stopWorkstream_def Let_def split: option.splits sum.splits)

text \<open>
  Claim C10. For an id that is not in the workstream table, \<open>pauseWorkstream\<close> and
  \<open>resumeWorkstream\<close> change nothing but the record of deliveries: every registered
  observer gets one \<open>status_change\<close> event for that id. Neither has a failing outcome.
\<close>

theorem pause_resume_absent:
  "workstreams s w = None \<Longrightarrow>
     pauseWorkstream t w s
       = s\<lparr>delivered := delivered s @ map (\<lambda>h. (h, w, Status_change Paused None)) (eventHandlers s)\<rparr>
   \<and> resumeWorkstream t w s
       = s\<lparr>delivered := delivered s @ map (\<lambda>h. (h, w, Status_change Running None)) (eventHandlers s)\<rparr>
   \<and> workstreams (pauseWorkstream t w s) = workstreams s
   \<and> workstreams (resumeWorkstream t w s) = workstreams s"
  by (simp add: pauseWorkstream_def resumeWorkstream_def updateWorkstream_def emit_def)

theorem pause_resume_absent_witness:
  "workstreams (manager1 failing_env) (js ''ghost'') = None
   \<and> workstreams (pauseWorkstream 5 (js ''ghost'') (manager1 failing_env))
       = workstreams (manager1 failing_env)
   \<and> workstreams (resumeWorkstream 5 (js ''ghost'') (manager1 failing_env))
       = workstreams (manager1 failing_env)
   \<and> delivered (pauseWorkstream 5 (js ''ghost'') (manager1 failing_env))
       = [(0, js ''ghost'', Status_change Paused None)]
   \<and> delivered (resumeWorkstream 5 (js ''ghost'') (manager1 failing_env))
       = [(0, js ''ghost'', Status_change Running None)]"
proof -
  have h: "workstreams (manager1 failing_env) (js ''ghost'') = None"
    by (simp add: manager1_workstreams js_inject)
  have d: "delivered (manager1 failing_env) = []" "eventHandlers (manager1 failing_env) = [0]"
    by (simp_all add: manager1_def createWorkstream_begin_def new_WorkstreamManager_def
        onEvent_def Let_def)
  from pause_resume_absent [OF h, of 5] h d show ?thesis by simp
qed

section \<open>The coordinator: agent text\<close>

lemma no_adjacent_agent_snoc:
  "no_adjacent_agent (ms @ [m]) \<longleftrightarrow>
     no_adjacent_agent ms \<and> (ms = [] \<or> \<not> (role (last ms) = Assistant \<and> role m = Assistant))"
  by (induction ms rule: no_adjacent_agent.induct) auto

lemma no_adjacent_agent_last:
  assumes "no_adjacent_agent ms" "ms \<noteq> []" "role m = role (last ms)"
  shows "no_adjacent_agent (butlast ms @ [m])"
proof -
  from assms(2) have split: "ms = butlast ms @ [last ms]" by simp
  from assms(1) have "no_adjacent_agent (butlast ms @ [last ms])" by (simp only: split [symmetric])
  then show ?thesis using assms(3) by (simp add: no_adjacent_agent_snoc)
qed

lemma workstreams_emit: "workstreams (emit w e s) = workstreams s"
  by (simp add: emit_def)

lemma activeTools_emit: "activeTools (emit w e s) = activeTools s"
  by (simp add: emit_def)

lemma activeTools_updateWorkstream: "activeTools (updateWorkstream w f t s) = activeTools s"
  by (simp add: updateWorkstream_def split: option.splits)

lemma activeTools_addNotification: "activeTools (addNotification w ty ti m u t s) = activeTools s"
  by (simp add: addNotification_def Let_def emit_def split: option.splits)

lemma M1_emit: "M1 (emit w e s) = M1 s"
  by (simp add: M1_def workstreams_emit)

lemma M1_set:
  assumes "M1 s" "no_adjacent_agent (messageHistory ws')"
  shows "M1 (s\<lparr>workstreams := (workstreams s)(w \<mapsto> ws')\<rparr>)"
  using assms unfolding M1_def by (simp split: if_splits)

lemma M1_updateWorkstream:
  assumes "M1 s" "\<And>ws. messageHistory (f ws) = messageHistory ws"
  shows "M1 (updateWorkstream w f t s)"
proof (cases "workstreams s w")
  case None then show ?thesis using assms(1) by (simp add: updateWorkstream_def)
next
  case (Some ws)
  with assms(1) have "no_adjacent_agent (messageHistory ws)" unfolding M1_def by blast
  then have "no_adjacent_agent (messageHistory ((f ws)\<lparr>lastActivity := t\<rparr>))" by (simp add: assms(2))
  from M1_set [OF assms(1) this] Some show ?thesis by (simp add: updateWorkstream_def)
qed

lemma M1_addNotification:
  assumes "M1 s" shows "M1 (addNotification w ty ti m u t s)"
proof (cases "workstreams s w")
  case None then show ?thesis using assms by (simp add: addNotification_def Let_def M1_emit)
next
  case (Some ws)
  with assms have "no_adjacent_agent (messageHistory ws)" unfolding M1_def by blast
  then have "no_adjacent_agent (messageHistory (ws\<lparr>notifications := notifications ws @ [x]\<rparr>))" for x by simp
  from M1_set [OF assms this] Some show ?thesis by (simp add: addNotification_def Let_def M1_emit)
qed

lemma M1_handle_text:
  assumes "M1 s" "workstreams s w = Some ws"
  shows "M1 (handle_text now w ws text s)"
proof -
  from assms have h: "no_adjacent_agent (messageHistory ws)" unfolding M1_def by blast
  show ?thesis
  proof (cases "text = []")
    case True then show ?thesis using assms(1) by (simp add: handle_text_def)
  next
    case False
    show ?thesis
    proof (cases "messageHistory ws \<noteq> [] \<and> role (last (messageHistory ws)) = Assistant")
      case True
      then have "no_adjacent_agent (butlast (messageHistory ws)
          @ [(last (messageHistory ws))\<lparr>content := content (last (messageHistory ws)) @ text\<rparr>])"
        by (intro no_adjacent_agent_last h) simp_all
      then have "M1 (s\<lparr>workstreams := (workstreams s)(w \<mapsto> ws\<lparr>messageHistory :=
          butlast (messageHistory ws)
          @ [(last (messageHistory ws))\<lparr>content := content (last (messageHistory ws)) @ text\<rparr>]\<rparr>)\<rparr>)"
        by (intro M1_set assms(1)) simp
      then show ?thesis using True False
        by (simp add: handle_text_def Let_def M1_updateWorkstream)
    next
      case F2: False
      then have "no_adjacent_agent (messageHistory ws @ [\<lparr>role = Assistant, content = text, timestamp = now 0\<rparr>])"
        using h by (auto simp: no_adjacent_agent_snoc)
      then have "M1 (s\<lparr>workstreams := (workstreams s)(w \<mapsto> ws\<lparr>messageHistory :=
          messageHistory ws @ [\<lparr>role = Assistant, content = text, timestamp = now 0\<rparr>]\<rparr>)\<rparr>)"
        by (intro M1_set assms(1)) simp
      then show ?thesis using F2 False
        by (auto simp: handle_text_def Let_def M1_updateWorkstream M1_emit)
    qed
  qed
qed

lemma M1_handle_others:
  assumes "M1 s"
  shows "M1 (handle_thought now w th s)"
    and "M1 (handle_tool_call now w tid title st s)"
    and "M1 (handle_tool_update w tid st s)"
    and "M1 (handle_permission_request now u w rid d s)"
proof -
  show "M1 (handle_thought now w th s)"
    using assms by (simp add: handle_thought_def M1_updateWorkstream)
  have a: "M1 (s\<lparr>activeTools := x\<rparr>) = M1 s" for x by (simp add: M1_def)
  show "M1 (handle_tool_call now w tid title st s)"
    using assms by (simp add: handle_tool_call_def Let_def M1_emit M1_updateWorkstream a split: option.splits)
  show "M1 (handle_tool_update w tid st s)"
    using assms by (simp add: handle_tool_update_def Let_def M1_emit a split: option.splits)
  show "M1 (handle_permission_request now u w rid d s)"
    using assms by (simp add: handle_permission_request_def M1_emit M1_addNotification M1_updateWorkstream)
qed

lemma M1_deliver: "M1 s \<Longrightarrow> M1 (deliver ev s)"
  by (cases ev)
     (auto simp: deliver_def handleAcpMessage_def M1_handle_text M1_handle_others
        split: sum.splits option.splits tag.splits payload.splits)

lemma M1_deliver_all: "M1 s \<Longrightarrow> M1 (deliver_all evs s)"
  by (induction evs arbitrary: s) (simp_all add: M1_deliver)

text \<open>M1 holds of a new coordinator and is kept by the operator's commands.\<close>

lemma M1_new: "M1 (new_WorkstreamManager E url repo useWt)"
  by (simp add: M1_def new_WorkstreamManager_def)

lemma M1_activeTools: "M1 (s\<lparr>activeTools := x\<rparr>) = M1 s"
  by (simp add: M1_def)

lemma M1_createWorkstream_begin:
  assumes "M1 s" shows "M1 (createWorkstream_begin lower uuid now name tsk s)"
proof -
  have "M1 (s\<lparr>workstreams := (workstreams s)(uuid \<mapsto>
      \<lparr>ws_id = uuid, ws_name = sanitizeName lower name, task = tsk, status = Starting,
       worktreePath = None, branchName = None, acpSessionId = None,
       createdAt = now 0, lastActivity = now 1, currentActivity = js ''Initializing...'',
       notifications = [], messageHistory = []\<rparr>)\<rparr>)"
    by (rule M1_set [OF assms]) simp
  then show ?thesis
    by (simp add: createWorkstream_begin_def Let_def M1_def)
qed

lemma M1_sendPrompt_begin:
  assumes "M1 s" "sendPrompt_begin now w prompt s = Inr s'"
  shows "M1 s'"
proof (cases "workstreams s w")
  case None
  with assms show ?thesis
    by (auto simp: sendPrompt_begin_def Let_def updateWorkstream_def split: if_splits)
next
  case (Some ws)
  with assms(1) have "no_adjacent_agent (messageHistory ws)" unfolding M1_def by blast
  then have "no_adjacent_agent (messageHistory ws @ [\<lparr>role = User, content = prompt, timestamp = now 0\<rparr>])"
    by (simp add: no_adjacent_agent_snoc)
  then have "M1 (s\<lparr>workstreams := (workstreams s)(w \<mapsto>
        ws\<lparr>messageHistory := messageHistory ws
              @ [\<lparr>role = User, content = prompt, timestamp = now 0\<rparr>]\<rparr>)\<rparr>)"
    by (intro M1_set assms(1)) simp
  then have "M1 (updateWorkstream w
        (\<lambda>ws. ws\<lparr>status := Running, currentActivity := js ''Processing...''\<rparr>) (now 1)
        (s\<lparr>workstreams := (workstreams s)(w \<mapsto>
          ws\<lparr>messageHistory := messageHistory ws
                @ [\<lparr>role = User, content = prompt, timestamp = now 0\<rparr>]\<rparr>)\<rparr>))"
    by (rule M1_updateWorkstream) simp
  with assms(2) Some show ?thesis
    by (auto simp: sendPrompt_begin_def Let_def split: if_splits)
qed

lemma M1_operator_commands:
  assumes "M1 s"
  shows "M1 (pauseWorkstream t w s)"
    and "M1 (resumeWorkstream t w s)"
    and "M1 (stopWorkstream E w cleanup s)"
    and "respondToPermission t w opt s = Inr s' \<Longrightarrow> M1 s'"
proof -
  show "M1 (pauseWorkstream t w s)"
    using assms by (simp add: pauseWorkstream_def M1_emit M1_updateWorkstream)
  show "M1 (resumeWorkstream t w s)"
    using assms by (simp add: resumeWorkstream_def M1_emit M1_updateWorkstream)
  have "workstreams (stopWorkstream E w cleanup s) = (workstreams s)(w := None)"
    by (simp add: stopWorkstream_def Let_def split: option.splits sum.splits)
  with assms show "M1 (stopWorkstream E w cleanup s)"
    by (simp add: M1_def split: if_splits)
  assume r: "respondToPermission t w opt s = Inr s'"
  have "M1 (s\<lparr>resolved := a, permissionResolvers := b, pendingPermissions := c\<rparr>)" for a b c
    using assms by (simp add: M1_def)
  with r show "M1 s'"
    by (auto simp: respondToPermission_def M1_updateWorkstream split: option.splits)
qed

text \<open>What one chunk does.\<close>

lemma deliver_chunk:
  assumes "chunk_of message = Some text" "workstreams s w = Some ws"
  shows "deliver (now, uuid, w, message) s = handle_text now w ws text s"
  using assms
  by (auto simp: chunk_of_def deliver_def handleAcpMessage_def
      split: sum.splits option.splits tag.splits payload.splits)

lemma deliver_absent: "workstreams s w = None \<Longrightarrow> deliver (now, uuid, w, message) s = s"
  by (simp add: deliver_def handleAcpMessage_def split: sum.splits)

lemma deliver_empty_chunk:
  assumes "chunk_of message = Some []"
  shows "deliver (now, uuid, w, message) s = s"
proof (cases "workstreams s w")
  case None then show ?thesis by (rule deliver_absent)
next
  case (Some ws)
  from deliver_chunk [OF assms Some] show ?thesis by (simp add: handle_text_def)
qed

lemma handle_text_new:
  assumes "workstreams s w = Some ws" "text \<noteq> []"
    "messageHistory ws = [] \<or> role (last (messageHistory ws)) \<noteq> Assistant"
  shows "handle_text now w ws text s =
     s\<lparr>workstreams := (workstreams s)(w \<mapsto>
          ws\<lparr>messageHistory := messageHistory ws
                 @ [\<lparr>role = Assistant, content = text, timestamp = now 0\<rparr>],
             currentActivity := slice0 100 text, lastActivity := now 1\<rparr>),
       delivered := delivered s
          @ map (\<lambda>h. (h, w, Message_event \<lparr>role = Assistant, content = text, timestamp = now 0\<rparr>))
              (eventHandlers s)\<rparr>"
  using assms by (auto simp: handle_text_def Let_def updateWorkstream_def emit_def)

lemma handle_text_append:
  assumes "workstreams s w = Some ws" "text \<noteq> []"
    "messageHistory ws \<noteq> []" "role (last (messageHistory ws)) = Assistant"
  shows "handle_text now w ws text s =
     s\<lparr>workstreams := (workstreams s)(w \<mapsto>
          ws\<lparr>messageHistory := butlast (messageHistory ws)
                 @ [(last (messageHistory ws))\<lparr>content := content (last (messageHistory ws)) @ text\<rparr>],
             currentActivity := slice0 100 text, lastActivity := now 0\<rparr>)\<rparr>"
  using assms by (auto simp: handle_text_def Let_def updateWorkstream_def emit_def)

lemma chunk_history:
  assumes "workstreams s w = Some ws" "chunk_of message = Some text" "text \<noteq> []"
  shows "map_option messageHistory (workstreams (deliver (now, uuid, w, message) s) w)
     = Some (if messageHistory ws \<noteq> [] \<and> role (last (messageHistory ws)) = Assistant
             then butlast (messageHistory ws)
                  @ [(last (messageHistory ws))\<lparr>content := content (last (messageHistory ws)) @ text\<rparr>]
             else messageHistory ws @ [\<lparr>role = Assistant, content = text, timestamp = now 0\<rparr>])"
proof (cases "messageHistory ws \<noteq> [] \<and> role (last (messageHistory ws)) = Assistant")
  case True
  then show ?thesis
    by (simp add: deliver_chunk [OF assms(2,1)] handle_text_append [OF assms(1,3)])
next
  case False
  then have "messageHistory ws = [] \<or> role (last (messageHistory ws)) \<noteq> Assistant" by blast
  from handle_text_new [OF assms(1,3) this, of now] False show ?thesis
    by (auto simp: deliver_chunk [OF assms(2,1)])
qed

lemma hello_world:
  assumes ws: "workstreams s w = Some ws"
    and h: "messageHistory ws = [] \<or> role (last (messageHistory ws)) \<noteq> Assistant"
    and m: "chunk_of m1 = Some (js ''Hel'')" "chunk_of m2 = Some (js ''lo '')"
           "chunk_of m3 = Some (js ''world'')"
  shows "map_option messageHistory
           (workstreams (deliver_all [(n1, u1, w, m1), (n2, u2, w, m2), (n3, u3, w, m3)] s) w)
         = Some (messageHistory ws
                 @ [\<lparr>role = Assistant, content = js ''Hello world'', timestamp = n1 0\<rparr>])"
    and "delivered (deliver_all [(n1, u1, w, m1), (n2, u2, w, m2), (n3, u3, w, m3)] s)
         = delivered s
           @ map (\<lambda>h. (h, w, Message_event \<lparr>role = Assistant, content = js ''Hel'', timestamp = n1 0\<rparr>))
               (eventHandlers s)"
proof -
  define msg where "msg c = \<lparr>role = Assistant, content = c, timestamp = n1 0\<rparr>" for c :: js_string
  define s1 where "s1 = deliver (n1, u1, w, m1) s"
  define s2 where "s2 = deliver (n2, u2, w, m2) s1"
  define s3 where "s3 = deliver (n3, u3, w, m3) s2"
  have ne: "js ''Hel'' \<noteq> []" "js ''lo '' \<noteq> []" "js ''world'' \<noteq> []"
    by (simp_all add: js_Nil)
  have e1: "s1 = s\<lparr>workstreams := (workstreams s)(w \<mapsto>
          ws\<lparr>messageHistory := messageHistory ws @ [msg (js ''Hel'')],
             currentActivity := slice0 100 (js ''Hel''), lastActivity := n1 1\<rparr>),
       delivered := delivered s @ map (\<lambda>h. (h, w, Message_event (msg (js ''Hel'')))) (eventHandlers s)\<rparr>"
    unfolding s1_def msg_def deliver_chunk [OF m(1) ws]
    by (rule handle_text_new [OF ws ne(1) h])
  define ws1 where "ws1 = ws\<lparr>messageHistory := messageHistory ws @ [msg (js ''Hel'')],
             currentActivity := slice0 100 (js ''Hel''), lastActivity := n1 1\<rparr>"
  have w1: "workstreams s1 w = Some ws1" by (simp add: e1 ws1_def)
  have l1: "messageHistory ws1 \<noteq> []" "role (last (messageHistory ws1)) = Assistant"
    by (simp_all add: ws1_def msg_def)
  have e2: "s2 = s1\<lparr>workstreams := (workstreams s1)(w \<mapsto>
          ws1\<lparr>messageHistory := butlast (messageHistory ws1)
                 @ [(last (messageHistory ws1))\<lparr>content := content (last (messageHistory ws1)) @ js ''lo ''\<rparr>],
             currentActivity := slice0 100 (js ''lo ''), lastActivity := n2 0\<rparr>)\<rparr>"
    unfolding s2_def deliver_chunk [OF m(2) w1]
    by (rule handle_text_append [OF w1 ne(2) l1])
  define ws2 where "ws2 = ws1\<lparr>messageHistory := messageHistory ws @ [msg (js ''Hel'' @ js ''lo '')],
             currentActivity := slice0 100 (js ''lo ''), lastActivity := n2 0\<rparr>"
  have w2: "workstreams s2 w = Some ws2" by (simp add: e2 ws2_def ws1_def msg_def)
  have l2: "messageHistory ws2 \<noteq> []" "role (last (messageHistory ws2)) = Assistant"
    by (simp_all add: ws2_def msg_def)
  have e3: "s3 = s2\<lparr>workstreams := (workstreams s2)(w \<mapsto>
          ws2\<lparr>messageHistory := butlast (messageHistory ws2)
                 @ [(last (messageHistory ws2))\<lparr>content := content (last (messageHistory ws2)) @ js ''world''\<rparr>],
             currentActivity := slice0 100 (js ''world''), lastActivity := n3 0\<rparr>)\<rparr>"
    unfolding s3_def deliver_chunk [OF m(3) w2]
    by (rule handle_text_append [OF w2 ne(3) l2])
  have cat: "js ''Hel'' @ js ''lo '' @ js ''world'' = js ''Hello world''" by (simp add: js_def)
  have run: "deliver_all [(n1, u1, w, m1), (n2, u2, w, m2), (n3, u3, w, m3)] s = s3"
    by (simp add: s3_def s2_def s1_def)
  have "map_option messageHistory (workstreams s3 w)
          = Some (messageHistory ws @ [msg (js ''Hel'' @ js ''lo '' @ js ''world'')])"
    by (simp add: e3 ws2_def msg_def)
  then show "map_option messageHistory
           (workstreams (deliver_all [(n1, u1, w, m1), (n2, u2, w, m2), (n3, u3, w, m3)] s) w)
         = Some (messageHistory ws
                 @ [\<lparr>role = Assistant, content = js ''Hello world'', timestamp = n1 0\<rparr>])"
    by (simp only: run cat msg_def)
  have "delivered s3 = delivered s1" by (simp add: e3 e2)
  then show "delivered (deliver_all [(n1, u1, w, m1), (n2, u2, w, m2), (n3, u3, w, m3)] s)
         = delivered s
           @ map (\<lambda>h. (h, w, Message_event \<lparr>role = Assistant, content = js ''Hel'', timestamp = n1 0\<rparr>))
               (eventHandlers s)"
    unfolding run by (simp add: e1 msg_def)
qed

lemma parse_chunk:
  "chunk_of (agent_message_chunk t) = Some (if truthy t then the t else [])"
  by (simp add: chunk_of_def parseSessionUpdate_def agent_message_chunk_def notification_def
      chunk_text_def js_inject)

text \<open>
  Claim C2, as the code has it. M1 is kept by every inbound event. A chunk with text is
  appended to the last message when that is the agent's, and otherwise becomes a new agent
  message; a chunk whose text is empty or absent changes nothing. The chunks \<open>Hel\<close>,
  \<open>lo \<close> and \<open>world\<close>, delivered to a workstream whose history does not end with an agent
  message, add one agent message \<open>Hello world\<close>, and each observer gets one \<open>message\<close>
  event, for the first chunk.
\<close>

theorem agent_chunks_coalesce:
  "(M1 s \<longrightarrow> M1 (deliver_all evs s))
   \<and> (workstreams s w = Some ws \<and> chunk_of message = Some chunk \<and> chunk \<noteq> [] \<longrightarrow>
        map_option messageHistory (workstreams (deliver (now, uuid, w, message) s) w)
          = Some (if messageHistory ws \<noteq> [] \<and> role (last (messageHistory ws)) = Assistant
                  then butlast (messageHistory ws)
                       @ [(last (messageHistory ws))\<lparr>content := content (last (messageHistory ws)) @ chunk\<rparr>]
                  else messageHistory ws @ [\<lparr>role = Assistant, content = chunk, timestamp = now 0\<rparr>]))
   \<and> (chunk_of message = Some [] \<longrightarrow> deliver (now, uuid, w, message) s = s)
   \<and> (workstreams s w = Some ws
        \<and> (messageHistory ws = [] \<or> role (last (messageHistory ws)) \<noteq> Assistant)
        \<and> chunk_of m1 = Some (js ''Hel'') \<and> chunk_of m2 = Some (js ''lo '')
        \<and> chunk_of m3 = Some (js ''world'') \<longrightarrow>
        map_option messageHistory
           (workstreams (deliver_all [(n1, u1, w, m1), (n2, u2, w, m2), (n3, u3, w, m3)] s) w)
         = Some (messageHistory ws
                 @ [\<lparr>role = Assistant, content = js ''Hello world'', timestamp = n1 0\<rparr>])
        \<and> delivered (deliver_all [(n1, u1, w, m1), (n2, u2, w, m2), (n3, u3, w, m3)] s)
         = delivered s
           @ map (\<lambda>h. (h, w, Message_event \<lparr>role = Assistant, content = js ''Hel'', timestamp = n1 0\<rparr>))
               (eventHandlers s))"
proof (intro conjI impI)
  assume "M1 s" then show "M1 (deliver_all evs s)" by (rule M1_deliver_all)
next
  assume "workstreams s w = Some ws \<and> chunk_of message = Some chunk \<and> chunk \<noteq> []"
  then show "map_option messageHistory (workstreams (deliver (now, uuid, w, message) s) w)
          = Some (if messageHistory ws \<noteq> [] \<and> role (last (messageHistory ws)) = Assistant
                  then butlast (messageHistory ws)
                       @ [(last (messageHistory ws))\<lparr>content := content (last (messageHistory ws)) @ chunk\<rparr>]
                  else messageHistory ws @ [\<lparr>role = Assistant, content = chunk, timestamp = now 0\<rparr>])"
    by (intro chunk_history) simp_all
next
  assume "chunk_of message = Some []"
  then show "deliver (now, uuid, w, message) s = s" by (rule deliver_empty_chunk)
next
  assume a: "workstreams s w = Some ws
        \<and> (messageHistory ws = [] \<or> role (last (messageHistory ws)) \<noteq> Assistant)
        \<and> chunk_of m1 = Some (js ''Hel'') \<and> chunk_of m2 = Some (js ''lo '')
        \<and> chunk_of m3 = Some (js ''world'')"
  then have a1: "workstreams s w = Some ws"
    and a2: "messageHistory ws = [] \<or> role (last (messageHistory ws)) \<noteq> Assistant"
    and a3: "chunk_of m1 = Some (js ''Hel'')" and a4: "chunk_of m2 = Some (js ''lo '')"
    and a5: "chunk_of m3 = Some (js ''world'')"
    by simp_all
  show "map_option messageHistory
           (workstreams (deliver_all [(n1, u1, w, m1), (n2, u2, w, m2), (n3, u3, w, m3)] s) w)
         = Some (messageHistory ws
                 @ [\<lparr>role = Assistant, content = js ''Hello world'', timestamp = n1 0\<rparr>])"
    by (rule hello_world(1) [OF a1 a2 a3 a4 a5])
  show "delivered (deliver_all [(n1, u1, w, m1), (n2, u2, w, m2), (n3, u3, w, m3)] s)
         = delivered s
           @ map (\<lambda>h. (h, w, Message_event \<lparr>role = Assistant, content = js ''Hel'', timestamp = n1 0\<rparr>))
               (eventHandlers s)"
    by (rule hello_world(2) [OF a1 a2 a3 a4 a5])
qed

theorem agent_chunks_coalesce_witness:
  "M1 (manager1 failing_env)
   \<and> M1 (deliver_all [(still, js ''u'', js ''w'', agent_message_chunk (Some (js ''Hel'')))]
          (manager1 failing_env))
   \<and> map_option messageHistory
        (workstreams (deliver (still, js ''u'', js ''w'', agent_message_chunk (Some (js ''Hel'')))
                       (manager1 failing_env)) (js ''w''))
       = Some [\<lparr>role = Assistant, content = js ''Hel'', timestamp = 0\<rparr>]
   \<and> deliver (still, js ''u'', js ''w'', agent_message_chunk None) (manager1 failing_env)
       = manager1 failing_env
   \<and> map_option messageHistory
        (workstreams (deliver_all
            [(still, js ''u'', js ''w'', agent_message_chunk (Some (js ''Hel''))),
             (still, js ''u'', js ''w'', agent_message_chunk (Some (js ''lo ''))),
             (still, js ''u'', js ''w'', agent_message_chunk (Some (js ''world'')))]
            (manager1 failing_env)) (js ''w''))
       = Some [\<lparr>role = Assistant, content = js ''Hello world'', timestamp = 0\<rparr>]
   \<and> delivered (deliver_all
            [(still, js ''u'', js ''w'', agent_message_chunk (Some (js ''Hel''))),
             (still, js ''u'', js ''w'', agent_message_chunk (Some (js ''lo ''))),
             (still, js ''u'', js ''w'', agent_message_chunk (Some (js ''world'')))]
            (manager1 failing_env))
       = [(0, js ''w'', Message_event \<lparr>role = Assistant, content = js ''Hel'', timestamp = 0\<rparr>)]"
proof -
  let ?s = "manager1 failing_env"
  let ?ws = "\<lparr>ws_id = js ''w'', ws_name = js ''fix-x'', task = js ''do it'', status = Starting,
       worktreePath = None, branchName = None, acpSessionId = None, createdAt = 0, lastActivity = 0,
       currentActivity = js ''Initializing...'', notifications = [], messageHistory = []\<rparr>"
  have ws: "workstreams ?s (js ''w'') = Some ?ws" by (simp add: manager1_workstreams)
  have m1: "M1 ?s" by (simp add: M1_def manager1_workstreams)
  have c: "chunk_of (agent_message_chunk (Some (js ''Hel''))) = Some (js ''Hel'')"
    "chunk_of (agent_message_chunk (Some (js ''lo ''))) = Some (js ''lo '')"
    "chunk_of (agent_message_chunk (Some (js ''world''))) = Some (js ''world'')"
    "chunk_of (agent_message_chunk None) = Some []"
    by (simp_all add: parse_chunk truthy_def js_Nil)
  have ne: "js ''Hel'' \<noteq> []" by (simp add: js_Nil)
  note t = agent_chunks_coalesce [where s = ?s and w = "js ''w''" and ws = ?ws and now = still
      and ?n1.0 = still and uuid = "js ''u''"]
  from t [where evs = "[(still, js ''u'', js ''w'', agent_message_chunk (Some (js ''Hel'')))]"] m1
  have 1: "M1 (deliver_all [(still, js ''u'', js ''w'', agent_message_chunk (Some (js ''Hel'')))] ?s)"
    by blast
  from t [where message = "agent_message_chunk (Some (js ''Hel''))" and chunk = "js ''Hel''"] ws c ne
  have 2: "map_option messageHistory
        (workstreams (deliver (still, js ''u'', js ''w'', agent_message_chunk (Some (js ''Hel''))) ?s)
           (js ''w''))
       = Some [\<lparr>role = Assistant, content = js ''Hel'', timestamp = 0\<rparr>]"
    by (simp add: still_def)
  from t [where message = "agent_message_chunk None"] c
  have 3: "deliver (still, js ''u'', js ''w'', agent_message_chunk None) ?s = ?s" by blast
  from t [where ?m1.0 = "agent_message_chunk (Some (js ''Hel''))"
      and ?m2.0 = "agent_message_chunk (Some (js ''lo ''))"
      and ?m3.0 = "agent_message_chunk (Some (js ''world''))"
      and ?u1.0 = "js ''u''" and ?u2.0 = "js ''u''" and ?u3.0 = "js ''u''"
      and ?n2.0 = still and ?n3.0 = still] ws c
  have 4: "map_option messageHistory
        (workstreams (deliver_all
            [(still, js ''u'', js ''w'', agent_message_chunk (Some (js ''Hel''))),
             (still, js ''u'', js ''w'', agent_message_chunk (Some (js ''lo ''))),
             (still, js ''u'', js ''w'', agent_message_chunk (Some (js ''world'')))] ?s) (js ''w''))
       = Some [\<lparr>role = Assistant, content = js ''Hello world'', timestamp = 0\<rparr>]"
    and 5: "delivered (deliver_all
            [(still, js ''u'', js ''w'', agent_message_chunk (Some (js ''Hel''))),
             (still, js ''u'', js ''w'', agent_message_chunk (Some (js ''lo ''))),
             (still, js ''u'', js ''w'', agent_message_chunk (Some (js ''world'')))] ?s)
       = [(0, js ''w'', Message_event \<lparr>role = Assistant, content = js ''Hel'', timestamp = 0\<rparr>)]"
    by (simp_all add: still_def manager1_fields)
  from m1 1 2 3 4 5 show ?thesis by blast
qed

text \<open>
  The claim as it was stated fails on a chunk with empty text: delivered to a workstream
  whose history is empty, it creates no message.
\<close>

theorem empty_chunk_creates_no_message:
  "chunk_of (agent_message_chunk (Some [])) = Some []
   \<and> map_option messageHistory (workstreams (manager1 failing_env) (js ''w'')) = Some []
   \<and> map_option messageHistory
        (workstreams (deliver (still, js ''u'', js ''w'', agent_message_chunk (Some []))
                       (manager1 failing_env)) (js ''w'')) = Some []"
  by (simp add: parse_chunk truthy_def deliver_empty_chunk manager1_workstreams)

section \<open>The coordinator: permission responses\<close>

text \<open>
  Claim C3, as the code has it. \<open>respondToPermission\<close> throws exactly when the workstream
  has no resolver, and then \<open>No pending permission request for this workstream\<close>. With a
  resolver, it calls the resolver once with \<open>{outcome: {selected: {optionId}}}\<close>, deletes
  the resolver and the pending record of that workstream (so P1 is kept), and sets the
  workstream to \<open>running\<close> when the table still has it; when the table has it no longer,
  the table stays as it is. No other workstream changes.
\<close>

theorem respondToPermission_spec:
  "((\<exists>e. respondToPermission t w opt s = Inl e) \<longleftrightarrow> permissionResolvers s w = None)
   \<and> (permissionResolvers s w = None \<longrightarrow>
        respondToPermission t w opt s
          = Inl (Error (js ''No pending permission request for this workstream'')))
   \<and> (\<forall>resolver. permissionResolvers s w = Some resolver \<longrightarrow>
        (\<exists>s'. respondToPermission t w opt s = Inr s'
           \<and> resolved s' = resolved s
                @ [(resolver, JObj [(js ''outcome'',
                              JObj [(js ''selected'', JObj [(js ''optionId'', JStr opt)])])])]
           \<and> permissionResolvers s' = (permissionResolvers s)(w := None)
           \<and> pendingPermissions s' = (pendingPermissions s)(w := None)
           \<and> (P1 s \<longrightarrow> P1 s')
           \<and> (\<forall>ws. workstreams s w = Some ws \<longrightarrow>
                 workstreams s' w
                   = Some (ws\<lparr>status := Running, currentActivity := js ''Continuing...'',
                              lastActivity := t\<rparr>))
           \<and> (workstreams s w = None \<longrightarrow> workstreams s' w = None)
           \<and> (\<forall>w'. w' \<noteq> w \<longrightarrow> workstreams s' w' = workstreams s w')))"
  by (auto simp: respondToPermission_def updateWorkstream_def P1_def permission_response_def
      split: option.splits)

lemma waiting1_eval:
  "permissionResolvers (waiting1 E) = [js ''w'' \<mapsto> 7]"
  "map_option pp_requestId (pendingPermissions (waiting1 E) (js ''w'')) = Some (Some (IdNum 42))"
  "resolved (waiting1 E) = []"
  "map_option status (workstreams (waiting1 E) (js ''w'')) = Some Waiting"
  by (simp_all add: waiting1_def request_permission_handler_def permission_request_def
      permission_title_def Let_def updateWorkstream_def addNotification_def emit_def
      manager1_workstreams manager1_fields)

text \<open>
  \<open>stopWorkstream\<close> deletes the workstream, its session id and its tools, and leaves the
  two permission maps alone: a workstream stopped while it waits keeps its resolver.
\<close>

lemma stopped_waiting_eval:
  "permissionResolvers (stopWorkstream E (js ''w'') False (waiting1 E)) = [js ''w'' \<mapsto> 7]"
  "workstreams (stopWorkstream E (js ''w'') False (waiting1 E)) = Map.empty"
  "resolved (stopWorkstream E (js ''w'') False (waiting1 E)) = []"
proof -
  have w: "workstreams (waiting1 E) w' = None" if "w' \<noteq> js ''w''" for w'
    using that
    by (simp add: waiting1_def request_permission_handler_def permission_request_def
        permission_title_def Let_def updateWorkstream_def addNotification_def emit_def
        manager1_workstreams manager1_fields)
  show "permissionResolvers (stopWorkstream E (js ''w'') False (waiting1 E)) = [js ''w'' \<mapsto> 7]"
    by (simp add: stopWorkstream_def Let_def waiting1_eval split: option.splits)
  show "resolved (stopWorkstream E (js ''w'') False (waiting1 E)) = []"
    by (simp add: stopWorkstream_def Let_def waiting1_eval split: option.splits)
  show "workstreams (stopWorkstream E (js ''w'') False (waiting1 E)) = Map.empty"
  proof
    fix w'
    show "workstreams (stopWorkstream E (js ''w'') False (waiting1 E)) w' = Map.empty w'"
      using w [of w'] by (simp add: stopWorkstream_def Let_def split: option.splits)
  qed
qed

theorem respondToPermission_spec_witness:
  "permissionResolvers (waiting1 failing_env) (js ''w'') = Some 7
   \<and> permissionResolvers (waiting1 failing_env) (js ''ghost'') = None
   \<and> respondToPermission 1 (js ''ghost'') (js ''a'') (waiting1 failing_env)
       = Inl (Error (js ''No pending permission request for this workstream''))
   \<and> P1 (waiting1 failing_env)
   \<and> map_option status (workstreams (waiting1 failing_env) (js ''w'')) = Some Waiting
   \<and> (\<exists>s'. respondToPermission 1 (js ''w'') (js ''r'') (waiting1 failing_env) = Inr s'
         \<and> resolved s' = [(7, JObj [(js ''outcome'', JObj [(js ''selected'',
                                  JObj [(js ''optionId'', JStr (js ''r''))])])])]
         \<and> permissionResolvers s' (js ''w'') = None
         \<and> pendingPermissions s' (js ''w'') = None
         \<and> P1 s'
         \<and> map_option status (workstreams s' (js ''w'')) = Some Running)
   \<and> workstreams (stopWorkstream failing_env (js ''w'') False (waiting1 failing_env)) (js ''w'') = None
   \<and> permissionResolvers (stopWorkstream failing_env (js ''w'') False (waiting1 failing_env)) (js ''w'')
       = Some 7
   \<and> (\<exists>s'. respondToPermission 1 (js ''w'') (js ''a'')
               (stopWorkstream failing_env (js ''w'') False (waiting1 failing_env)) = Inr s'
         \<and> workstreams s' (js ''w'') = None)"
proof -
  let ?s = "waiting1 failing_env"
  let ?z = "stopWorkstream failing_env (js ''w'') False (waiting1 failing_env)"
  have r: "permissionResolvers ?s (js ''w'') = Some 7" by (simp add: waiting1_eval)
  have g: "permissionResolvers ?s (js ''ghost'') = None" by (simp add: waiting1_eval js_inject)
  have p1: "P1 ?s"
    unfolding P1_def
  proof
    fix w'
    show "(pendingPermissions ?s w' = None) = (permissionResolvers ?s w' = None)"
      by (simp add: waiting1_def request_permission_handler_def permission_request_def
        permission_title_def Let_def updateWorkstream_def addNotification_def emit_def
        manager1_workstreams manager1_fields)
  qed
  obtain ws where ws: "workstreams ?s (js ''w'') = Some ws" "status ws = Waiting"
    using waiting1_eval(4) [of failing_env] by (cases "workstreams ?s (js ''w'')") auto
  from respondToPermission_spec [of 1 "js ''ghost''" "js ''a''" ?s] g
  have 1: "respondToPermission 1 (js ''ghost'') (js ''a'') ?s
       = Inl (Error (js ''No pending permission request for this workstream''))" by blast
  from respondToPermission_spec [of 1 "js ''w''" "js ''r''" ?s] r p1 ws(1)
  obtain s' where s': "respondToPermission 1 (js ''w'') (js ''r'') ?s = Inr s'"
    "resolved s' = resolved ?s
       @ [(7, JObj [(js ''outcome'', JObj [(js ''selected'', JObj [(js ''optionId'', JStr (js ''r''))])])])]"
    "permissionResolvers s' = (permissionResolvers ?s)(js ''w'' := None)"
    "pendingPermissions s' = (pendingPermissions ?s)(js ''w'' := None)"
    "P1 s'"
    "workstreams s' (js ''w'')
       = Some (ws\<lparr>status := Running, currentActivity := js ''Continuing...'', lastActivity := 1\<rparr>)"
    by blast
  have A: "\<exists>s'. respondToPermission 1 (js ''w'') (js ''r'') ?s = Inr s'
         \<and> resolved s' = [(7, JObj [(js ''outcome'', JObj [(js ''selected'',
                                  JObj [(js ''optionId'', JStr (js ''r''))])])])]
         \<and> permissionResolvers s' (js ''w'') = None
         \<and> pendingPermissions s' (js ''w'') = None
         \<and> P1 s'
         \<and> map_option status (workstreams s' (js ''w'')) = Some Running"
    using s' by (intro exI [of _ s']) (simp add: waiting1_eval)
  have zr: "permissionResolvers ?z (js ''w'') = Some 7" by (simp add: stopped_waiting_eval)
  have zw: "workstreams ?z (js ''w'') = None" by (simp add: stopped_waiting_eval)
  from respondToPermission_spec [of 1 "js ''w''" "js ''a''" ?z] zr zw
  obtain z' where z': "respondToPermission 1 (js ''w'') (js ''a'') ?z = Inr z'"
    "workstreams z' (js ''w'') = None" by blast
  then have B: "\<exists>s'. respondToPermission 1 (js ''w'') (js ''a'') ?z = Inr s'
         \<and> workstreams s' (js ''w'') = None" by blast
  from r g 1 p1 A zw zr B waiting1_eval(4) [of failing_env] show ?thesis by blast
qed

text \<open>
  The claim as it was stated fails after \<open>stopWorkstream\<close>: the workstream \<open>w\<close> was stopped
  while it waited for the operator, its resolver (7) is still registered, and
  \<open>respondToPermission\<close> calls the resolver and returns with a table that holds no
  workstream at all, so no state was set to \<open>running\<close>.
\<close>

theorem respond_after_stop_sets_no_state:
  "permissionResolvers (stopWorkstream failing_env (js ''w'') False (waiting1 failing_env)) (js ''w'')
     = Some 7
   \<and> workstreams (stopWorkstream failing_env (js ''w'') False (waiting1 failing_env)) = Map.empty
   \<and> (\<exists>s'. respondToPermission 1 (js ''w'') (js ''a'')
               (stopWorkstream failing_env (js ''w'') False (waiting1 failing_env)) = Inr s'
         \<and> workstreams s' = Map.empty
         \<and> resolved s' = [(7, JObj [(js ''outcome'', JObj [(js ''selected'',
                                  JObj [(js ''optionId'', JStr (js ''a''))])])])])"
  by (simp add: respondToPermission_def stopped_waiting_eval updateWorkstream_def
      permission_response_def)

section \<open>The scenarios, evaluated\<close>

theorem not_connected_without_session_witness:
  "\<not> truthy (c_sessionId (new_AcpClient (js ''http://h/'')))
   \<and> sendRequest (js ''initialize'') None (ok_response None) (new_AcpClient (js ''http://h/''))
       = (Inl (Error (js ''Not connected'')), new_AcpClient (js ''http://h/''))
   \<and> sendNotification (js ''cancel'') None (ok_response None) (new_AcpClient (js ''http://h/''))
       = (Inl (Error (js ''Not connected'')), new_AcpClient (js ''http://h/''))
   \<and> fst (connect unavailable (new_AcpClient (js ''http://h/'')))
       = Inl (Error (js ''Failed to create session: Service Unavailable''))
   \<and> snd (connect unavailable (new_AcpClient (js ''http://h/''))) = new_AcpClient (js ''http://h/'')
   \<and> truthy (c_sessionId client1)
   \<and> \<not> truthy (c_sessionId (disconnect client1))
   \<and> sendRequest (js ''session/new'') None (ok_response None) (disconnect client1)
       = (Inl (Error (js ''Not connected'')), disconnect client1)
   \<and> pendingRequests client1 (IdNum 1) = Some 1
   \<and> pendingRequests (disconnect client1) = Map.empty
   \<and> settled (disconnect client1) = settled client1"
proof -
  let ?c = "new_AcpClient (js ''http://h/'')"
  have f: "fst (connect unavailable ?c) = Inl (Error (js ''Failed to create session: Service Unavailable''))"
    by (simp add: connect_def unavailable_def js_def)
  note t0 = not_connected_without_session
      [of ?c "js ''initialize''" None "ok_response None" "js ''http://h/''"]
  note t0n = not_connected_without_session
      [of ?c "js ''cancel''" None "ok_response None" "js ''http://h/''"]
  note t0c = not_connected_without_session
      [of ?c "js ''cancel''" None unavailable "js ''http://h/''"]
  note t1 = not_connected_without_session
      [of "disconnect client1" "js ''session/new''" None "ok_response None" "js ''http://h/''"]
  note t2 = not_connected_without_session
      [of client1 "js ''session/new''" None "ok_response None" "js ''http://h/''"]
  from t0 have 1: "\<not> truthy (c_sessionId ?c)" by blast
  from t0 1 have 2: "sendRequest (js ''initialize'') None (ok_response None) ?c
       = (Inl (Error (js ''Not connected'')), ?c)" by blast
  from t0n 1 have 3: "sendNotification (js ''cancel'') None (ok_response None) ?c
       = (Inl (Error (js ''Not connected'')), ?c)" by blast
  from t0c f have 4: "snd (connect unavailable ?c) = ?c" by blast
  have 5: "truthy (c_sessionId client1)" by (simp add: client1_eval truthy_def js_Nil)
  from t2 have 6: "\<not> truthy (c_sessionId (disconnect client1))"
    and 8: "pendingRequests (disconnect client1) = Map.empty"
    and 9: "settled (disconnect client1) = settled client1" by blast+
  from t1 have "\<not> truthy (c_sessionId (disconnect (disconnect client1)))" by blast
  from t1 6 have 7: "sendRequest (js ''session/new'') None (ok_response None) (disconnect client1)
       = (Inl (Error (js ''Not connected'')), disconnect client1)" by blast
  have 10: "pendingRequests client1 (IdNum 1) = Some 1" by (simp add: client1_eval)
  from 1 2 3 f 4 5 6 7 8 9 10 show ?thesis by blast
qed

lemma running1_eval:
  "workstreams (running1 E) (js ''w'') =
     Some \<lparr>ws_id = js ''w'', ws_name = js ''fix-x'', task = js ''do it'', status = Running,
       worktreePath = Some (js ''/repo/.goose-worktrees/fix-x''), branchName = Some (js ''goose/fix-x''),
       acpSessionId = Some (js ''a1''), createdAt = 0, lastActivity = 0,
       currentActivity = js ''Initializing...'', notifications = [], messageHistory = []\<rparr>"
  "clients (running1 E) (js ''w'') = Some client1"
  "removals (running1 E) = []"
  "disconnected (running1 E) = []"
  "worktreeManager (running1 E) = Some (new_GitWorktreeManager E (js ''/repo''))"
  "acpSessionIds (running1 E) (js ''w'') = Some (js ''a1'')"
  "activeTools (running1 E) (js ''w'') = Some Map.empty"
  by (simp_all add: running1_def updateWorkstream_def manager1_workstreams manager1_fields)

theorem stopWorkstream_idempotent_witness:
  "workstreams (stopWorkstream failing_env_exists (js ''w'') True (running1 failing_env_exists)) (js ''w'') = None
   \<and> clients (stopWorkstream failing_env_exists (js ''w'') True (running1 failing_env_exists)) (js ''w'') = None
   \<and> acpSessionIds (stopWorkstream failing_env_exists (js ''w'') True (running1 failing_env_exists)) (js ''w'') = None
   \<and> activeTools (stopWorkstream failing_env_exists (js ''w'') True (running1 failing_env_exists)) (js ''w'') = None
   \<and> removals (stopWorkstream failing_env_exists (js ''w'') True (running1 failing_env_exists)) = [js ''fix-x'']
   \<and> disconnected (stopWorkstream failing_env_exists (js ''w'') True (running1 failing_env_exists))
       = [disconnect client1]
   \<and> stopWorkstream failing_env_exists (js ''w'') True
        (stopWorkstream failing_env_exists (js ''w'') True (running1 failing_env_exists))
       = stopWorkstream failing_env_exists (js ''w'') True (running1 failing_env_exists)"
proof -
  let ?s = "running1 failing_env_exists"
  have e: "workstreams (stopWorkstream failing_env_exists (js ''w'') True ?s) (js ''w'') = None"
    "clients (stopWorkstream failing_env_exists (js ''w'') True ?s) (js ''w'') = None"
    "acpSessionIds (stopWorkstream failing_env_exists (js ''w'') True ?s) (js ''w'') = None"
    "activeTools (stopWorkstream failing_env_exists (js ''w'') True ?s) (js ''w'') = None"
    "removals (stopWorkstream failing_env_exists (js ''w'') True ?s) = [js ''fix-x'']"
    "disconnected (stopWorkstream failing_env_exists (js ''w'') True ?s) = [disconnect client1]"
    by (simp_all add: stopWorkstream_def Let_def running1_eval truthy_def js_Nil split: sum.splits)
  from stopWorkstream_idempotent [of failing_env_exists "js ''w''" True failing_env_exists True ?s] e
  show ?thesis by simp
qed

section \<open>The coordinator: tools\<close>

lemma T1_activeTools_cong: "activeTools s' = activeTools s \<Longrightarrow> T1 s' = T1 s"
  by (simp add: T1_def)

lemma T1_set:
  assumes "T1 s" "\<forall>i tool. tools' i = Some tool \<longrightarrow> tool_status tool = Some (js ''pending'')"
  shows "T1 (s\<lparr>activeTools := (activeTools s)(w \<mapsto> tools')\<rparr>)"
  unfolding T1_def
proof (intro allI impI)
  fix w' tools i tool
  assume a: "activeTools (s\<lparr>activeTools := (activeTools s)(w \<mapsto> tools')\<rparr>) w' = Some tools"
    and b: "tools i = Some tool"
  show "tool_status tool = Some (js ''pending'')"
  proof (cases "w' = w")
    case True
    with a have "tools = tools'" by simp
    with b assms(2) show ?thesis by blast
  next
    case False
    with a have "activeTools s w' = Some tools" by simp
    with assms(1) b show ?thesis unfolding T1_def by blast
  qed
qed

lemma T1_tools:
  "T1 s \<Longrightarrow> activeTools s w = Some tools \<Longrightarrow> tools i = Some tool
   \<Longrightarrow> tool_status tool = Some (js ''pending'')"
  unfolding T1_def by blast

lemma T1_handle_tool_call:
  assumes "T1 s" "st = Some (js ''pending'')"
  shows "T1 (handle_tool_call now w tid title st s)"
proof -
  have "T1 (case activeTools s w of
              None \<Rightarrow> s
            | Some tools \<Rightarrow>
                s\<lparr>activeTools := (activeTools s)(w \<mapsto>
                     tools(tid \<mapsto> \<lparr>tool_id = tid, tool_title = title, tool_status = st\<rparr>))\<rparr>)"
  proof (cases "activeTools s w")
    case None then show ?thesis using assms(1) by simp
  next
    case (Some tools)
    have "\<forall>i tool. (tools(tid \<mapsto> \<lparr>tool_id = tid, tool_title = title, tool_status = st\<rparr>)) i = Some tool
            \<longrightarrow> tool_status tool = Some (js ''pending'')"
      using T1_tools [OF assms(1) Some] assms(2) by (auto split: if_splits)
    from T1_set [where tools' = "tools(tid \<mapsto> \<lparr>tool_id = tid, tool_title = title, tool_status = st\<rparr>)",
        OF assms(1) this, of w] Some show ?thesis by simp
  qed
  then show ?thesis
    by (simp add: handle_tool_call_def Let_def
        T1_activeTools_cong [OF activeTools_emit] T1_activeTools_cong [OF activeTools_updateWorkstream])
qed

lemma T1_handle_tool_update:
  assumes "T1 s" "st = Some (js ''pending'') \<or> st = Some (js ''completed'') \<or> st = Some (js ''failed'')"
  shows "T1 (handle_tool_update w tid st s)"
proof -
  have "T1 (case activeTools s w of
           None \<Rightarrow> s
         | Some tools \<Rightarrow>
             if truthy tid then
               (case tools tid of
                  None \<Rightarrow> s
                | Some tool \<Rightarrow>
                    if st = Some (js ''completed'') \<or> st = Some (js ''failed'') then
                      s\<lparr>activeTools := (activeTools s)(w \<mapsto> tools(tid := None))\<rparr>
                    else
                      s\<lparr>activeTools := (activeTools s)
                           (w \<mapsto> tools(tid \<mapsto> tool\<lparr>tool_status := st\<rparr>))\<rparr>)
             else s)"
  proof (cases "activeTools s w")
    case None then show ?thesis using assms(1) by simp
  next
    case (Some tools)
    show ?thesis
    proof (cases "tools tid")
      case None then show ?thesis using assms(1) Some by simp
    next
      case (Some tool)
      have r: "\<forall>i tool. (tools(tid := None)) i = Some tool \<longrightarrow> tool_status tool = Some (js ''pending'')"
        using T1_tools [OF assms(1) \<open>activeTools s w = Some tools\<close>] by (auto split: if_splits)
      have u: "\<not> (st = Some (js ''completed'') \<or> st = Some (js ''failed'')) \<Longrightarrow>
          \<forall>i t'. (tools(tid \<mapsto> tool\<lparr>tool_status := st\<rparr>)) i = Some t' \<longrightarrow> tool_status t' = Some (js ''pending'')"
        using T1_tools [OF assms(1) \<open>activeTools s w = Some tools\<close>] assms(2) by (auto split: if_splits)
      note r' = T1_set [where tools' = "tools(tid := None)", OF assms(1) r, of w]
      note u' = T1_set [where tools' = "tools(tid \<mapsto> tool\<lparr>tool_status := st\<rparr>)", OF assms(1) u, of w]
      show ?thesis
        using Some \<open>activeTools s w = Some tools\<close> assms(1) r' u'
        by simp
    qed
  qed
  then show ?thesis
    by (simp add: handle_tool_update_def Let_def T1_activeTools_cong [OF activeTools_emit])
qed

lemma T1_handle_others:
  "T1 (handle_text now w ws text s) = T1 s"
  "T1 (handle_thought now w th s) = T1 s"
  "T1 (handle_permission_request now u w rid d s) = T1 s"
  by (rule T1_activeTools_cong;
      simp add: handle_text_def handle_thought_def handle_permission_request_def Let_def
        activeTools_emit activeTools_updateWorkstream activeTools_addNotification)+

lemma T1_deliver:
  assumes "T1 s" "status_in_range ev"
  shows "T1 (deliver ev s)"
proof -
  obtain now uuid w message where ev: "ev = (now, uuid, w, message)" by (cases ev) auto
  show ?thesis
  proof (cases "parseSessionUpdate message")
    case (Inl e) then show ?thesis using assms(1) by (simp add: ev deliver_def handleAcpMessage_def)
  next
    case (Inr parsed)
    show ?thesis
    proof (cases "workstreams s w")
      case None then show ?thesis using assms(1) Inr by (simp add: ev deliver_def handleAcpMessage_def)
    next
      case (Some ws)
      from assms(2) Inr have rng:
        "\<And>tid title st. data parsed = Some (ToolCallData tid title st) \<Longrightarrow> st = Some (js ''pending'')"
        "\<And>tid st c. data parsed = Some (ToolUpdateData tid st c) \<Longrightarrow>
           st = Some (js ''pending'') \<or> st = Some (js ''completed'') \<or> st = Some (js ''failed'')"
        by (simp_all add: status_in_range_def ev)
      show ?thesis using assms(1) Inr Some rng
        by (auto simp: ev deliver_def handleAcpMessage_def T1_handle_others
              intro!: T1_handle_tool_call T1_handle_tool_update
              split: tag.splits option.splits payload.splits)
    qed
  qed
qed

lemma T1_deliver_all: "T1 s \<Longrightarrow> list_all status_in_range evs \<Longrightarrow> T1 (deliver_all evs s)"
  by (induction evs arbitrary: s) (simp_all add: T1_deliver)

text \<open>T1 holds of a new coordinator and is kept by the operator's commands.\<close>

lemma T1_new: "T1 (new_WorkstreamManager E url repo useWt)"
  by (simp add: T1_def new_WorkstreamManager_def)

lemma T1_createWorkstream_begin:
  assumes "T1 s" shows "T1 (createWorkstream_begin lower uuid now name tsk s)"
proof -
  have "T1 (s\<lparr>activeTools := (activeTools s)(uuid \<mapsto> Map.empty)\<rparr>)"
    by (rule T1_set [OF assms]) simp
  then show ?thesis
    by (simp add: createWorkstream_begin_def Let_def T1_def)
qed

lemma T1_operator_commands:
  assumes "T1 s"
  shows "T1 (pauseWorkstream t w s)"
    and "T1 (resumeWorkstream t w s)"
    and "T1 (stopWorkstream E w cleanup s)"
    and "respondToPermission t w opt s = Inr s' \<Longrightarrow> T1 s'"
    and "sendPrompt_begin now w prompt s = Inr s'' \<Longrightarrow> T1 s''"
proof -
  show "T1 (pauseWorkstream t w s)"
    using assms
    by (simp add: pauseWorkstream_def T1_activeTools_cong [OF activeTools_emit]
        T1_activeTools_cong [OF activeTools_updateWorkstream])
  show "T1 (resumeWorkstream t w s)"
    using assms
    by (simp add: resumeWorkstream_def T1_activeTools_cong [OF activeTools_emit]
        T1_activeTools_cong [OF activeTools_updateWorkstream])
  have eq: "activeTools (stopWorkstream E w cleanup s) = (activeTools s)(w := None)"
    by (simp add: stopWorkstream_def Let_def split: option.splits sum.splits)
  show "T1 (stopWorkstream E w cleanup s)"
    unfolding T1_def
  proof (intro allI impI)
    fix w' tools i tool
    assume a: "activeTools (stopWorkstream E w cleanup s) w' = Some tools" and b: "tools i = Some tool"
    from a have "activeTools s w' = Some tools" by (simp add: eq split: if_splits)
    from T1_tools [OF assms this b] show "tool_status tool = Some (js ''pending'')" .
  qed
  {
    assume r: "respondToPermission t w opt s = Inr s'"
    then have "activeTools s' = activeTools s"
      by (auto simp: respondToPermission_def activeTools_updateWorkstream split: option.splits)
    then have "T1 s' = T1 s" by (rule T1_activeTools_cong)
    with assms show "T1 s'" by simp
  }
  assume r: "sendPrompt_begin now w prompt s = Inr s''"
  then have "activeTools s'' = activeTools s"
    by (auto simp: sendPrompt_begin_def Let_def activeTools_updateWorkstream
        split: if_splits option.splits)
  then have "T1 s'' = T1 s" by (rule T1_activeTools_cong)
  with assms show "T1 s''" by simp
qed

text \<open>What one tool event does.\<close>

lemma deliver_tool_call:
  assumes "tool_call_of message = Some (tid, title, st)" "workstreams s w = Some ws"
  shows "deliver (now, uuid, w, message) s = handle_tool_call now w tid title st s"
  using assms
  by (auto simp: tool_call_of_def deliver_def handleAcpMessage_def
      split: sum.splits option.splits tag.splits payload.splits)

lemma deliver_tool_update:
  assumes "tool_update_of message = Some (tid, st)" "workstreams s w = Some ws"
  shows "deliver (now, uuid, w, message) s = handle_tool_update w tid st s"
  using assms
  by (auto simp: tool_update_of_def deliver_def handleAcpMessage_def
      split: sum.splits option.splits tag.splits payload.splits)

lemma tool_call_inserts:
  assumes "tool_call_of message = Some (tid, title, st)" "workstreams s w = Some ws"
    "activeTools s w = Some tools"
  shows "activeTools (deliver (now, uuid, w, message) s) w
     = Some (tools(tid \<mapsto> \<lparr>tool_id = tid, tool_title = title, tool_status = st\<rparr>))"
  by (simp add: deliver_tool_call [OF assms(1,2)] handle_tool_call_def Let_def
      activeTools_emit activeTools_updateWorkstream assms(3))

lemma tool_update_removes:
  assumes "tool_update_of message = Some (tid, st)" "workstreams s w = Some ws"
    "activeTools s w = Some tools" "truthy tid"
    "st = Some (js ''completed'') \<or> st = Some (js ''failed'')"
  shows "activeTools (deliver (now, uuid, w, message) s) w = Some (tools(tid := None))"
  using assms(3,4,5)
  by (auto simp: deliver_tool_update [OF assms(1,2)] handle_tool_update_def Let_def
      activeTools_emit split: option.splits)

lemma tool_update_keeps:
  assumes "tool_update_of message = Some (tid, st)" "workstreams s w = Some ws"
    "activeTools s w = Some tools" "truthy tid" "tools tid = Some tool"
    "st \<noteq> Some (js ''completed'')" "st \<noteq> Some (js ''failed'')"
  shows "activeTools (deliver (now, uuid, w, message) s) w
     = Some (tools(tid \<mapsto> tool\<lparr>tool_status := st\<rparr>))"
  using assms(3-7)
  by (auto simp: deliver_tool_update [OF assms(1,2)] handle_tool_update_def Let_def
      activeTools_emit split: option.splits)

lemma tool_update_without_id:
  assumes "tool_update_of message = Some (tid, st)" "\<not> truthy tid"
  shows "activeTools (deliver (now, uuid, w, message) s) = activeTools s"
proof (cases "workstreams s w")
  case None
  then show ?thesis by (simp add: deliver_absent)
next
  case (Some ws)
  show ?thesis using assms(2)
    by (simp add: deliver_tool_update [OF assms(1) Some] handle_tool_update_def Let_def
        activeTools_emit split: option.splits)
qed

lemma parse_tool_call: "tool_call_of (tool_call tid title st) = Some (tid, title, st)"
  by (simp add: tool_call_of_def parseSessionUpdate_def tool_call_def notification_def js_inject)

lemma parse_tool_call_update: "tool_update_of (tool_call_update tid st) = Some (tid, st)"
  by (simp add: tool_update_of_def parseSessionUpdate_def tool_call_update_def notification_def
      js_inject)

lemma status_in_range_tool_call:
  "status_in_range (now, uuid, w, tool_call tid title st) \<longleftrightarrow> st = Some (js ''pending'')"
  by (simp add: status_in_range_def parseSessionUpdate_def tool_call_def notification_def js_inject)

lemma status_in_range_tool_call_update:
  "status_in_range (now, uuid, w, tool_call_update tid st) \<longleftrightarrow>
     st = Some (js ''pending'') \<or> st = Some (js ''completed'') \<or> st = Some (js ''failed'')"
  by (simp add: status_in_range_def parseSessionUpdate_def tool_call_update_def notification_def
      js_inject)

lemma T1_manager1: "T1 (manager1 E)"
  by (simp add: T1_def manager1_fields split: if_splits)

text \<open>
  Claim C1, as the code has it. A \<open>tool_call\<close> event inserts the tool with the status the
  event carries, and a \<open>tool_update\<close> with a non-empty id and the status \<open>completed\<close> or
  \<open>failed\<close> removes it. So T1 is kept by every sequence of inbound events in which each
  \<open>tool_call\<close> carries \<open>pending\<close> and each \<open>tool_update\<close> carries \<open>pending\<close>,
  \<open>completed\<close> or \<open>failed\<close>.
\<close>

theorem tool_table_statuses:
  "(T1 s \<and> list_all status_in_range evs \<longrightarrow> T1 (deliver_all evs s))
   \<and> (tool_call_of message = Some (tid, title, st) \<and> workstreams s w = Some ws
        \<and> activeTools s w = Some tools \<longrightarrow>
        activeTools (deliver (now, uuid, w, message) s) w
          = Some (tools(tid \<mapsto> \<lparr>tool_id = tid, tool_title = title, tool_status = st\<rparr>)))
   \<and> (tool_update_of message = Some (tid, st) \<and> workstreams s w = Some ws
        \<and> activeTools s w = Some tools \<and> truthy tid
        \<and> (st = Some (js ''completed'') \<or> st = Some (js ''failed'')) \<longrightarrow>
        activeTools (deliver (now, uuid, w, message) s) w = Some (tools(tid := None)))"
proof (intro conjI impI)
  assume "T1 s \<and> list_all status_in_range evs"
  then show "T1 (deliver_all evs s)" by (simp add: T1_deliver_all)
next
  assume "tool_call_of message = Some (tid, title, st) \<and> workstreams s w = Some ws
        \<and> activeTools s w = Some tools"
  then show "activeTools (deliver (now, uuid, w, message) s) w
          = Some (tools(tid \<mapsto> \<lparr>tool_id = tid, tool_title = title, tool_status = st\<rparr>))"
    by (intro tool_call_inserts) simp_all
next
  assume a: "tool_update_of message = Some (tid, st) \<and> workstreams s w = Some ws
        \<and> activeTools s w = Some tools \<and> truthy tid
        \<and> (st = Some (js ''completed'') \<or> st = Some (js ''failed''))"
  then have a1: "tool_update_of message = Some (tid, st)" and a2: "workstreams s w = Some ws"
    and a3: "activeTools s w = Some tools" and a4: "truthy tid"
    and a5: "st = Some (js ''completed'') \<or> st = Some (js ''failed'')" by simp_all
  show "activeTools (deliver (now, uuid, w, message) s) w = Some (tools(tid := None))"
    by (rule tool_update_removes [OF a1 a2 a3 a4 a5])
qed

theorem tool_table_statuses_witness:
  "T1 (manager1 failing_env)
   \<and> list_all status_in_range
        [(still, js ''u'', js ''w'', tool_call (Some (js ''t1'')) (Some (js ''run'')) (Some (js ''pending''))),
         (still, js ''u'', js ''w'', tool_call_update (Some (js ''t1'')) (Some (js ''completed'')))]
   \<and> T1 (deliver_all
        [(still, js ''u'', js ''w'', tool_call (Some (js ''t1'')) (Some (js ''run'')) (Some (js ''pending''))),
         (still, js ''u'', js ''w'', tool_call_update (Some (js ''t1'')) (Some (js ''completed'')))]
        (manager1 failing_env))
   \<and> activeTools (manager1 failing_env) (js ''w'') = Some Map.empty
   \<and> activeTools (deliver (still, js ''u'', js ''w'',
                     tool_call (Some (js ''t1'')) (Some (js ''run'')) (Some (js ''pending'')))
                   (manager1 failing_env)) (js ''w'')
       = Some [Some (js ''t1'') \<mapsto> \<lparr>tool_id = Some (js ''t1''), tool_title = Some (js ''run''),
                                      tool_status = Some (js ''pending'')\<rparr>]
   \<and> activeTools (deliver (still, js ''u'', js ''w'', tool_call_update (Some (js ''t1'')) (Some (js ''completed'')))
                   (deliver (still, js ''u'', js ''w'',
                     tool_call (Some (js ''t1'')) (Some (js ''run'')) (Some (js ''pending'')))
                   (manager1 failing_env))) (js ''w'')
       = Some Map.empty"
proof -
  let ?s = "manager1 failing_env"
  let ?e1 = "(still, js ''u'', js ''w'', tool_call (Some (js ''t1'')) (Some (js ''run'')) (Some (js ''pending'')))"
  let ?e2 = "(still, js ''u'', js ''w'', tool_call_update (Some (js ''t1'')) (Some (js ''completed'')))"
  let ?ws = "\<lparr>ws_id = js ''w'', ws_name = js ''fix-x'', task = js ''do it'', status = Starting,
       worktreePath = None, branchName = None, acpSessionId = None, createdAt = 0, lastActivity = 0,
       currentActivity = js ''Initializing...'', notifications = [], messageHistory = []\<rparr>"
  let ?tool = "\<lparr>tool_id = Some (js ''t1''), tool_title = Some (js ''run''),
                 tool_status = Some (js ''pending'')\<rparr>"
  have ws: "workstreams ?s (js ''w'') = Some ?ws" by (simp add: manager1_workstreams)
  have at: "activeTools ?s (js ''w'') = Some Map.empty" by (simp add: manager1_fields)
  have rng: "list_all status_in_range [?e1, ?e2]"
    by (simp add: status_in_range_tool_call status_in_range_tool_call_update)
  from tool_table_statuses [of ?s "[?e1, ?e2]"] T1_manager1 rng
  have 1: "T1 (deliver_all [?e1, ?e2] ?s)" by blast
  from tool_table_statuses [where message = "tool_call (Some (js ''t1'')) (Some (js ''run'')) (Some (js ''pending''))"
      and tid = "Some (js ''t1'')" and title = "Some (js ''run'')" and st = "Some (js ''pending'')"
      and s = ?s and w = "js ''w''" and ws = ?ws and tools = Map.empty and now = still
      and uuid = "js ''u''"] parse_tool_call ws at
  have 2: "activeTools (deliver ?e1 ?s) (js ''w'') = Some [Some (js ''t1'') \<mapsto> ?tool]" by blast
  have ws1: "workstreams (deliver ?e1 ?s) (js ''w'')
      = Some (?ws\<lparr>currentActivity := tool_prefix @ js ''run'', lastActivity := 0\<rparr>)"
    by (simp add: deliver_tool_call [OF parse_tool_call ws] handle_tool_call_def Let_def
        updateWorkstream_def emit_def manager1_workstreams manager1_fields template_def still_def)
  have tr: "truthy (Some (js ''t1''))" by (simp add: truthy_def js_Nil)
  from tool_table_statuses [where message = "tool_call_update (Some (js ''t1'')) (Some (js ''completed''))"
      and tid = "Some (js ''t1'')" and st = "Some (js ''completed'')"
      and s = "deliver ?e1 ?s" and w = "js ''w''"
      and ws = "?ws\<lparr>currentActivity := tool_prefix @ js ''run'', lastActivity := 0\<rparr>"
      and tools = "[Some (js ''t1'') \<mapsto> ?tool]" and now = still
      and uuid = "js ''u''"] parse_tool_call_update ws1 2 tr
  have 3: "activeTools (deliver ?e2 (deliver ?e1 ?s)) (js ''w'')
      = Some ([Some (js ''t1'') \<mapsto> ?tool](Some (js ''t1'') := None))" by blast
  from T1_manager1 rng 1 at 2 3 show ?thesis by simp
qed

text \<open>
  The claim as it was stated fails on a \<open>tool_call\<close> that carries \<open>completed\<close>: the tool
  is stored with that status. It fails too on a \<open>tool_update\<close> that carries \<open>in_progress\<close>:
  the tool stays in the table with that status.
\<close>

theorem tool_call_keeps_carried_status:
  "T1 (manager1 failing_env)
   \<and> activeTools (deliver (still, js ''u'', js ''w'',
                     tool_call (Some (js ''t1'')) (Some (js ''run'')) (Some (js ''completed'')))
                   (manager1 failing_env)) (js ''w'')
       = Some [Some (js ''t1'') \<mapsto> \<lparr>tool_id = Some (js ''t1''), tool_title = Some (js ''run''),
                                      tool_status = Some (js ''completed'')\<rparr>]
   \<and> \<not> T1 (deliver (still, js ''u'', js ''w'',
                     tool_call (Some (js ''t1'')) (Some (js ''run'')) (Some (js ''completed'')))
               (manager1 failing_env))
   \<and> activeTools (deliver_all
          [(still, js ''u'', js ''w'',
            tool_call (Some (js ''t1'')) (Some (js ''run'')) (Some (js ''pending''))),
           (still, js ''u'', js ''w'',
            tool_call_update (Some (js ''t1'')) (Some (js ''in_progress'')))]
          (manager1 failing_env)) (js ''w'')
       = Some [Some (js ''t1'') \<mapsto> \<lparr>tool_id = Some (js ''t1''), tool_title = Some (js ''run''),
                                      tool_status = Some (js ''in_progress'')\<rparr>]"
proof -
  let ?s = "deliver (still, js ''u'', js ''w'',
                     tool_call (Some (js ''t1'')) (Some (js ''run'')) (Some (js ''completed'')))
               (manager1 failing_env)"
  let ?e1 = "(still, js ''u'', js ''w'',
              tool_call (Some (js ''t1'')) (Some (js ''run'')) (Some (js ''pending'')))"
  let ?ws = "\<lparr>ws_id = js ''w'', ws_name = js ''fix-x'', task = js ''do it'', status = Starting,
       worktreePath = None, branchName = None, acpSessionId = None, createdAt = 0, lastActivity = 0,
       currentActivity = js ''Initializing...'', notifications = [], messageHistory = []\<rparr>"
  let ?tool = "\<lparr>tool_id = Some (js ''t1''), tool_title = Some (js ''run''),
                 tool_status = Some (js ''pending'')\<rparr>"
  have ws: "workstreams (manager1 failing_env) (js ''w'') = Some ?ws"
    by (simp add: manager1_workstreams)
  have a: "activeTools ?s (js ''w'')
       = Some [Some (js ''t1'') \<mapsto> \<lparr>tool_id = Some (js ''t1''), tool_title = Some (js ''run''),
                                      tool_status = Some (js ''completed'')\<rparr>]"
    by (rule tool_call_inserts [OF parse_tool_call]) (simp_all add: manager1_workstreams manager1_fields)
  have n: "\<not> T1 ?s"
  proof
    assume "T1 ?s"
    from T1_tools [OF this a, of "Some (js ''t1'')"] show False by (simp add: js_inject)
  qed
  have b1: "activeTools (deliver ?e1 (manager1 failing_env)) (js ''w'') = Some [Some (js ''t1'') \<mapsto> ?tool]"
    by (rule tool_call_inserts [OF parse_tool_call]) (simp_all add: manager1_workstreams manager1_fields)
  have ws1: "workstreams (deliver ?e1 (manager1 failing_env)) (js ''w'')
      = Some (?ws\<lparr>currentActivity := tool_prefix @ js ''run'', lastActivity := 0\<rparr>)"
    by (simp add: deliver_tool_call [OF parse_tool_call ws] handle_tool_call_def Let_def
        updateWorkstream_def emit_def manager1_workstreams manager1_fields template_def still_def)
  have b2: "activeTools (deliver (still, js ''u'', js ''w'',
                tool_call_update (Some (js ''t1'')) (Some (js ''in_progress'')))
              (deliver ?e1 (manager1 failing_env))) (js ''w'')
      = Some ([Some (js ''t1'') \<mapsto> ?tool](Some (js ''t1'') \<mapsto> ?tool\<lparr>tool_status := Some (js ''in_progress'')\<rparr>))"
    by (rule tool_update_keeps [OF parse_tool_call_update ws1 b1])
       (simp_all add: truthy_def js_Nil js_inject)
  from a n b2 T1_manager1 show ?thesis by simp
qed

section \<open>The working-copy provider: failures\<close>

lemma failing_env_eval:
  "execSync failing_env c d = Inl (Error (js ''Command failed''))"
  "existsSync failing_env q = False"
  "mkdirSync failing_env q = Inr ()"
  "path_join failing_env a b = a @ js ''/'' @ b"
  "execSync failing_env_exists c d = Inl (Error (js ''Command failed''))"
  "existsSync failing_env_exists q = True"
  "readFileSync failing_env_exists q = Inr []"
  "appendFileSync failing_env_exists q x = Inl (Error (js ''ENOENT''))"
  "path_join failing_env_exists a b = a @ js ''/'' @ b"
  by (simp_all add: failing_env_def failing_env_exists_def)

lemma failing_env_ignored_eval:
  "execSync failing_env_ignored c d = Inl (Error (js ''Command failed''))"
  "existsSync failing_env_ignored q = True"
  "readFileSync failing_env_ignored q = Inr (js ''.goose-worktrees/'' @ [10])"
  "path_join failing_env_ignored a b = a @ js ''/'' @ b"
  by (simp_all add: failing_env_ignored_def failing_env_def failing_env_exists_def)

lemma branch_failing_env_eval:
  "execSync branch_failing_env c d =
     (if startsWith c (js ''git branch'') then Inl (Error (js ''Command failed''))
      else Inr (js ''0a1b2c3'' @ [10]))"
  "existsSync branch_failing_env q = True"
  "readFileSync branch_failing_env q = Inr (js ''.goose-worktrees/'' @ [10])"
  "path_join branch_failing_env a b = a @ js ''/'' @ b"
  by (simp_all add: branch_failing_env_def)

lemma ensure_failing_env: "ensureWorktreesDir failing_env wm = Inr ()"
  by (simp add: ensureWorktreesDir_def failing_env_eval Let_def)

lemma ensure_failing_env_exists:
  "ensureWorktreesDir failing_env_exists wm = Inl (Error (js ''ENOENT''))"
  by (simp add: ensureWorktreesDir_def failing_env_eval Let_def js_Nil)

lemma includes_entry: "includes_str (js ''.goose-worktrees/'' @ [10]) (js ''.goose-worktrees/'')"
  by (simp add: js_def startsWith_def)

lemma ensure_failing_env_ignored: "ensureWorktreesDir failing_env_ignored wm = Inr ()"
  by (simp add: ensureWorktreesDir_def failing_env_ignored_eval Let_def includes_entry)

lemma ensure_branch_failing_env: "ensureWorktreesDir branch_failing_env wm = Inr ()"
  by (simp add: ensureWorktreesDir_def branch_failing_env_eval Let_def includes_entry)

lemma git_branch_commands:
  "startsWith (js ''git branch -D '' @ x) (js ''git branch'')"
  "startsWith (js ''git branch '' @ x) (js ''git branch'')"
  "\<not> startsWith (js ''git worktree remove \"'' @ x) (js ''git branch'')"
  "\<not> startsWith (js ''git worktree add \"'' @ x) (js ''git branch'')"
  "\<not> startsWith (js ''git rev-parse --short HEAD'') (js ''git branch'')"
  by (simp_all add: js_def startsWith_def of_char16_eq_iff)

lemma trim_hash: "trim (js ''0a1b2c3'' @ [10]) = js ''0a1b2c3''"
  by (simp add: trim_def js_def white_space_def)


text \<open>
  Claim C4, as the code has it. When its git command fails, \<open>getDiff\<close> and \<open>getStatus\<close>
  return the empty string, \<open>commitChanges\<close> returns false and \<open>listWorktrees\<close> the empty
  list; none of the four has a throwing outcome. \<open>removeWorktree\<close> throws exactly when the
  path of the working copy exists and \<open>git worktree remove\<close> fails, and then what that
  command throws; otherwise it returns, whatever \<open>git branch -D\<close> does. \<open>createWorktree\<close>
  throws what \<open>ensureWorktreesDir\<close> throws, else what the removal of an existing working
  copy throws, else what \<open>git worktree add\<close> throws; otherwise it returns the path, the
  branch \<open>goose/name\<close> and the commit of the new working copy, whatever \<open>git branch\<close> does.
\<close>

theorem provider_failures:
  "(execSync E (js ''git diff HEAD'') p = Inl e \<longrightarrow> getDiff E wm p = [])
   \<and> (execSync E (js ''git status --short'') p = Inl e \<longrightarrow> getStatus E wm p = [])
   \<and> (execSync E (js ''git add -A'') p = Inl e
        \<or> execSync E (js ''git commit -m \"'' @ escape_quotes msg @ js ''\"'') p = Inl e
        \<longrightarrow> commitChanges E wm p msg = False)
   \<and> (execSync E (js ''git worktree list --porcelain'') (wm_repoPath wm) = Inl e
        \<longrightarrow> listWorktrees E wm = [])
   \<and> (existsSync E (path_join E (worktreesDir wm) name)
        \<and> execSync E (js ''git worktree remove \"'' @ path_join E (worktreesDir wm) name
                       @ js ''\" --force'') (wm_repoPath wm) = Inl e
        \<longrightarrow> removeWorktree E wm name = Inl e)
   \<and> (existsSync E (path_join E (worktreesDir wm) name)
        \<and> execSync E (js ''git worktree remove \"'' @ path_join E (worktreesDir wm) name
                       @ js ''\" --force'') (wm_repoPath wm) = Inr out
        \<longrightarrow> removeWorktree E wm name = Inr ())
   \<and> (\<not> existsSync E (path_join E (worktreesDir wm) name)
        \<longrightarrow> removeWorktree E wm name = Inr ())
   \<and> (ensureWorktreesDir E wm = Inl e \<longrightarrow> createWorktree E wm name base = Inl e)
   \<and> (ensureWorktreesDir E wm = Inr ()
        \<and> existsSync E (path_join E (worktreesDir wm) name)
        \<and> execSync E (js ''git worktree remove \"'' @ path_join E (worktreesDir wm) name
                       @ js ''\" --force'') (wm_repoPath wm) = Inl e
        \<longrightarrow> createWorktree E wm name base = Inl e)
   \<and> (ensureWorktreesDir E wm = Inr ()
        \<and> (existsSync E (path_join E (worktreesDir wm) name)
             \<longrightarrow> execSync E (js ''git worktree remove \"'' @ path_join E (worktreesDir wm) name
                       @ js ''\" --force'') (wm_repoPath wm) = Inr out)
        \<and> execSync E (js ''git worktree add \"'' @ path_join E (worktreesDir wm) name
                       @ js ''\" '' @ js ''goose/'' @ name) (wm_repoPath wm) = Inl e
        \<longrightarrow> createWorktree E wm name base = Inl e)
   \<and> (ensureWorktreesDir E wm = Inr ()
        \<and> (existsSync E (path_join E (worktreesDir wm) name)
             \<longrightarrow> execSync E (js ''git worktree remove \"'' @ path_join E (worktreesDir wm) name
                       @ js ''\" --force'') (wm_repoPath wm) = Inr out)
        \<and> execSync E (js ''git worktree add \"'' @ path_join E (worktreesDir wm) name
                       @ js ''\" '' @ js ''goose/'' @ name) (wm_repoPath wm) = Inr out'
        \<longrightarrow> createWorktree E wm name base
             = Inr \<lparr>wt_path = path_join E (worktreesDir wm) name,
                    wt_branch = js ''goose/'' @ name,
                    wt_commit = (case execSync E (js ''git rev-parse --short HEAD'')
                                        (if path_join E (worktreesDir wm) name = []
                                         then wm_repoPath wm
                                         else path_join E (worktreesDir wm) name) of
                                   Inl x \<Rightarrow> js ''unknown'' | Inr h \<Rightarrow> trim h)\<rparr>)"
proof (intro conjI impI)
  assume "execSync E (js ''git diff HEAD'') p = Inl e"
  then show "getDiff E wm p = []" by (simp add: getDiff_def)
next
  assume "execSync E (js ''git status --short'') p = Inl e"
  then show "getStatus E wm p = []" by (simp add: getStatus_def)
next
  assume "execSync E (js ''git add -A'') p = Inl e
        \<or> execSync E (js ''git commit -m \"'' @ escape_quotes msg @ js ''\"'') p = Inl e"
  then show "commitChanges E wm p msg = False"
    by (auto simp: commitChanges_def split: sum.splits)
next
  assume "execSync E (js ''git worktree list --porcelain'') (wm_repoPath wm) = Inl e"
  then show "listWorktrees E wm = []" by (simp add: listWorktrees_def)
next
  assume "existsSync E (path_join E (worktreesDir wm) name)
        \<and> execSync E (js ''git worktree remove \"'' @ path_join E (worktreesDir wm) name
                       @ js ''\" --force'') (wm_repoPath wm) = Inl e"
  then show "removeWorktree E wm name = Inl e" by (simp add: removeWorktree_def Let_def)
next
  assume "existsSync E (path_join E (worktreesDir wm) name)
        \<and> execSync E (js ''git worktree remove \"'' @ path_join E (worktreesDir wm) name
                       @ js ''\" --force'') (wm_repoPath wm) = Inr out"
  then show "removeWorktree E wm name = Inr ()"
    by (simp add: removeWorktree_def Let_def split: sum.splits)
next
  assume "\<not> existsSync E (path_join E (worktreesDir wm) name)"
  then show "removeWorktree E wm name = Inr ()"
    by (simp add: removeWorktree_def Let_def split: sum.splits)
next
  assume "ensureWorktreesDir E wm = Inl e"
  then show "createWorktree E wm name base = Inl e" by (simp add: createWorktree_def)
next
  assume "ensureWorktreesDir E wm = Inr ()
        \<and> existsSync E (path_join E (worktreesDir wm) name)
        \<and> execSync E (js ''git worktree remove \"'' @ path_join E (worktreesDir wm) name
                       @ js ''\" --force'') (wm_repoPath wm) = Inl e"
  then show "createWorktree E wm name base = Inl e"
    by (simp add: createWorktree_def removeWorktree_def Let_def)
next
  assume a: "ensureWorktreesDir E wm = Inr ()
        \<and> (existsSync E (path_join E (worktreesDir wm) name)
             \<longrightarrow> execSync E (js ''git worktree remove \"'' @ path_join E (worktreesDir wm) name
                       @ js ''\" --force'') (wm_repoPath wm) = Inr out)
        \<and> execSync E (js ''git worktree add \"'' @ path_join E (worktreesDir wm) name
                       @ js ''\" '' @ js ''goose/'' @ name) (wm_repoPath wm) = Inl e"
  show "createWorktree E wm name base = Inl e"
  proof (cases "existsSync E (path_join E (worktreesDir wm) name)")
    case True
    with a show ?thesis
      by (simp add: createWorktree_def removeWorktree_def Let_def split: sum.splits)
  next
    case False
    with a show ?thesis by (simp add: createWorktree_def Let_def split: sum.splits)
  qed
next
  assume a: "ensureWorktreesDir E wm = Inr ()
        \<and> (existsSync E (path_join E (worktreesDir wm) name)
             \<longrightarrow> execSync E (js ''git worktree remove \"'' @ path_join E (worktreesDir wm) name
                       @ js ''\" --force'') (wm_repoPath wm) = Inr out)
        \<and> execSync E (js ''git worktree add \"'' @ path_join E (worktreesDir wm) name
                       @ js ''\" '' @ js ''goose/'' @ name) (wm_repoPath wm) = Inr out'"
  have t: "truthy (Some (path_join E (worktreesDir wm) name))
             \<or> path_join E (worktreesDir wm) name = []"
    by (simp add: truthy_def)
  show "createWorktree E wm name base
             = Inr \<lparr>wt_path = path_join E (worktreesDir wm) name,
                    wt_branch = js ''goose/'' @ name,
                    wt_commit = (case execSync E (js ''git rev-parse --short HEAD'')
                                        (if path_join E (worktreesDir wm) name = []
                                         then wm_repoPath wm
                                         else path_join E (worktreesDir wm) name) of
                                   Inl x \<Rightarrow> js ''unknown'' | Inr h \<Rightarrow> trim h)\<rparr>"
  proof (cases "existsSync E (path_join E (worktreesDir wm) name)")
    case True
    with a show ?thesis
      by (simp add: createWorktree_def removeWorktree_def getCommitHash_def truthy_def Let_def
          split: sum.splits)
  next
    case False
    with a show ?thesis
      by (simp add: createWorktree_def getCommitHash_def truthy_def Let_def split: sum.splits)
  qed
qed


lemma repo1_fields:
  "wm_repoPath (repo1 E) = js ''/repo''"
  "worktreesDir (repo1 E) = path_join E (js ''/repo'') (js ''.goose-worktrees'')"
  by (simp_all add: repo1_def new_GitWorktreeManager_def)

theorem provider_failures_witness:
  "getDiff failing_env (repo1 failing_env) (js ''/repo'') = []
   \<and> getStatus failing_env (repo1 failing_env) (js ''/repo'') = []
   \<and> commitChanges failing_env (repo1 failing_env) (js ''/repo'') (js ''wip'') = False
   \<and> listWorktrees failing_env (repo1 failing_env) = []
   \<and> removeWorktree failing_env_exists (repo1 failing_env_exists) (js ''fix-x'')
       = Inl (Error (js ''Command failed''))
   \<and> execSync branch_failing_env (js ''git branch -D goose/fix-x'') (js ''/repo'')
       = Inl (Error (js ''Command failed''))
   \<and> removeWorktree branch_failing_env (repo1 branch_failing_env) (js ''fix-x'') = Inr ()
   \<and> removeWorktree failing_env (repo1 failing_env) (js ''fix-x'') = Inr ()
   \<and> createWorktree failing_env_exists (repo1 failing_env_exists) (js ''fix-x'') None
       = Inl (Error (js ''ENOENT''))
   \<and> createWorktree failing_env_ignored (repo1 failing_env_ignored) (js ''fix-x'') None
       = Inl (Error (js ''Command failed''))
   \<and> createWorktree failing_env (repo1 failing_env) (js ''fix-x'') None
       = Inl (Error (js ''Command failed''))
   \<and> execSync branch_failing_env (js ''git branch goose/fix-x main'') (js ''/repo'')
       = Inl (Error (js ''Command failed''))
   \<and> createWorktree branch_failing_env (repo1 branch_failing_env) (js ''fix-x'')
         (Some (js ''main''))
       = Inr \<lparr>wt_path = js ''/repo/.goose-worktrees/fix-x'', wt_branch = js ''goose/fix-x'',
              wt_commit = js ''0a1b2c3''\<rparr>"
proof -
  note a = provider_failures [where E = failing_env and wm = "repo1 failing_env"
      and p = "js ''/repo''" and e = "Error (js ''Command failed'')" and msg = "js ''wip''"
      and name = "js ''fix-x''" and base = None]
  note b = provider_failures [where E = failing_env_exists and wm = "repo1 failing_env_exists"
      and p = "js ''/repo''" and e = "Error (js ''Command failed'')" and msg = "js ''wip''"
      and name = "js ''fix-x''" and base = None]
  note c = provider_failures [where E = failing_env_exists and wm = "repo1 failing_env_exists"
      and p = "js ''/repo''" and e = "Error (js ''ENOENT'')" and msg = "js ''wip''"
      and name = "js ''fix-x''" and base = None]
  note d = provider_failures [where E = failing_env_ignored and wm = "repo1 failing_env_ignored"
      and p = "js ''/repo''" and e = "Error (js ''Command failed'')" and msg = "js ''wip''"
      and name = "js ''fix-x''" and base = None]
  note f = provider_failures [where E = branch_failing_env and wm = "repo1 branch_failing_env"
      and p = "js ''/repo''" and msg = "js ''wip''" and name = "js ''fix-x''"
      and base = "Some (js ''main'')" and out = "js ''0a1b2c3'' @ [10]"
      and out' = "js ''0a1b2c3'' @ [10]"]
  from a have 1: "getDiff failing_env (repo1 failing_env) (js ''/repo'') = []"
    by (simp add: failing_env_eval)
  from a have 2: "getStatus failing_env (repo1 failing_env) (js ''/repo'') = []"
    by (simp add: failing_env_eval)
  from a have 3: "commitChanges failing_env (repo1 failing_env) (js ''/repo'') (js ''wip'') = False"
    by (simp add: failing_env_eval)
  from a have 4: "listWorktrees failing_env (repo1 failing_env) = []"
    by (simp add: failing_env_eval)
  from b have 5: "removeWorktree failing_env_exists (repo1 failing_env_exists) (js ''fix-x'')
       = Inl (Error (js ''Command failed''))"
    by (simp add: failing_env_eval)
  have 6: "execSync branch_failing_env (js ''git branch -D goose/fix-x'') (js ''/repo'')
       = Inl (Error (js ''Command failed''))"
    by (simp add: branch_failing_env_eval js_def startsWith_def)
  from f have 7: "removeWorktree branch_failing_env (repo1 branch_failing_env) (js ''fix-x'') = Inr ()"
    by (simp add: branch_failing_env_eval git_branch_commands)
  from a have 8: "removeWorktree failing_env (repo1 failing_env) (js ''fix-x'') = Inr ()"
    by (simp add: failing_env_eval)
  from c have 9: "createWorktree failing_env_exists (repo1 failing_env_exists) (js ''fix-x'') None
       = Inl (Error (js ''ENOENT''))"
    by (simp add: ensure_failing_env_exists)
  from d have 10: "createWorktree failing_env_ignored (repo1 failing_env_ignored) (js ''fix-x'') None
       = Inl (Error (js ''Command failed''))"
    by (simp add: ensure_failing_env_ignored failing_env_ignored_eval)
  from a have 11: "createWorktree failing_env (repo1 failing_env) (js ''fix-x'') None
       = Inl (Error (js ''Command failed''))"
    by (simp add: ensure_failing_env failing_env_eval)
  have 12: "execSync branch_failing_env (js ''git branch goose/fix-x main'') (js ''/repo'')
       = Inl (Error (js ''Command failed''))"
    by (simp add: branch_failing_env_eval js_def startsWith_def)
  have p: "path_join branch_failing_env (worktreesDir (repo1 branch_failing_env)) (js ''fix-x'')
       = js ''/repo/.goose-worktrees/fix-x''"
    by (simp add: repo1_fields branch_failing_env_eval js_def)
  have n: "js ''/repo/.goose-worktrees/fix-x'' \<noteq> []" by (simp add: js_Nil)
  have g: "js ''goose/'' @ js ''fix-x'' = js ''goose/fix-x''" by (simp add: js_def)
  from f have 13: "createWorktree branch_failing_env (repo1 branch_failing_env) (js ''fix-x'')
         (Some (js ''main''))
       = Inr \<lparr>wt_path = js ''/repo/.goose-worktrees/fix-x'', wt_branch = js ''goose/fix-x'',
              wt_commit = js ''0a1b2c3''\<rparr>"
    unfolding p g
    by (simp add: ensure_branch_failing_env branch_failing_env_eval git_branch_commands
        trim_hash n)
  from 1 2 3 4 5 6 7 8 9 10 11 12 13 show ?thesis by blast
qed

text \<open>
  The claim as it was stated fails on \<open>createWorktree\<close> and \<open>removeWorktree\<close>: where every
  git command fails, both throw.
\<close>

theorem createWorktree_throws:
  "createWorktree failing_env (repo1 failing_env) (js ''fix-x'') None
     = Inl (Error (js ''Command failed''))
   \<and> removeWorktree failing_env_exists (repo1 failing_env_exists) (js ''fix-x'')
     = Inl (Error (js ''Command failed''))"
  by (simp add: createWorktree_def removeWorktree_def ensure_failing_env failing_env_eval Let_def
      truthy_def getCurrentBranch_def)

end
